(* ===== verification/Prelude.thy ===== *)
theory Prelude
  imports Main "HOL-Library.Word"
begin

text \<open>
  Shared vocabulary of the development: the collections of rewrite rules the component
  theories contribute to, list and option lemmas used by more than one component, and
  the names of the C scalar types.  A C \<^verbatim>\<open>int\<close> that is a file descriptor, an errno or a
  flag word is an \<^typ>\<open>int\<close>; quantities whose width matters are words or are reduced
  explicitly where the source reduces them.
\<close>

unbundle bit_operations_syntax

named_theorems world_simps \<open>how the global state projects through the helper operations\<close>
named_theorems cstr_simps \<open>evaluation of the C string routines\<close>
named_theorems slot_simps \<open>updates of one slot of a table\<close>

type_synonym cstring = string
type_synonym bytes = "char list"

section \<open>Lists\<close>

text \<open>The first index of a list with a given property, the shape of every table scan.\<close>

fun find_index :: "('a \<Rightarrow> bool) \<Rightarrow> 'a list \<Rightarrow> nat option" where
  "find_index P [] = None"
| "find_index P (x # xs) =
     (if P x then Some 0 else map_option Suc (find_index P xs))"

lemma find_index_SomeD:
  "find_index P xs = Some i \<Longrightarrow> i < length xs \<and> P (xs ! i) \<and> (\<forall>j<i. \<not> P (xs ! j))"
proof (induction xs arbitrary: i)
  case Nil
  then show ?case by simp
next
  case (Cons x xs)
  show ?case
  proof (cases "P x")
    case True
    with Cons.prems show ?thesis by simp
  next
    case False
    with Cons.prems obtain k where k: "find_index P xs = Some k" "i = Suc k" by auto
    with Cons.IH [OF k(1)] False show ?thesis
      by (auto simp: less_Suc_eq_0_disj)
  qed
qed

lemma find_index_None_iff: "find_index P xs = None \<longleftrightarrow> (\<forall>x\<in>set xs. \<not> P x)"
  by (induction xs) auto

lemma find_index_SomeI:
  assumes "i < length xs" and "P (xs ! i)" and "\<forall>j<i. \<not> P (xs ! j)"
  shows "find_index P xs = Some i"
proof (cases "find_index P xs")
  case None
  with assms show ?thesis by (auto simp: find_index_None_iff)
next
  case (Some k)
  from find_index_SomeD [OF Some] assms have "k = i"
    by (metis linorder_neqE_nat)
  with Some show ?thesis by simp
qed

lemma find_index_map_cong:
  assumes "length xs = length ys" and "\<And>i. i < length xs \<Longrightarrow> P (xs ! i) = Q (ys ! i)"
  shows "find_index P xs = find_index Q ys"
  using assms
proof (induction xs ys rule: list_induct2)
  case Nil
  then show ?case by simp
next
  case (Cons x xs y ys)
  from Cons.prems [of 0] have "P x = Q y" by simp
  moreover have "find_index P xs = find_index Q ys"
    using Cons.prems by (intro Cons.IH) (metis Suc_less_eq length_Cons nth_Cons_Suc)
  ultimately show ?case by simp
qed

section \<open>Counting slots of a table\<close>

lemma length_filter_update [slot_simps]:
  assumes "i < length xs"
  shows "length (filter P (xs[i := y])) + (if P (xs ! i) then 1 else 0)
       = length (filter P xs) + (if P y then 1 else 0)"
proof -
  have "length (filter P xs)
      = length (filter P (take i xs @ xs ! i # drop (Suc i) xs))"
    using assms by (simp only: id_take_nth_drop [symmetric])
  then have old: "length (filter P xs)
      = length (filter P (take i xs)) + (if P (xs ! i) then 1 else 0)
        + length (filter P (drop (Suc i) xs))"
    by simp
  have "xs[i := y] = take i xs @ y # drop (Suc i) xs"
    using assms by (rule upd_conv_take_nth_drop)
  then have new: "length (filter P (xs[i := y]))
      = length (filter P (take i xs)) + (if P y then 1 else 0)
        + length (filter P (drop (Suc i) xs))"
    by simp
  from old new show ?thesis by simp
qed

lemma length_filter_pos: "i < length xs \<Longrightarrow> P (xs ! i) \<Longrightarrow> 0 < length (filter P xs)"
  by (simp add: filter_empty_conv) (metis nth_mem)

section \<open>Flag words\<close>

text \<open>\<^verbatim>\<open>flags & bit\<close> used as a condition.\<close>

definition has_flag :: "int \<Rightarrow> int \<Rightarrow> bool" where
  "has_flag flags m \<longleftrightarrow> flags AND m \<noteq> 0"

lemma has_flag_bit: "has_flag f (2 ^ n) \<longleftrightarrow> bit f n"
  by (simp add: has_flag_def and_exp_eq_0_iff_not_bit)

lemma has_flag_or: "has_flag f (2 ^ n) \<Longrightarrow> f OR 2 ^ n = f"
  unfolding has_flag_bit by (rule bit_eqI) (auto simp: bit_or_iff bit_exp_iff)

end
