(* ===== verification/CString.thy ===== *)
theory CString
  imports Prelude
begin

text \<open>
  The C library routines the sources call on strings: \<^verbatim>\<open>strtoul\<close>, \<^verbatim>\<open>strtoull\<close>, \<^verbatim>\<open>strtol\<close>,
  \<^verbatim>\<open>atoi\<close>, \<^verbatim>\<open>strrchr\<close>, \<^verbatim>\<open>strchr\<close>, \<^verbatim>\<open>strchrnul\<close>, \<^verbatim>\<open>strncmp\<close>, the \<^verbatim>\<open>snprintf\<close> conversions
  \<^verbatim>\<open>%d\<close>, \<^verbatim>\<open>%ld\<close>, \<^verbatim>\<open>%09ld\<close> and \<^verbatim>\<open>%016llx\<close>, \<^verbatim>\<open>sscanf("%lld.%u")\<close> and the part of \<^verbatim>\<open>fnmatch\<close>
  the open redirection table uses.  A NUL-terminated string is the list of the
  characters before its NUL; a pointer into a string is the suffix it points to.  The
  lemmas give what the parsers return on what the printers write.
\<close>

definition NUL :: char where
  "NUL = CHR 0x00"

text \<open>The string a buffer holds, up to its first NUL.\<close>

definition cstr :: "bytes \<Rightarrow> cstring" where
  "cstr buf = takeWhile (\<lambda>c. c \<noteq> NUL) buf"

text \<open>\<^verbatim>\<open>snprintf(buf, size, "%s", s)\<close>: what the buffer holds afterwards.\<close>

definition snprintf_str :: "nat \<Rightarrow> cstring \<Rightarrow> cstring" where
  "snprintf_str n s = take (n - 1) s"

section \<open>Character classes\<close>

definition is_digit :: "char \<Rightarrow> bool" where
  "is_digit c \<longleftrightarrow> 48 \<le> (of_char c :: nat) \<and> (of_char c :: nat) \<le> 57"

definition digit_val :: "char \<Rightarrow> nat" where
  "digit_val c = of_char c - 48"

definition is_space :: "char \<Rightarrow> bool" where
  "is_space c \<longleftrightarrow> (of_char c :: nat) = 32 \<or> (9 \<le> (of_char c :: nat) \<and> (of_char c :: nat) \<le> 13)"

definition digit_char :: "nat \<Rightarrow> char" where
  "digit_char d = ''0123456789abcdef'' ! d"

section \<open>Number parsing\<close>

fun digits_acc :: "nat \<Rightarrow> cstring \<Rightarrow> nat \<times> cstring" where
  "digits_acc n [] = (n, [])"
| "digits_acc n (c # cs) =
     (if is_digit c then digits_acc (10 * n + digit_val c) cs else (n, c # cs))"

fun c_sign :: "cstring \<Rightarrow> bool \<times> cstring" where
  "c_sign [] = (False, [])"
| "c_sign (c # cs) =
     (if c = CHR ''-'' then (True, cs) else if c = CHR ''+'' then (False, cs)
      else (False, c # cs))"

text \<open>
  The subject sequence of \<^verbatim>\<open>strtol\<close> in base 10: white space, an optional sign, digits.
  None where there is no digit, in which case the end pointer is the argument.
\<close>

definition scan_dec :: "cstring \<Rightarrow> (bool \<times> nat \<times> cstring) option" where
  "scan_dec s =
     (let (neg, t) = c_sign (dropWhile is_space s)
      in case t of
           [] \<Rightarrow> None
         | c # cs \<Rightarrow>
             if is_digit c then (let (n, r) = digits_acc 0 t in Some (neg, n, r)) else None)"

definition ULONG_MAX :: nat where
  "ULONG_MAX = 2 ^ 64 - 1"

text \<open>\<^verbatim>\<open>strtoul\<close> and \<^verbatim>\<open>strtoull\<close>, both 64 bits wide on the target.\<close>

definition strtoull :: "cstring \<Rightarrow> 64 word \<times> cstring" where
  "strtoull s =
     (case scan_dec s of
        None \<Rightarrow> (0, s)
      | Some (neg, n, r) \<Rightarrow>
          (if ULONG_MAX < n then of_nat ULONG_MAX
           else if neg then - of_nat n else of_nat n, r))"

definition LONG_MAX :: int where
  "LONG_MAX = 2 ^ 63 - 1"

definition LONG_MIN :: int where
  "LONG_MIN = - (2 ^ 63)"

definition clamp_long :: "int \<Rightarrow> int" where
  "clamp_long v = (if v < LONG_MIN then LONG_MIN else if LONG_MAX < v then LONG_MAX else v)"

definition strtol :: "cstring \<Rightarrow> int \<times> cstring" where
  "strtol s =
     (case scan_dec s of
        None \<Rightarrow> (0, s)
      | Some (neg, n, r) \<Rightarrow> (clamp_long (if neg then - int n else int n), r))"

definition atoi :: "cstring \<Rightarrow> int" where
  "atoi s = signed_take_bit 31 (fst (strtol s))"

section \<open>Base 0\<close>

definition hex_val :: "char \<Rightarrow> nat option" where
  "hex_val c =
     (let v = (of_char c :: nat)
      in if is_digit c then Some (digit_val c)
         else if 97 \<le> v \<and> v \<le> 102 then Some (v - 87)
         else if 65 \<le> v \<and> v \<le> 70 then Some (v - 55)
         else None)"

fun radix_acc :: "nat \<Rightarrow> nat \<Rightarrow> cstring \<Rightarrow> nat" where
  "radix_acc b n [] = n"
| "radix_acc b n (c # cs) =
     (case hex_val c of
        Some d \<Rightarrow> if d < b then radix_acc b (b * n + d) cs else n
      | None \<Rightarrow> n)"

text \<open>\<^verbatim>\<open>strtol(s, NULL, 0)\<close>: \<^verbatim>\<open>0x\<close> selects base 16, a leading \<^verbatim>\<open>0\<close> base 8.\<close>

definition strtol_base0 :: "cstring \<Rightarrow> int" where
  "strtol_base0 s =
     (let (neg, t) = c_sign (dropWhile is_space s);
          n = (case t of
                 c # x # h # _ \<Rightarrow>
                   if c = CHR ''0'' \<and> (x = CHR ''x'' \<or> x = CHR ''X'') \<and> hex_val h \<noteq> None
                   then radix_acc 16 0 (drop 2 t)
                   else if c = CHR ''0'' then radix_acc 8 0 t else radix_acc 10 0 t
               | c # _ \<Rightarrow> if c = CHR ''0'' then radix_acc 8 0 t else radix_acc 10 0 t
               | [] \<Rightarrow> 0)
      in clamp_long (if neg then - int n else int n))"

section \<open>Searching and comparing\<close>

fun strrchr :: "char \<Rightarrow> cstring \<Rightarrow> cstring option" where
  "strrchr c [] = None"
| "strrchr c (x # xs) =
     (case strrchr c xs of
        Some r \<Rightarrow> Some r
      | None \<Rightarrow> if x = c then Some (x # xs) else None)"

definition strchr :: "char \<Rightarrow> cstring \<Rightarrow> cstring option" where
  "strchr c s =
     (case dropWhile (\<lambda>x. x \<noteq> c) s of [] \<Rightarrow> None | x # xs \<Rightarrow> Some (x # xs))"

definition strncmp_eq :: "nat \<Rightarrow> cstring \<Rightarrow> cstring \<Rightarrow> bool" where
  "strncmp_eq n a b \<longleftrightarrow> take n a = take n b"

section \<open>Number printing\<close>

fun show_nat :: "nat \<Rightarrow> cstring" where
  "show_nat n =
     (if n < 10 then [digit_char n] else show_nat (n div 10) @ [digit_char (n mod 10)])"

declare show_nat.simps [simp del]

definition show_int :: "int \<Rightarrow> cstring" where
  "show_int i = (if i < 0 then CHR ''-'' # show_nat (nat (- i)) else show_nat (nat i))"

definition zero_pad :: "nat \<Rightarrow> cstring \<Rightarrow> cstring" where
  "zero_pad w s = replicate (w - length s) (CHR ''0'') @ s"

fun show_hex :: "nat \<Rightarrow> cstring" where
  "show_hex n =
     (if n < 16 then [digit_char n] else show_hex (n div 16) @ [digit_char (n mod 16)])"

declare show_hex.simps [simp del]

section \<open>sscanf and fnmatch\<close>

text \<open>\<^verbatim>\<open>sscanf(buf, "%lld.%u", &sec, &nsec) == 2\<close>.\<close>

definition sscanf_lld_dot_u :: "cstring \<Rightarrow> (int \<times> 32 word) option" where
  "sscanf_lld_dot_u s =
     (case scan_dec s of
        None \<Rightarrow> None
      | Some (neg, n, r) \<Rightarrow>
          (case r of
             [] \<Rightarrow> None
           | c # cs \<Rightarrow>
               if c = CHR ''.'' then
                 (case scan_dec cs of
                    None \<Rightarrow> None
                  | Some _ \<Rightarrow> Some (clamp_long (if neg then - int n else int n),
                                   ucast (fst (strtoull cs))))
               else None))"

text \<open>
  \<^verbatim>\<open>fnmatch(pattern, path, FNM_PATHNAME) == 0\<close> for patterns built from literal
  characters and \<^verbatim>\<open>*\<close>, the only ones the redirection table holds.
\<close>

fun fnmatch :: "cstring \<Rightarrow> cstring \<Rightarrow> bool" where
  "fnmatch [] s = (s = [])"
| "fnmatch (p # ps) s =
     (if p = CHR ''*'' then
        fnmatch ps s \<or>
        (case s of [] \<Rightarrow> False | c # cs \<Rightarrow> c \<noteq> CHR ''/'' \<and> fnmatch (p # ps) cs)
      else (case s of [] \<Rightarrow> False | c # cs \<Rightarrow> c = p \<and> fnmatch ps cs))"

section \<open>Printing then parsing\<close>

text \<open>A tail that does not go on with digits, so that a number in front of it ends there.\<close>

definition no_digit :: "cstring \<Rightarrow> bool" where
  "no_digit r \<longleftrightarrow> (case r of [] \<Rightarrow> True | c # _ \<Rightarrow> \<not> is_digit c)"

lemma no_digit_simps [simp]:
  "no_digit []" "no_digit (c # cs) \<longleftrightarrow> \<not> is_digit c"
  by (simp_all add: no_digit_def)

lemma digit_char_cases:
  assumes "d < 10"
  shows "is_digit (digit_char d)" and "digit_val (digit_char d) = d"
    and "\<not> is_space (digit_char d)" and "digit_char d \<noteq> CHR ''-''" and "digit_char d \<noteq> CHR ''+''"
proof -
  from assms have "d = 0 \<or> d = 1 \<or> d = 2 \<or> d = 3 \<or> d = 4 \<or> d = 5 \<or> d = 6 \<or> d = 7 \<or> d = 8 \<or> d = 9"
    by arith
  then show "is_digit (digit_char d)" and "digit_val (digit_char d) = d"
    and "\<not> is_space (digit_char d)" and "digit_char d \<noteq> CHR ''-''" and "digit_char d \<noteq> CHR ''+''"
    by (auto simp: digit_char_def is_digit_def digit_val_def is_space_def)
qed

lemma digits_acc_no_digit: "no_digit r \<Longrightarrow> digits_acc n r = (n, r)"
  by (cases r) auto

lemma digits_acc_show:
  "digits_acc m (show_nat n @ r) = digits_acc (m * 10 ^ length (show_nat n) + n) r"
proof (induction n arbitrary: m r rule: show_nat.induct)
  case (1 n)
  show ?case
  proof (cases "n < 10")
    case True
    then show ?thesis
      by (simp add: show_nat.simps [of n] digit_char_cases mult.commute)
  next
    case False
    then have step: "show_nat n = show_nat (n div 10) @ [digit_char (n mod 10)]"
      by (simp add: show_nat.simps [of n])
    have m10: "n mod 10 < 10" by simp
    let ?L = "length (show_nat (n div 10))"
    have "digits_acc m (show_nat n @ r)
        = digits_acc (m * 10 ^ ?L + n div 10) (digit_char (n mod 10) # r)"
      using "1.IH" [OF False] by (simp add: step)
    also have "\<dots> = digits_acc (10 * (m * 10 ^ ?L + n div 10) + n mod 10) r"
      using digit_char_cases [OF m10] by simp
    also have "10 * (m * 10 ^ ?L + n div 10) + n mod 10 = m * 10 ^ Suc ?L + n"
      by (simp add: algebra_simps)
    finally show ?thesis by (simp add: step)
  qed
qed

lemma show_nat_first: "\<exists>c cs. show_nat n = c # cs \<and> is_digit c \<and> \<not> is_space c \<and> c \<noteq> CHR ''-'' \<and> c \<noteq> CHR ''+''"
proof (induction n rule: show_nat.induct)
  case (1 n)
  show ?case
  proof (cases "n < 10")
    case True
    then show ?thesis by (simp add: show_nat.simps [of n] digit_char_cases)
  next
    case False
    with "1.IH" show ?thesis by (auto simp: show_nat.simps [of n])
  qed
qed

lemma show_nat_digits: "\<forall>c\<in>set (show_nat n). is_digit c"
proof (induction n rule: show_nat.induct)
  case (1 n)
  then show ?case
    by (cases "n < 10") (auto simp: show_nat.simps [of n] digit_char_cases)
qed

lemma length_show_nat: "n < 10 ^ k \<Longrightarrow> 0 < k \<Longrightarrow> length (show_nat n) \<le> k"
proof (induction n arbitrary: k rule: show_nat.induct)
  case (1 n)
  show ?case
  proof (cases "n < 10")
    case True
    with "1.prems" show ?thesis by (simp add: show_nat.simps [of n])
  next
    case False
    then have "1 < k" using "1.prems" by (cases "k = 1") auto
    then obtain j where j: "k = Suc j" "0 < j" by (cases k) auto
    have "n div 10 < 10 ^ j" using "1.prems" j by (simp add: less_mult_imp_div_less mult.commute)
    from "1.IH" [OF False this j(2)] show ?thesis using False j by (simp add: show_nat.simps [of n])
  qed
qed

lemma scan_dec_show:
  assumes "no_digit r"
  shows "scan_dec (show_nat n @ r) = Some (False, n, r)"
proof -
  obtain c cs where c: "show_nat n = c # cs" "is_digit c" "\<not> is_space c" "c \<noteq> CHR ''-''" "c \<noteq> CHR ''+''"
    using show_nat_first by blast
  have "digits_acc 0 (show_nat n @ r) = (n, r)"
    using assms by (simp add: digits_acc_show digits_acc_no_digit)
  with c show ?thesis by (simp add: scan_dec_def)
qed

lemma scan_dec_minus_show:
  assumes "no_digit r"
  shows "scan_dec (CHR ''-'' # show_nat n @ r) = Some (True, n, r)"
proof -
  obtain c cs where c: "show_nat n = c # cs" "is_digit c"
    using show_nat_first by blast
  have "digits_acc 0 (show_nat n @ r) = (n, r)"
    using assms by (simp add: digits_acc_show digits_acc_no_digit)
  with c show ?thesis by (simp add: scan_dec_def is_space_def)
qed

lemma scan_dec_space: "is_space c \<Longrightarrow> scan_dec (c # s) = scan_dec s"
  by (simp add: scan_dec_def)

lemma scan_dec_show_int:
  assumes "no_digit r"
  shows "scan_dec (show_int i @ r) = Some (i < 0, nat \<bar>i\<bar>, r)"
  using assms by (simp add: show_int_def scan_dec_show scan_dec_minus_show)

lemma space_is_space [simp]: "is_space (CHR '' '')"
  by (simp add: is_space_def)

lemma strtoull_show:
  assumes "no_digit r" and "n < 2 ^ 64"
  shows "strtoull (show_nat n @ r) = (of_nat n, r)"
  using assms by (simp add: strtoull_def scan_dec_show ULONG_MAX_def)

lemma strtoull_rest_show_int:
  assumes "no_digit r"
  shows "snd (strtoull (CHR '' '' # show_int i @ r)) = r"
  using assms by (simp add: strtoull_def scan_dec_show_int scan_dec_space)

lemma strtol_show_int:
  assumes "no_digit r" and "LONG_MIN \<le> i" and "i \<le> LONG_MAX"
  shows "strtol (show_int i @ r) = (i, r)"
  using assms by (simp add: strtol_def scan_dec_show_int clamp_long_def)

lemma digits_acc_zeros: "digits_acc 0 (replicate k (CHR ''0'') @ s) = digits_acc 0 s"
  by (induction k) (auto simp: is_digit_def digit_val_def)

lemma scan_dec_zero_pad:
  assumes "no_digit r"
  shows "scan_dec (zero_pad w (show_nat n) @ r) = Some (False, n, r)"
proof (cases "w - length (show_nat n)")
  case 0
  with assms show ?thesis by (simp add: zero_pad_def scan_dec_show)
next
  case (Suc k)
  have "digits_acc 0 (replicate (Suc k) (CHR ''0'') @ show_nat n @ r) = (n, r)"
    using assms by (simp only: digits_acc_zeros digits_acc_show mult_zero_left add_0 digits_acc_no_digit)
  then show ?thesis
    by (simp add: zero_pad_def Suc scan_dec_def is_space_def is_digit_def digit_val_def)
qed

section \<open>fnmatch\<close>

definition literal_pattern :: "cstring \<Rightarrow> bool" where
  "literal_pattern ps \<longleftrightarrow> CHR ''*'' \<notin> set ps"

lemma fnmatch_literal: "literal_pattern ps \<Longrightarrow> fnmatch ps s \<longleftrightarrow> s = ps"
proof (induction ps arbitrary: s)
  case Nil
  then show ?case by simp
next
  case (Cons p ps)
  then show ?case by (cases s) (auto simp: literal_pattern_def)
qed

lemma fnmatch_literal_append:
  "literal_pattern ps \<Longrightarrow> fnmatch (ps @ qs) s \<longleftrightarrow> (\<exists>t. s = ps @ t \<and> fnmatch qs t)"
proof (induction ps arbitrary: s)
  case Nil
  then show ?case by simp
next
  case (Cons p ps)
  then show ?case by (cases s) (auto simp: literal_pattern_def)
qed

lemma fnmatch_star:
  "fnmatch (CHR ''*'' # ps) s \<longleftrightarrow> (\<exists>x t. s = x @ t \<and> CHR ''/'' \<notin> set x \<and> fnmatch ps t)"
proof (induction s)
  case Nil
  then show ?case by simp
next
  case (Cons c cs)
  note IH = Cons.IH
  have unfold: "fnmatch (CHR ''*'' # ps) (c # cs) \<longleftrightarrow>
      fnmatch ps (c # cs) \<or> (c \<noteq> CHR ''/'' \<and> fnmatch (CHR ''*'' # ps) cs)" by simp
  show ?case
  proof
    assume "fnmatch (CHR ''*'' # ps) (c # cs)"
    then consider "fnmatch ps (c # cs)"
      | x t where "c \<noteq> CHR ''/''" "cs = x @ t" "CHR ''/'' \<notin> set x" "fnmatch ps t"
      unfolding unfold IH by blast
    then show "\<exists>x t. c # cs = x @ t \<and> CHR ''/'' \<notin> set x \<and> fnmatch ps t"
    proof cases
      case 1
      then have "c # cs = [] @ (c # cs) \<and> CHR ''/'' \<notin> set [] \<and> fnmatch ps (c # cs)" by simp
      then show ?thesis by blast
    next
      case 2
      then have "c # cs = (c # x) @ t \<and> CHR ''/'' \<notin> set (c # x) \<and> fnmatch ps t" by simp
      then show ?thesis by blast
    qed
  next
    assume "\<exists>x t. c # cs = x @ t \<and> CHR ''/'' \<notin> set x \<and> fnmatch ps t"
    then obtain x t where xt: "c # cs = x @ t" "CHR ''/'' \<notin> set x" "fnmatch ps t" by blast
    show "fnmatch (CHR ''*'' # ps) (c # cs)"
    proof (cases x)
      case Nil
      with xt have "fnmatch ps (c # cs)" by simp
      then show ?thesis unfolding unfold by (rule disjI1)
    next
      case (Cons y ys)
      with xt have c: "c \<noteq> CHR ''/''" and cs: "cs = ys @ t \<and> CHR ''/'' \<notin> set ys" by auto
      from cs xt(3) have "fnmatch (CHR ''*'' # ps) cs" by (intro iffD2 [OF IH]) blast
      with c show ?thesis by (simp only: unfold simp_thms)
    qed
  qed
qed

lemma strrchr_Some_append: "c \<notin> set ys \<Longrightarrow> strrchr c (xs @ c # ys) = Some (c # ys)"
proof -
  assume "c \<notin> set ys"
  then have "strrchr c ys = None" by (induction ys) auto
  then show ?thesis by (induction xs) auto
qed

end
