(* ===== verification/World.thy ===== *)
theory World
  imports CString
begin

text \<open>
  The state of the library and its environment.  The WSL1 kernel is outside the
  sources: its state is the type variable \<open>'k\<close> and its entry points are the fields of the
  record \<open>'k kernel\<close>, an argument of every definition that makes a call; what a theorem
  relies on of them is one of its hypotheses.  \<open>'k world\<close> holds the kernel state, \<^verbatim>\<open>errno\<close>
  and the static variables of the C files.  A call that may fail returns
  \<open>None\<close> for -1, with \<^verbatim>\<open>errno\<close> set in the world.  Atomic variables are plain fields here;
  the interleaved behaviour of the reference counts is in the theory \<open>Refcount\<close>.
\<close>

section \<open>Constants of the Linux ABI\<close>

abbreviation (input) EPERM :: int where "EPERM \<equiv> 1"
abbreviation (input) ENOENT :: int where "ENOENT \<equiv> 2"
abbreviation (input) EINTR :: int where "EINTR \<equiv> 4"
abbreviation (input) E2BIG :: int where "E2BIG \<equiv> 7"
abbreviation (input) ENOEXEC :: int where "ENOEXEC \<equiv> 8"
abbreviation (input) EBADF :: int where "EBADF \<equiv> 9"
abbreviation (input) EWOULDBLOCK :: int where "EWOULDBLOCK \<equiv> 11"
abbreviation (input) ENOMEM :: int where "ENOMEM \<equiv> 12"
abbreviation (input) EFAULT :: int where "EFAULT \<equiv> 14"
abbreviation (input) EEXIST :: int where "EEXIST \<equiv> 17"
abbreviation (input) ENODEV :: int where "ENODEV \<equiv> 19"
abbreviation (input) EINVAL :: int where "EINVAL \<equiv> 22"
abbreviation (input) ENFILE :: int where "ENFILE \<equiv> 23"
abbreviation (input) ENAMETOOLONG :: int where "ENAMETOOLONG \<equiv> 36"
abbreviation (input) ENOSYS :: int where "ENOSYS \<equiv> 38"
abbreviation (input) ELOOP :: int where "ELOOP \<equiv> 40"
abbreviation (input) ENOPROTOOPT :: int where "ENOPROTOOPT \<equiv> 92"
abbreviation (input) EOPNOTSUPP :: int where "EOPNOTSUPP \<equiv> 95"

abbreviation (input) O_RDONLY :: int where "O_RDONLY \<equiv> 0"
abbreviation (input) O_WRONLY :: int where "O_WRONLY \<equiv> 1"
abbreviation (input) O_RDWR :: int where "O_RDWR \<equiv> 2"
abbreviation (input) O_CREAT :: int where "O_CREAT \<equiv> 64"
abbreviation (input) O_EXCL :: int where "O_EXCL \<equiv> 128"
abbreviation (input) O_TRUNC :: int where "O_TRUNC \<equiv> 512"
abbreviation (input) O_APPEND :: int where "O_APPEND \<equiv> 1024"
abbreviation (input) O_NONBLOCK :: int where "O_NONBLOCK \<equiv> 2048"
abbreviation (input) O_DIRECTORY :: int where "O_DIRECTORY \<equiv> 65536"
abbreviation (input) O_CLOEXEC :: int where "O_CLOEXEC \<equiv> 524288"
abbreviation (input) O_PATH :: int where "O_PATH \<equiv> 2097152"
abbreviation (input) O_TMPFILE :: int where "O_TMPFILE \<equiv> 4259840"

abbreviation (input) LOCK_SH :: int where "LOCK_SH \<equiv> 1"
abbreviation (input) LOCK_EX :: int where "LOCK_EX \<equiv> 2"
abbreviation (input) LOCK_NB :: int where "LOCK_NB \<equiv> 4"
abbreviation (input) LOCK_UN :: int where "LOCK_UN \<equiv> 8"

abbreviation (input) F_GETFD :: int where "F_GETFD \<equiv> 1"
abbreviation (input) F_SETFD :: int where "F_SETFD \<equiv> 2"
abbreviation (input) F_GETFL :: int where "F_GETFL \<equiv> 3"
abbreviation (input) F_SETFL :: int where "F_SETFL \<equiv> 4"
abbreviation (input) F_GETLK :: int where "F_GETLK \<equiv> 5"
abbreviation (input) F_SETLK :: int where "F_SETLK \<equiv> 6"
abbreviation (input) F_SETLKW :: int where "F_SETLKW \<equiv> 7"
abbreviation (input) F_OFD_GETLK :: int where "F_OFD_GETLK \<equiv> 36"
abbreviation (input) F_OFD_SETLK :: int where "F_OFD_SETLK \<equiv> 37"
abbreviation (input) F_OFD_SETLKW :: int where "F_OFD_SETLKW \<equiv> 38"
abbreviation (input) F_DUPFD_CLOEXEC :: int where "F_DUPFD_CLOEXEC \<equiv> 1030"
abbreviation (input) FD_CLOEXEC :: int where "FD_CLOEXEC \<equiv> 1"
abbreviation (input) AT_FDCWD :: int where "AT_FDCWD \<equiv> -100"
abbreviation (input) CLOCK_REALTIME :: int where "CLOCK_REALTIME \<equiv> 0"

section \<open>The kernel interface\<close>

text \<open>Seconds and nanoseconds.\<close>

type_synonym timespec = "int \<times> int"

record stat =
  st_dev :: nat
  st_ino :: nat
  st_mode :: int

text \<open>
  One field per system call made by the descriptor machinery; \<open>Inl e\<close> is failure with
  errno \<open>e\<close>.  \<open>k_getdents\<close> returns the names of one batch, empty at the end of the
  directory; \<open>k_dir_batches\<close> bounds the number of batches a directory stream yields.
\<close>

record 'k kernel =
  k_getpid :: "'k \<Rightarrow> int"
  k_open :: "cstring \<Rightarrow> int \<Rightarrow> 'k \<Rightarrow> (int + int) \<times> 'k"
  k_openat :: "int \<Rightarrow> cstring \<Rightarrow> int \<Rightarrow> int \<Rightarrow> 'k \<Rightarrow> (int + int) \<times> 'k"
  k_unlinkat :: "int \<Rightarrow> cstring \<Rightarrow> int \<Rightarrow> 'k \<Rightarrow> (int + int) \<times> 'k"
  k_getrandom :: "'k \<Rightarrow> (int + 64 word) \<times> 'k"
  k_clock_gettime :: "int \<Rightarrow> 'k \<Rightarrow> (int + int \<times> int) \<times> 'k"
  k_fsetxattr :: "int \<Rightarrow> cstring \<Rightarrow> bytes \<Rightarrow> int \<Rightarrow> 'k \<Rightarrow> (int + int) \<times> 'k"
  k_read :: "int \<Rightarrow> nat \<Rightarrow> 'k \<Rightarrow> (int + bytes) \<times> 'k"
  k_write :: "int \<Rightarrow> bytes \<Rightarrow> 'k \<Rightarrow> (int + int) \<times> 'k"
  k_close :: "int \<Rightarrow> 'k \<Rightarrow> (int + int) \<times> 'k"
  k_close_range :: "int \<Rightarrow> int \<Rightarrow> int \<Rightarrow> 'k \<Rightarrow> (int + int) \<times> 'k"
  k_dup2 :: "int \<Rightarrow> int \<Rightarrow> 'k \<Rightarrow> (int + int) \<times> 'k"
  k_dup3 :: "int \<Rightarrow> int \<Rightarrow> int \<Rightarrow> 'k \<Rightarrow> (int + int) \<times> 'k"
  k_fstat :: "int \<Rightarrow> 'k \<Rightarrow> (int + stat) \<times> 'k"
  k_flock :: "int \<Rightarrow> int \<Rightarrow> 'k \<Rightarrow> (int + int) \<times> 'k"
  k_fcntl :: "int \<Rightarrow> int \<Rightarrow> int \<Rightarrow> 'k \<Rightarrow> (int + int) \<times> 'k"
  k_getdents :: "int \<Rightarrow> 'k \<Rightarrow> (int + cstring list) \<times> 'k"
  k_dir_batches :: nat

text \<open>A kernel without any system call, the base of the concrete kernels of the examples.\<close>

definition null_kernel :: "'k kernel" where
  "null_kernel =
     \<lparr>k_getpid = (\<lambda>_. 1), k_open = (\<lambda>_ _ k. (Inl ENOSYS, k)), k_openat = (\<lambda>_ _ _ _ k. (Inl ENOSYS, k)),
      k_unlinkat = (\<lambda>_ _ _ k. (Inl ENOSYS, k)), k_getrandom = (\<lambda>k. (Inl ENOSYS, k)),
      k_clock_gettime = (\<lambda>_ k. (Inl ENOSYS, k)), k_fsetxattr = (\<lambda>_ _ _ _ k. (Inl ENOSYS, k)),
      k_read = (\<lambda>_ _ k. (Inl ENOSYS, k)), k_write = (\<lambda>_ _ k. (Inl ENOSYS, k)),
      k_close = (\<lambda>_ k. (Inl ENOSYS, k)), k_close_range = (\<lambda>_ _ _ k. (Inl ENOSYS, k)),
      k_dup2 = (\<lambda>_ _ k. (Inl ENOSYS, k)),
      k_dup3 = (\<lambda>_ _ _ k. (Inl ENOSYS, k)), k_fstat = (\<lambda>_ k. (Inl ENOSYS, k)),
      k_flock = (\<lambda>_ _ k. (Inl ENOSYS, k)), k_fcntl = (\<lambda>_ _ _ k. (Inl ENOSYS, k)),
      k_getdents = (\<lambda>_ k. (Inl ENOSYS, k)), k_dir_batches = 0\<rparr>"

section \<open>The library's static variables\<close>

text \<open>\<^verbatim>\<open>struct opt\<close> of tunables.c: the key and the value as C strings.\<close>

record opt =
  opt_key :: cstring
  opt_val :: cstring

text \<open>\<^verbatim>\<open>struct synth_override\<close> of synth.h; \<open>ov_pid\<close> is 0 when free, -1 while reserved.\<close>

record synth_override =
  ov_pid :: int
  ov_starttime :: "64 word"
  ov_fd :: int

text \<open>The three \<^verbatim>\<open>static const struct synth_ops\<close> tables a \<^verbatim>\<open>synth_entry\<close> can point to.\<close>

datatype ops_id = Mmap_min_addr_ops | Proc_pid_mem_ops | Tty_ops

text \<open>What the handlers store in \<^verbatim>\<open>userptr\<close>: nothing, a pid, an element of the tty table.\<close>

datatype userptr = Null_ptr | Pid_ptr int | Tty_ptr nat

record synth_entry =
  refcount :: int
  probe_fd :: int
  se_stat :: stat
  se_ops :: ops_id
  se_pos :: int
  se_userptr :: userptr
  se_flags :: int
  install_pid :: int
  install_starttime :: "64 word"
  probe_overrides :: "synth_override list"

text \<open>\<^verbatim>\<open>struct tty_state\<close> of tty.c; \<open>tt_vmin\<close> and \<open>tt_vtime\<close> are bytes (\<^verbatim>\<open>cc_t\<close>).\<close>

record tty_state =
  tt_claimed :: int
  tt_canon :: bool
  tt_nonblock :: bool
  tt_real_fd :: int
  tt_overrides :: "synth_override list"
  tt_vmin :: "8 word"
  tt_vtime :: "8 word"

text \<open>The variables the internal descriptor registry points to.\<close>

datatype int_slot = Debugfd | Mount_fd

record 'k world =
  kst :: 'k
  errno :: int
  env_disable :: bool
  options :: "opt list"
  self_cache :: "32 word \<times> 32 word"
  synth_table :: "synth_entry list"
  synth_live_entries :: "32 word"
  tty_table :: "tty_state list"
  registry :: "int_slot option list"
  registry_count :: nat
  islot :: "int_slot \<Rightarrow> int"
  loglevel :: int

text \<open>
  The static storage as the program starts: zeroed tables of 64 slots, and the initialisers
  of \<^verbatim>\<open>debugfd\<close>, \<^verbatim>\<open>mount_fd\<close> and \<^verbatim>\<open>loglevel\<close>, before any constructor has run.
\<close>

definition zero_override :: synth_override where
  "zero_override = \<lparr>ov_pid = 0, ov_starttime = 0, ov_fd = 0\<rparr>"

definition zero_entry :: synth_entry where
  "zero_entry = \<lparr>refcount = 0, probe_fd = 0, se_stat = \<lparr>st_dev = 0, st_ino = 0, st_mode = 0\<rparr>,
     se_ops = Mmap_min_addr_ops, se_pos = 0, se_userptr = Null_ptr, se_flags = 0, install_pid = 0,
     install_starttime = 0, probe_overrides = replicate 4 zero_override\<rparr>"

definition zero_tty :: tty_state where
  "zero_tty = \<lparr>tt_claimed = 0, tt_canon = False, tt_nonblock = False, tt_real_fd = 0,
     tt_overrides = replicate 4 zero_override, tt_vmin = 0, tt_vtime = 0\<rparr>"

definition static_world :: "'k \<Rightarrow> 'k world" where
  "static_world k = \<lparr>kst = k, errno = 0, env_disable = False, options = [], self_cache = (0, 0),
     synth_table = replicate 64 zero_entry, synth_live_entries = 0,
     tty_table = replicate 64 zero_tty, registry = replicate 16 None, registry_count = 0,
     islot = (\<lambda>_. -2), loglevel = -1\<rparr>"

type_synonym ('k, 'a) call = "'k world \<Rightarrow> 'a option \<times> 'k world"

section \<open>Making a call\<close>

text \<open>
  A call into the kernel through \<^verbatim>\<open>syscall(SYS_x, ...)\<close> or \<^verbatim>\<open>sym_next(x, ...)\<close>: -1 and errno
  on failure, errno untouched on success.
\<close>

definition sys :: "('k \<Rightarrow> (int + 'a) \<times> 'k) \<Rightarrow> ('k, 'a) call" where
  "sys f w =
     (case f (kst w) of
        (Inr v, k) \<Rightarrow> (Some v, w\<lparr>kst := k\<rparr>)
      | (Inl e, k) \<Rightarrow> (None, w\<lparr>kst := k, errno := e\<rparr>))"

text \<open>\<^verbatim>\<open>return errno = e, -1\<close>.\<close>

definition fail_with :: "int \<Rightarrow> ('k, 'a) call" where
  "fail_with e w = (None, w\<lparr>errno := e\<rparr>)"

text \<open>\<^verbatim>\<open>preserve_errno()\<close>: the errno of \<open>w0\<close> is put back when the scope ends in \<open>w\<close>.\<close>

definition restore_errno :: "'k world \<Rightarrow> 'k world \<Rightarrow> 'k world" where
  "restore_errno w0 w = w\<lparr>errno := errno w0\<rparr>"

text \<open>The C value of a call that returns a descriptor.\<close>

definition fd_or_minus1 :: "int option \<Rightarrow> int" where
  "fd_or_minus1 r = (case r of None \<Rightarrow> -1 | Some fd \<Rightarrow> fd)"

definition upd_entry :: "nat \<Rightarrow> (synth_entry \<Rightarrow> synth_entry) \<Rightarrow> 'k world \<Rightarrow> 'k world" where
  "upd_entry i f w = w\<lparr>synth_table := (synth_table w)[i := f (synth_table w ! i)]\<rparr>"

definition upd_tty :: "nat \<Rightarrow> (tty_state \<Rightarrow> tty_state) \<Rightarrow> 'k world \<Rightarrow> 'k world" where
  "upd_tty i f w = w\<lparr>tty_table := (tty_table w)[i := f (tty_table w ! i)]\<rparr>"

section \<open>What a call leaves alone\<close>

text \<open>The library's own variables, everything but the kernel and errno.\<close>

definition same_lib :: "'k world \<Rightarrow> 'k world \<Rightarrow> bool" where
  "same_lib w w' \<longleftrightarrow> w' = w\<lparr>kst := kst w', errno := errno w'\<rparr>"

lemma same_lib_refl [simp]: "same_lib w w"
  by (simp add: same_lib_def)

lemma same_lib_trans [trans]:
  assumes "same_lib u v" and "same_lib v w"
  shows "same_lib u w"
proof -
  from assms(1) obtain k e where v: "v = u\<lparr>kst := k, errno := e\<rparr>" by (auto simp: same_lib_def)
  from assms(2) obtain k' e' where "w = v\<lparr>kst := k', errno := e'\<rparr>" by (auto simp: same_lib_def)
  with v show ?thesis by (simp add: same_lib_def)
qed

lemma same_libD:
  assumes "same_lib w w'"
  shows "synth_table w' = synth_table w" "synth_live_entries w' = synth_live_entries w"
    "tty_table w' = tty_table w" "options w' = options w" "self_cache w' = self_cache w"
    "registry w' = registry w" "registry_count w' = registry_count w" "islot w' = islot w"
    "env_disable w' = env_disable w" "loglevel w' = loglevel w"
proof -
  from assms obtain k e where "w' = w\<lparr>kst := k, errno := e\<rparr>" by (auto simp: same_lib_def)
  then show "synth_table w' = synth_table w" "synth_live_entries w' = synth_live_entries w"
    "tty_table w' = tty_table w" "options w' = options w" "self_cache w' = self_cache w"
    "registry w' = registry w" "registry_count w' = registry_count w" "islot w' = islot w"
    "env_disable w' = env_disable w" "loglevel w' = loglevel w" by simp_all
qed

lemma sys_same_lib: "same_lib w (snd (sys f w))"
  by (auto simp: sys_def same_lib_def split: prod.split sum.split)

lemma same_lib_sym: "same_lib w w' \<Longrightarrow> same_lib w' w"
proof -
  assume "same_lib w w'"
  then have "w' = w\<lparr>kst := kst w', errno := errno w'\<rparr>" by (simp add: same_lib_def)
  then have "w'\<lparr>kst := kst w, errno := errno w\<rparr> = w\<lparr>kst := kst w', errno := errno w'\<rparr>\<lparr>kst := kst w, errno := errno w\<rparr>"
    by (rule arg_cong)
  then show ?thesis by (simp add: same_lib_def)
qed

lemma same_lib_step: "same_lib v v' \<Longrightarrow> same_lib w v' = same_lib w v"
  using same_lib_sym same_lib_trans by blast

lemma same_lib_sys [simp]: "same_lib w (snd (sys f v)) = same_lib w v"
  by (rule same_lib_step [OF sys_same_lib])

lemma same_lib_errno [simp]: "same_lib w (w\<lparr>errno := e\<rparr>)"
  by (simp add: same_lib_def)

lemma same_lib_errno_upd [simp]: "same_lib w (v\<lparr>errno := e\<rparr>) = same_lib w v"
  by (rule same_lib_step [OF same_lib_errno])

lemma same_lib_fail_with [simp]: "same_lib w (snd (fail_with e v)) = same_lib w v"
  by (simp add: fail_with_def)

lemma same_lib_restore_errno [simp]: "same_lib w (restore_errno w0 v) = same_lib w v"
  by (simp add: restore_errno_def)

lemmas lib_fields_sys [simp] = same_libD [OF sys_same_lib]

lemma lib_fields_restore_errno [simp]:
  "synth_table (restore_errno w0 w) = synth_table w" "tty_table (restore_errno w0 w) = tty_table w"
  "synth_live_entries (restore_errno w0 w) = synth_live_entries w" "options (restore_errno w0 w) = options w"
  "self_cache (restore_errno w0 w) = self_cache w" "registry (restore_errno w0 w) = registry w"
  "registry_count (restore_errno w0 w) = registry_count w" "islot (restore_errno w0 w) = islot w"
  "env_disable (restore_errno w0 w) = env_disable w" "loglevel (restore_errno w0 w) = loglevel w"
  "kst (restore_errno w0 w) = kst w" "errno (restore_errno w0 w) = errno w0"
  by (simp_all add: restore_errno_def)

lemma upd_entry_simps [world_simps, simp]:
  "kst (upd_entry i f w) = kst w" "errno (upd_entry i f w) = errno w"
  "options (upd_entry i f w) = options w" "env_disable (upd_entry i f w) = env_disable w"
  "self_cache (upd_entry i f w) = self_cache w" "tty_table (upd_entry i f w) = tty_table w"
  "synth_live_entries (upd_entry i f w) = synth_live_entries w"
  "registry (upd_entry i f w) = registry w" "registry_count (upd_entry i f w) = registry_count w"
  "islot (upd_entry i f w) = islot w" "loglevel (upd_entry i f w) = loglevel w"
  "length (synth_table (upd_entry i f w)) = length (synth_table w)"
  by (simp_all add: upd_entry_def)

lemma synth_table_upd_entry [world_simps]:
  "synth_table (upd_entry i f w) = (synth_table w)[i := f (synth_table w ! i)]"
  by (simp add: upd_entry_def)

lemma upd_tty_simps [world_simps, simp]:
  "kst (upd_tty i g w) = kst w" "errno (upd_tty i g w) = errno w"
  "options (upd_tty i g w) = options w" "env_disable (upd_tty i g w) = env_disable w"
  "self_cache (upd_tty i g w) = self_cache w" "synth_table (upd_tty i g w) = synth_table w"
  "synth_live_entries (upd_tty i g w) = synth_live_entries w"
  "registry (upd_tty i g w) = registry w" "registry_count (upd_tty i g w) = registry_count w"
  "islot (upd_tty i g w) = islot w" "loglevel (upd_tty i g w) = loglevel w"
  "length (tty_table (upd_tty i g w)) = length (tty_table w)"
  by (simp_all add: upd_tty_def)

lemma tty_table_upd_tty [world_simps]:
  "tty_table (upd_tty i g w) = (tty_table w)[i := g (tty_table w ! i)]"
  by (simp add: upd_tty_def)

lemma sys_ok: "f (kst w) = (Inr v, k) \<Longrightarrow> sys f w = (Some v, w\<lparr>kst := k\<rparr>)"
  by (simp add: sys_def)

lemma sys_err: "f (kst w) = (Inl e, k) \<Longrightarrow> sys f w = (None, w\<lparr>kst := k, errno := e\<rparr>)"
  by (simp add: sys_def)

lemma sys_cases:
  obtains (ok) v k where "f (kst w) = (Inr v, k)" "sys f w = (Some v, w\<lparr>kst := k\<rparr>)"
    | (err) e k where "f (kst w) = (Inl e, k)" "sys f w = (None, w\<lparr>kst := k, errno := e\<rparr>)"
  by (cases "f (kst w)"; cases "fst (f (kst w))") (auto simp: sys_def)

end
