(* ===== verification/Override.thy ===== *)
theory Override
  imports World
begin

text \<open>
  The copy-on-write descriptor views of synth.c (lines 26 to 310).  After \<^verbatim>\<open>vfork\<close> a child
  shares the library's memory but not the parent's descriptor table, so every internal
  descriptor has a base value, owned by the process that installed it, and a few
  override slots, each owned by one other process identified by pid and start time.  A
  process is an instance \<open>K\<close> of the kernel interface: two processes that share memory
  are two instances applied to the same library state.
\<close>

section \<open>Process identity\<close>

text \<open>Field 22 of a \<^verbatim>\<open>/proc/pid/stat\<close> line, as the C code walks to it.\<close>

definition parse_starttime :: "cstring \<Rightarrow> 64 word" where
  "parse_starttime s =
     (case strrchr (CHR '')'') s of
        None \<Rightarrow> 0
      | Some p \<Rightarrow>
          (let p1 = tl p;
               p2 = dropWhile (\<lambda>c. c = CHR '' '') p1;
               p3 = dropWhile (\<lambda>c. c \<noteq> CHR '' '') p2
           in fst (strtoull (((\<lambda>q. snd (strtoull q)) ^^ 18) p3))))"

definition read_proc_starttime :: "'k kernel \<Rightarrow> cstring \<Rightarrow> 'k world \<Rightarrow> 64 word \<times> 'k world" where
  "read_proc_starttime K path w =
     (let (r, w1) = sys (k_open K path (O_RDONLY OR O_CLOEXEC OR O_NONBLOCK)) w
      in case r of
           None \<Rightarrow> (0, w1)
         | Some fd \<Rightarrow>
             (let (n, w2) = sys (k_read K fd 511) w1;
                  (c, w3) = sys (k_close K fd) w2
              in case n of
                   None \<Rightarrow> (0, w3)
                 | Some buf \<Rightarrow>
                     (if buf = [] then (0, w3) else (parse_starttime (cstr buf), w3))))"

text \<open>
  The cache holds a pid and the low 32 bits of its start time; a stored start time is
  therefore always below \<open>2 ^ 32\<close>.
\<close>

definition wslcompat_self_starttime_pid :: "'k kernel \<Rightarrow> int \<Rightarrow> 'k world \<Rightarrow> 64 word \<times> 'k world" where
  "wslcompat_self_starttime_pid K pid w =
     (if fst (self_cache w) = word_of_int pid then (ucast (snd (self_cache w)), w)
      else
        (let (st, w1) = read_proc_starttime K ''/proc/self/stat'' w;
             n = (ucast st :: 32 word)
         in (ucast n, w1\<lparr>self_cache := (word_of_int pid, n)\<rparr>)))"

definition wslcompat_self_starttime :: "'k kernel \<Rightarrow> 'k world \<Rightarrow> 64 word \<times> 'k world" where
  "wslcompat_self_starttime K w = wslcompat_self_starttime_pid K (k_getpid K (kst w)) w"

definition pid_starttime :: "'k kernel \<Rightarrow> int \<Rightarrow> 'k world \<Rightarrow> 32 word \<times> 'k world" where
  "pid_starttime K pid w =
     (let (st, w1) = read_proc_starttime K (''/proc/'' @ show_int pid @ ''/stat'') w
      in (ucast st, w1))"

section \<open>Override slots\<close>

abbreviation (input) SYNTH_OVERRIDE_SLOTS :: nat where "SYNTH_OVERRIDE_SLOTS \<equiv> 4"

definition wslcompat_override_init :: "synth_override list \<Rightarrow> synth_override list" where
  "wslcompat_override_init slots = map (\<lambda>s. s\<lparr>ov_pid := 0\<rparr>) slots"

text \<open>One iteration of the collector: whether the slot survives.\<close>

definition override_keep :: "'k kernel \<Rightarrow> int \<Rightarrow> synth_override \<Rightarrow> 'k world \<Rightarrow> bool \<times> 'k world" where
  "override_keep K self s w =
     (if ov_pid s = 0 \<or> ov_pid s = -1 then (True, w)
      else if ov_pid s = self then
        (let (st, w1) = wslcompat_self_starttime K w in (ov_starttime s = st, w1))
      else
        (let (st, w1) = pid_starttime K (ov_pid s) w in (ucast st = ov_starttime s, w1)))"

fun override_gc_loop ::
  "'k kernel \<Rightarrow> int \<Rightarrow> synth_override list \<Rightarrow> 'k world \<Rightarrow> synth_override list \<times> 'k world" where
  "override_gc_loop K self [] w = ([], w)"
| "override_gc_loop K self (s # ss) w =
     (let (keep, w1) = override_keep K self s w;
          (ss', w2) = override_gc_loop K self ss w1
      in ((if keep then s else s\<lparr>ov_pid := 0\<rparr>) # ss', w2))"

definition wslcompat_override_gc ::
  "'k kernel \<Rightarrow> synth_override list \<Rightarrow> 'k world \<Rightarrow> synth_override list \<times> 'k world" where
  "wslcompat_override_gc K slots w = override_gc_loop K (k_getpid K (kst w)) slots w"

definition wslcompat_override_get_pid ::
  "synth_override list \<Rightarrow> int \<Rightarrow> 64 word \<Rightarrow> nat option" where
  "wslcompat_override_get_pid slots pid st =
     find_index (\<lambda>s. ov_pid s = pid \<and> ov_starttime s = st) slots"

text \<open>
  Find our slot or claim a free one (the compare-and-swap 0 to -1, then the published
  pid).  The spin lock around both passes makes them one step.
\<close>

definition wslcompat_override_acquire_pid ::
  "'k kernel \<Rightarrow> synth_override list \<Rightarrow> int \<Rightarrow> 64 word \<Rightarrow> int \<Rightarrow> 'k world \<Rightarrow>
     nat option \<times> synth_override list \<times> 'k world" where
  "wslcompat_override_acquire_pid K slots pid st initial_fd w =
     (let (slots1, w1) = wslcompat_override_gc K slots w
      in case wslcompat_override_get_pid slots1 pid st of
           Some i \<Rightarrow> (Some i, slots1, w1)
         | None \<Rightarrow>
             (case find_index (\<lambda>s. ov_pid s = 0) slots1 of
                Some i \<Rightarrow>
                  (Some i, slots1[i := \<lparr>ov_pid = pid, ov_starttime = st, ov_fd = initial_fd\<rparr>], w1)
              | None \<Rightarrow> (None, slots1, w1)))"

section \<open>Views\<close>

text \<open>
  The arguments \<^verbatim>\<open>slots\<close> and \<^verbatim>\<open>base\<close> of the generic accessors are addresses: a view reads
  and writes the slot array and the base value they point to.
\<close>

record 'k fdview =
  v_slots :: "'k world \<Rightarrow> synth_override list"
  v_put_slots :: "synth_override list \<Rightarrow> 'k world \<Rightarrow> 'k world"
  v_base :: "'k world \<Rightarrow> int"
  v_put_base :: "int \<Rightarrow> 'k world \<Rightarrow> 'k world"

definition synth_is_installer :: "synth_entry \<Rightarrow> int \<Rightarrow> 64 word \<Rightarrow> bool" where
  "synth_is_installer e pid st \<longleftrightarrow> pid = install_pid e \<and> st = install_starttime e"

definition wslcompat_view_fd_load :: "'k kernel \<Rightarrow> nat \<Rightarrow> 'k fdview \<Rightarrow> 'k world \<Rightarrow> int \<times> 'k world" where
  "wslcompat_view_fd_load K e V w =
     (let pid = k_getpid K (kst w);
          (st, w1) = wslcompat_self_starttime_pid K pid w
      in if synth_is_installer (synth_table w1 ! e) pid st then (v_base V w1, w1)
         else (case wslcompat_override_get_pid (v_slots V w1) pid st of
                 Some i \<Rightarrow> (ov_fd (v_slots V w1 ! i), w1)
               | None \<Rightarrow> (v_base V w1, w1)))"

definition wslcompat_view_fd_store ::
  "'k kernel \<Rightarrow> nat \<Rightarrow> 'k fdview \<Rightarrow> int \<Rightarrow> 'k world \<Rightarrow> 'k world" where
  "wslcompat_view_fd_store K e V new_fd w =
     (let pid = k_getpid K (kst w);
          (st, w1) = wslcompat_self_starttime_pid K pid w
      in if synth_is_installer (synth_table w1 ! e) pid st then v_put_base V new_fd w1
         else
           (let (s, slots, w2) = wslcompat_override_acquire_pid K (v_slots V w1) pid st new_fd w1
            in case s of
                 None \<Rightarrow> v_put_slots V slots w2
               | Some i \<Rightarrow> v_put_slots V (slots[i := (slots ! i)\<lparr>ov_fd := new_fd\<rparr>]) w2))"

text \<open>Whether this caller performed the transition.\<close>

definition wslcompat_view_fd_cas ::
  "'k kernel \<Rightarrow> nat \<Rightarrow> 'k fdview \<Rightarrow> int \<Rightarrow> int \<Rightarrow> 'k world \<Rightarrow> bool \<times> 'k world" where
  "wslcompat_view_fd_cas K e V expected desired w =
     (let pid = k_getpid K (kst w);
          (st, w1) = wslcompat_self_starttime_pid K pid w
      in if synth_is_installer (synth_table w1 ! e) pid st then
           (if v_base V w1 = expected then (True, v_put_base V desired w1) else (False, w1))
         else
           (let (s, slots, w2) = wslcompat_override_acquire_pid K (v_slots V w1) pid st expected w1
            in case s of
                 None \<Rightarrow> (False, v_put_slots V slots w2)
               | Some i \<Rightarrow>
                   (if ov_fd (slots ! i) = expected
                    then (True, v_put_slots V (slots[i := (slots ! i)\<lparr>ov_fd := desired\<rparr>]) w2)
                    else (False, v_put_slots V slots w2))))"

text \<open>The new descriptor, 0 when nothing was relocated, -1 when the dup failed.\<close>

definition wslcompat_view_fd_relocate ::
  "'k kernel \<Rightarrow> nat \<Rightarrow> 'k fdview \<Rightarrow> int \<Rightarrow> 'k world \<Rightarrow> int \<times> 'k world" where
  "wslcompat_view_fd_relocate K e V targetfd w =
     (let (cur, w1) = wslcompat_view_fd_load K e V w
      in if cur \<noteq> targetfd then (0, w1)
         else
           (let (r, w2) = sys (k_fcntl K targetfd F_DUPFD_CLOEXEC 3) w1
            in case r of
                 None \<Rightarrow> (let (b, w3) = wslcompat_view_fd_cas K e V targetfd (-1) w2 in (-1, w3))
               | Some new_fd \<Rightarrow>
                   (let (won, w3) = wslcompat_view_fd_cas K e V targetfd new_fd w2
                    in if won then (new_fd, w3)
                       else (let (c, w4) = sys (k_close K new_fd) w3 in (0, w4)))))"

text \<open>The two views of the program: an entry's \<^verbatim>\<open>probe_fd\<close> and a tty state's \<^verbatim>\<open>real_fd\<close>.\<close>

definition probe_view :: "nat \<Rightarrow> 'k fdview" where
  "probe_view i =
     \<lparr>v_slots = (\<lambda>w. probe_overrides (synth_table w ! i)),
      v_put_slots = (\<lambda>ss. upd_entry i (\<lambda>e. e\<lparr>probe_overrides := ss\<rparr>)),
      v_base = (\<lambda>w. probe_fd (synth_table w ! i)),
      v_put_base = (\<lambda>fd. upd_entry i (\<lambda>e. e\<lparr>probe_fd := fd\<rparr>))\<rparr>"

definition real_view :: "nat \<Rightarrow> 'k fdview" where
  "real_view j =
     \<lparr>v_slots = (\<lambda>w. tt_overrides (tty_table w ! j)),
      v_put_slots = (\<lambda>ss. upd_tty j (\<lambda>s. s\<lparr>tt_overrides := ss\<rparr>)),
      v_base = (\<lambda>w. tt_real_fd (tty_table w ! j)),
      v_put_base = (\<lambda>fd. upd_tty j (\<lambda>s. s\<lparr>tt_real_fd := fd\<rparr>))\<rparr>"

definition synth_probe_fd_load :: "'k kernel \<Rightarrow> nat \<Rightarrow> 'k world \<Rightarrow> int \<times> 'k world" where
  "synth_probe_fd_load K i = wslcompat_view_fd_load K i (probe_view i)"

definition synth_probe_fd_store :: "'k kernel \<Rightarrow> nat \<Rightarrow> int \<Rightarrow> 'k world \<Rightarrow> 'k world" where
  "synth_probe_fd_store K i new_fd = wslcompat_view_fd_store K i (probe_view i) new_fd"

section \<open>What the identity lookups leave alone\<close>

text \<open>Everything but the kernel, errno and the start-time cache.\<close>

definition quiet :: "'k world \<Rightarrow> 'k world \<Rightarrow> bool" where
  "quiet w w' \<longleftrightarrow> w' = w\<lparr>kst := kst w', errno := errno w', self_cache := self_cache w'\<rparr>"

lemma quietE:
  assumes "quiet w w'"
  obtains k e c where "w' = w\<lparr>kst := k, errno := e, self_cache := c\<rparr>"
  using assms by (auto simp: quiet_def)

lemma quiet_refl [simp]: "quiet w w"
  by (simp add: quiet_def)

lemma quiet_trans [trans]:
  assumes "quiet u v" and "quiet v w"
  shows "quiet u w"
proof -
  from assms(1) obtain k e c where v: "v = u\<lparr>kst := k, errno := e, self_cache := c\<rparr>" by (rule quietE)
  from assms(2) obtain k' e' c' where "w = v\<lparr>kst := k', errno := e', self_cache := c'\<rparr>" by (rule quietE)
  with v show ?thesis by (simp add: quiet_def)
qed

lemma same_lib_quiet: "same_lib w w' \<Longrightarrow> quiet w w'"
  by (auto simp: same_lib_def quiet_def)

lemma quiet_sym: "quiet w w' \<Longrightarrow> quiet w' w"
  by (erule quietE) (simp add: quiet_def)

lemma quiet_step: "quiet v v' \<Longrightarrow> quiet w v' = quiet w v"
  using quiet_sym quiet_trans by blast

lemma quiet_sys [simp]: "quiet w (snd (sys f v)) = quiet w v"
  by (rule quiet_step [OF same_lib_quiet [OF sys_same_lib]])

lemma quiet_restore_errno [simp]: "quiet w (restore_errno w0 v) = quiet w v"
  by (rule quiet_step) (simp add: quiet_def restore_errno_def)

lemma quiet_fields [world_simps]:
  assumes "quiet w w'"
  shows "synth_table w' = synth_table w" "synth_live_entries w' = synth_live_entries w"
    "tty_table w' = tty_table w" "options w' = options w" "env_disable w' = env_disable w"
    "registry w' = registry w" "registry_count w' = registry_count w" "islot w' = islot w"
    "loglevel w' = loglevel w"
  using assms by (auto elim!: quietE)

lemma read_proc_starttime_same_lib: "same_lib w (snd (read_proc_starttime K path w))"
  by (simp add: read_proc_starttime_def Let_def case_prod_beta split: option.split)

lemma self_starttime_pid_quiet: "quiet w (snd (wslcompat_self_starttime_pid K pid w))"
proof -
  define w1 where "w1 = snd (read_proc_starttime K ''/proc/self/stat'' w)"
  have "quiet w w1" unfolding w1_def by (rule same_lib_quiet [OF read_proc_starttime_same_lib])
  also have "quiet w1 (w1\<lparr>self_cache := c\<rparr>)" for c by (simp add: quiet_def)
  finally have "quiet w (w1\<lparr>self_cache := c\<rparr>)" for c .
  then show ?thesis
    by (simp add: wslcompat_self_starttime_pid_def w1_def Let_def case_prod_beta)
qed

lemma self_starttime_quiet: "quiet w (snd (wslcompat_self_starttime K w))"
  unfolding wslcompat_self_starttime_def by (rule self_starttime_pid_quiet)

lemma pid_starttime_quiet: "quiet w (snd (pid_starttime K p w))"
  by (simp add: pid_starttime_def case_prod_beta same_lib_quiet [OF read_proc_starttime_same_lib])

lemma override_keep_quiet: "quiet w (snd (override_keep K self s w))"
  by (simp add: override_keep_def case_prod_beta self_starttime_quiet pid_starttime_quiet)

lemma override_gc_loop_quiet: "quiet w (snd (override_gc_loop K self ss w))"
proof (induction ss arbitrary: w)
  case Nil
  then show ?case by simp
next
  case (Cons s ss)
  have "quiet w (snd (override_keep K self s w))" by (rule override_keep_quiet)
  also have "quiet \<dots> (snd (override_gc_loop K self ss (snd (override_keep K self s w))))" by (rule Cons.IH)
  finally show ?case by (simp add: case_prod_beta Let_def)
qed

lemma override_gc_quiet: "quiet w (snd (wslcompat_override_gc K slots w))"
  unfolding wslcompat_override_gc_def by (rule override_gc_loop_quiet)

lemma override_acquire_quiet:
  "quiet w (snd (snd (wslcompat_override_acquire_pid K slots pid st fd w)))"
  using override_gc_quiet [of w K slots]
  by (simp add: wslcompat_override_acquire_pid_def case_prod_beta Let_def split: option.split)

section \<open>Identity of a process\<close>

text \<open>
  \<open>K\<close> is the process \<open>pid\<close> with start time \<open>st\<close>, whatever the kernel state; \<open>cache_for\<close> says
  that the shared cache, if it is about this pid, has its start time.
\<close>

definition ident :: "'k kernel \<Rightarrow> int \<Rightarrow> 64 word \<Rightarrow> bool" where
  "ident K pid st \<longleftrightarrow> 0 < pid \<and> (\<forall>k. k_getpid K k = pid)
     \<and> (\<forall>w. ucast (ucast (fst (read_proc_starttime K ''/proc/self/stat'' w)) :: 32 word) = st)"

definition cache_for :: "int \<Rightarrow> 64 word \<Rightarrow> 'k world \<Rightarrow> bool" where
  "cache_for pid st w \<longleftrightarrow> (fst (self_cache w) = word_of_int pid \<longrightarrow> ucast (snd (self_cache w)) = st)"

text \<open>The process \<open>p\<close> with start time \<open>st\<close> is alive: its stat file keeps saying so.\<close>

definition alive :: "'k kernel \<Rightarrow> int \<Rightarrow> 64 word \<Rightarrow> bool" where
  "alive K p st \<longleftrightarrow> (\<forall>w. ucast (fst (pid_starttime K p w)) = st)"

lemma ident_getpid: "ident K pid st \<Longrightarrow> k_getpid K k = pid"
  by (simp add: ident_def)

lemma self_starttime_ident:
  assumes "ident K pid st" and "cache_for pid st w"
  shows "fst (wslcompat_self_starttime_pid K pid w) = st"
    and "cache_for pid st (snd (wslcompat_self_starttime_pid K pid w))"
proof -
  have "ucast (ucast (fst (read_proc_starttime K ''/proc/self/stat'' w)) :: 32 word) = st"
    using assms(1) by (simp add: ident_def)
  with assms(2) show "fst (wslcompat_self_starttime_pid K pid w) = st"
    and "cache_for pid st (snd (wslcompat_self_starttime_pid K pid w))"
    by (auto simp: wslcompat_self_starttime_pid_def cache_for_def Let_def case_prod_beta)
qed

lemma self_starttimeE:
  assumes "ident K pid st" and "cache_for pid st w"
  obtains w1 where "wslcompat_self_starttime_pid K pid w = (st, w1)" and "quiet w w1"
    and "cache_for pid st w1"
  using self_starttime_ident [OF assms] self_starttime_pid_quiet [of w K pid]
  by (metis prod.collapse)

section \<open>Collecting and claiming slots\<close>

definition slot_lookup :: "synth_override list \<Rightarrow> int \<Rightarrow> 64 word \<Rightarrow> int option" where
  "slot_lookup slots q t = map_option (\<lambda>i. ov_fd (slots ! i)) (wslcompat_override_get_pid slots q t)"

lemma length_override_gc [simp]: "length (fst (override_gc_loop K self ss w)) = length ss"
  by (induction ss arbitrary: w) (simp_all add: case_prod_beta Let_def)

lemma override_gc_nth:
  "i < length ss \<Longrightarrow>
     fst (override_gc_loop K self ss w) ! i = ss ! i
     \<or> fst (override_gc_loop K self ss w) ! i = (ss ! i)\<lparr>ov_pid := 0\<rparr>"
proof (induction ss arbitrary: w i)
  case Nil
  then show ?case by simp
next
  case (Cons s ss)
  then show ?case by (cases i) (simp_all add: case_prod_beta Let_def)
qed

lemma pid_starttime_cache: "self_cache (snd (pid_starttime K p w)) = self_cache w"
proof -
  have "same_lib w (snd (pid_starttime K p w))"
    by (simp add: pid_starttime_def case_prod_beta read_proc_starttime_same_lib)
  then show ?thesis by (rule same_libD)
qed

lemma override_keep_cache:
  assumes "ident K pid st" and "cache_for pid st w"
  shows "cache_for pid st (snd (override_keep K pid s w))"
  using self_starttime_ident(2) [OF assms] assms
  by (auto simp: override_keep_def case_prod_beta wslcompat_self_starttime_def ident_getpid
      cache_for_def pid_starttime_cache)

lemma override_gc_cache:
  assumes "ident K pid st" and "cache_for pid st w"
  shows "cache_for pid st (snd (override_gc_loop K pid ss w))"
  using assms(2)
proof (induction ss arbitrary: w)
  case Nil
  then show ?case by simp
next
  case (Cons s ss)
  from Cons.IH [OF override_keep_cache [OF assms(1) Cons.prems]] show ?case
    by (simp add: case_prod_beta Let_def)
qed

lemma override_acquire_cache:
  assumes "ident K pid st" and "cache_for pid st w"
  shows "cache_for pid st (snd (snd (wslcompat_override_acquire_pid K slots pid st fd w)))"
  using override_gc_cache [OF assms, of slots] ident_getpid [OF assms(1)]
  by (simp add: wslcompat_override_acquire_pid_def wslcompat_override_gc_def case_prod_beta Let_def
      split: option.split)

text \<open>A live slot: ours, or another live process's.\<close>

definition live_as :: "'k kernel \<Rightarrow> int \<Rightarrow> 64 word \<Rightarrow> int \<Rightarrow> 64 word \<Rightarrow> bool" where
  "live_as K pid st q t \<longleftrightarrow> (q = pid \<and> t = st) \<or> (q \<noteq> pid \<and> alive K q t)"

lemma override_keep_live:
  assumes "ident K pid st" and "cache_for pid st w" and "live_as K pid st (ov_pid s) (ov_starttime s)"
  shows "fst (override_keep K pid s w)"
  using self_starttime_ident(1) [OF assms(1,2)] assms
  by (auto simp: override_keep_def case_prod_beta wslcompat_self_starttime_def ident_getpid
      live_as_def alive_def)

lemma override_gc_keeps_live:
  assumes "ident K pid st" and "cache_for pid st w" and "i < length ss"
    and "live_as K pid st (ov_pid (ss ! i)) (ov_starttime (ss ! i))"
  shows "fst (override_gc_loop K pid ss w) ! i = ss ! i"
  using assms(2-)
proof (induction ss arbitrary: w i)
  case Nil
  then show ?case by simp
next
  case (Cons s ss)
  have "cache_for pid st (snd (override_keep K pid s w))"
    using assms(1) Cons.prems(1) by (rule override_keep_cache)
  with Cons show ?case
    using override_keep_live [OF assms(1) Cons.prems(1)]
    by (cases i) (auto simp: case_prod_beta Let_def)
qed

text \<open>Collection does not move any process that is alive, or that has no slot.\<close>

lemma override_gc_get_pid:
  assumes "ident K pid st" and "cache_for pid st w" and "q \<noteq> 0"
    and "live_as K pid st q t \<or> wslcompat_override_get_pid ss q t = None"
  shows "wslcompat_override_get_pid (fst (override_gc_loop K pid ss w)) q t
       = wslcompat_override_get_pid ss q t"
    and "wslcompat_override_get_pid ss q t = Some i \<Longrightarrow> fst (override_gc_loop K pid ss w) ! i = ss ! i"
proof -
  let ?gc = "fst (override_gc_loop K pid ss w)"
  let ?P = "\<lambda>s. ov_pid s = q \<and> ov_starttime s = t"
  have match: "?P (?gc ! j) = ?P (ss ! j)" if j: "j < length ss" for j
  proof (cases "?P (ss ! j)")
    case True
    then have "wslcompat_override_get_pid ss q t \<noteq> None"
      using nth_mem [OF j] by (auto simp: wslcompat_override_get_pid_def find_index_None_iff)
    with assms(4) have "live_as K pid st q t" by blast
    with override_gc_keeps_live [OF assms(1,2) j] True show ?thesis by simp
  next
    case False
    with override_gc_nth [OF j, of K pid w] assms(3) show ?thesis by auto
  qed
  show "wslcompat_override_get_pid ?gc q t = wslcompat_override_get_pid ss q t"
    unfolding wslcompat_override_get_pid_def
    by (rule find_index_map_cong) (simp_all add: match)
  assume i: "wslcompat_override_get_pid ss q t = Some i"
  then have "live_as K pid st q t" using assms(4) by simp
  with find_index_SomeD [OF i [unfolded wslcompat_override_get_pid_def]]
  show "?gc ! i = ss ! i"
    using override_gc_keeps_live [OF assms(1,2)] by auto
qed

lemma override_gc_lookup:
  assumes "ident K pid st" and "cache_for pid st w" and "q \<noteq> 0"
    and "live_as K pid st q t \<or> wslcompat_override_get_pid ss q t = None"
  shows "slot_lookup (fst (override_gc_loop K pid ss w)) q t = slot_lookup ss q t"
  using override_gc_get_pid [OF assms]
  by (cases "wslcompat_override_get_pid ss q t") (auto simp: slot_lookup_def)

lemma get_pid_update_other:
  assumes "i < length ss" and "\<not> (ov_pid (ss ! i) = q \<and> ov_starttime (ss ! i) = t)"
    and "\<not> (ov_pid s' = q \<and> ov_starttime s' = t)"
  shows "slot_lookup (ss[i := s']) q t = slot_lookup ss q t"
proof -
  have eq: "wslcompat_override_get_pid (ss[i := s']) q t = wslcompat_override_get_pid ss q t"
    unfolding wslcompat_override_get_pid_def
    by (rule find_index_map_cong) (use assms in \<open>auto simp: nth_list_update\<close>)
  have "j \<noteq> i" if "wslcompat_override_get_pid ss q t = Some j" for j
    using find_index_SomeD [OF that [unfolded wslcompat_override_get_pid_def]] assms(2) by auto
  with eq show ?thesis
    by (cases "wslcompat_override_get_pid ss q t") (auto simp: slot_lookup_def)
qed

lemma find_index_update_first:
  assumes "find_index P ss = None" and "i < length ss" and "P s'"
  shows "find_index P (ss[i := s']) = Some i"
  using assms by (intro find_index_SomeI) (auto simp: find_index_None_iff nth_list_update)

text \<open>The outcome of acquiring, own slot and the others'.\<close>

lemma override_acquire_cases:
  assumes "wslcompat_override_acquire_pid K slots pid st fd w = (r, slots', w')"
  obtains (own) i where "r = Some i"
      "wslcompat_override_get_pid (fst (wslcompat_override_gc K slots w)) pid st = Some i"
      "slots' = fst (wslcompat_override_gc K slots w)"
    | (free) i where "r = Some i"
      "wslcompat_override_get_pid (fst (wslcompat_override_gc K slots w)) pid st = None"
      "find_index (\<lambda>s. ov_pid s = 0) (fst (wslcompat_override_gc K slots w)) = Some i"
      "slots' = (fst (wslcompat_override_gc K slots w))
         [i := \<lparr>ov_pid = pid, ov_starttime = st, ov_fd = fd\<rparr>]"
    | (full) "r = None"
      "wslcompat_override_get_pid (fst (wslcompat_override_gc K slots w)) pid st = None"
      "find_index (\<lambda>s. ov_pid s = 0) (fst (wslcompat_override_gc K slots w)) = None"
      "slots' = fst (wslcompat_override_gc K slots w)"
proof -
  obtain gc w1 where gc: "wslcompat_override_gc K slots w = (gc, w1)" by fastforce
  note acq = assms [unfolded wslcompat_override_acquire_pid_def gc Let_def prod.case]
  show thesis
  proof (cases "wslcompat_override_get_pid gc pid st")
    case None
    show thesis
    proof (cases "find_index (\<lambda>s. ov_pid s = 0) gc")
      case None': None
      from acq None None' show thesis by (intro that(3)) (simp_all add: gc)
    next
      case (Some i)
      from acq None Some show thesis by (intro that(2) [of i]) (simp_all add: gc)
    qed
  next
    case (Some i)
    from acq Some show thesis by (intro that(1) [of i]) (simp_all add: gc)
  qed
qed

lemma override_acquire_own:
  assumes "wslcompat_override_acquire_pid K slots pid st fd w = (Some i, slots', w')"
  shows "i < length slots'" and "length slots' = length slots"
    and "ov_pid (slots' ! i) = pid" and "ov_starttime (slots' ! i) = st"
    and "wslcompat_override_get_pid slots' pid st = Some i"
proof -
  let ?gc = "fst (wslcompat_override_gc K slots w)"
  have len: "length ?gc = length slots" by (simp add: wslcompat_override_gc_def)
  from assms have "i < length slots' \<and> length slots' = length slots \<and> ov_pid (slots' ! i) = pid
      \<and> ov_starttime (slots' ! i) = st \<and> wslcompat_override_get_pid slots' pid st = Some i"
  proof (cases rule: override_acquire_cases)
    case (own j)
    from find_index_SomeD [OF own(2) [unfolded wslcompat_override_get_pid_def]] own len
    show ?thesis by auto
  next
    case (free j)
    from find_index_SomeD [OF free(3)] have "i < length ?gc" using free(1) by simp
    with free len show ?thesis
      by (auto simp: wslcompat_override_get_pid_def find_index_update_first)
  next
    case full
    then show ?thesis by simp
  qed
  then show "i < length slots'" and "length slots' = length slots"
    and "ov_pid (slots' ! i) = pid" and "ov_starttime (slots' ! i) = st"
    and "wslcompat_override_get_pid slots' pid st = Some i" by blast+
qed

lemma override_acquire_other:
  assumes "ident K pid st" and "cache_for pid st w" and "0 < q" and "(q, t) \<noteq> (pid, st)"
    and "live_as K pid st q t \<or> wslcompat_override_get_pid slots q t = None"
    and "wslcompat_override_acquire_pid K slots pid st fd w = (r, slots', w')"
  shows "slot_lookup slots' q t = slot_lookup slots q t"
proof -
  let ?gc = "fst (wslcompat_override_gc K slots w)"
  have gc: "slot_lookup ?gc q t = slot_lookup slots q t"
    using override_gc_lookup [OF assms(1,2) _ assms(5)] assms(1,3)
    by (simp add: wslcompat_override_gc_def ident_getpid)
  from assms(6) show ?thesis
  proof (cases rule: override_acquire_cases)
    case (free i)
    from find_index_SomeD [OF free(3)] have "i < length ?gc" "ov_pid (?gc ! i) = 0" by simp_all
    with get_pid_update_other [of i ?gc q t] gc free(4) assms(3,4) show ?thesis by auto
  qed (use gc in simp_all)
qed

text \<open>Collection frees the slots of dead processes and of recycled pids.\<close>

definition dead :: "'k kernel \<Rightarrow> int \<Rightarrow> 64 word \<Rightarrow> bool" where
  "dead K p st \<longleftrightarrow> (\<forall>w. ucast (fst (pid_starttime K p w)) \<noteq> st)"

definition reclaimable :: "'k kernel \<Rightarrow> int \<Rightarrow> 64 word \<Rightarrow> synth_override \<Rightarrow> bool" where
  "reclaimable K pid st s \<longleftrightarrow> ov_pid s = 0
     \<or> (ov_pid s \<noteq> -1 \<and> (if ov_pid s = pid then ov_starttime s \<noteq> st
                          else dead K (ov_pid s) (ov_starttime s)))"

lemma override_keep_reclaimable:
  assumes "ident K pid st" and "cache_for pid st w" and "reclaimable K pid st s" and "ov_pid s \<noteq> 0"
  shows "\<not> fst (override_keep K pid s w)"
  using self_starttime_ident(1) [OF assms(1,2)] assms
  by (auto simp: override_keep_def case_prod_beta wslcompat_self_starttime_def ident_getpid
      reclaimable_def dead_def split: if_splits)

lemma override_gc_frees:
  assumes "ident K pid st" and "cache_for pid st w" and "i < length ss" and "reclaimable K pid st (ss ! i)"
  shows "ov_pid (fst (override_gc_loop K pid ss w) ! i) = 0"
  using assms(2-)
proof (induction ss arbitrary: w i)
  case Nil
  then show ?case by simp
next
  case (Cons s ss)
  have "cache_for pid st (snd (override_keep K pid s w))"
    using assms(1) Cons.prems(1) by (rule override_keep_cache)
  with Cons show ?case
    using override_keep_reclaimable [OF assms(1) Cons.prems(1)]
    by (cases i) (auto simp: case_prod_beta Let_def)
qed

lemma override_gc_own:
  assumes "ident K pid st" and "cache_for pid st w"
  shows "wslcompat_override_get_pid (fst (wslcompat_override_gc K ss w)) pid st
       = wslcompat_override_get_pid ss pid st"
    and "slot_lookup (fst (wslcompat_override_gc K ss w)) pid st = slot_lookup ss pid st"
proof -
  have "pid \<noteq> 0" using assms(1) by (simp add: ident_def)
  moreover have "live_as K pid st pid st" by (simp add: live_as_def)
  ultimately show "wslcompat_override_get_pid (fst (wslcompat_override_gc K ss w)) pid st
       = wslcompat_override_get_pid ss pid st"
    and "slot_lookup (fst (wslcompat_override_gc K ss w)) pid st = slot_lookup ss pid st"
    using override_gc_get_pid(1) [OF assms, of pid st] override_gc_lookup [OF assms, of pid st] assms(1)
    by (simp_all add: wslcompat_override_gc_def ident_getpid)
qed

definition slot_room :: "'k kernel \<Rightarrow> int \<Rightarrow> 64 word \<Rightarrow> synth_override list \<Rightarrow> bool" where
  "slot_room K pid st ss \<longleftrightarrow>
     list_ex (\<lambda>s. (ov_pid s = pid \<and> ov_starttime s = st) \<or> reclaimable K pid st s) ss"

lemma override_acquire_room:
  assumes "ident K pid st" and "cache_for pid st w" and "slot_room K pid st ss"
  obtains i ss' w' where "wslcompat_override_acquire_pid K ss pid st fd w = (Some i, ss', w')"
proof -
  obtain r ss' w' where acq: "wslcompat_override_acquire_pid K ss pid st fd w = (r, ss', w')"
    by (cases "wslcompat_override_acquire_pid K ss pid st fd w")
  from acq show thesis
  proof (cases rule: override_acquire_cases)
    case full
    let ?gc = "fst (wslcompat_override_gc K ss w)"
    have "wslcompat_override_get_pid ss pid st = None"
      using full(2) override_gc_own(1) [OF assms(1,2), of ss] by simp
    then have "\<forall>s\<in>set ss. \<not> (ov_pid s = pid \<and> ov_starttime s = st)"
      by (simp add: wslcompat_override_get_pid_def find_index_None_iff)
    with assms(3) obtain i where "i < length ss" "reclaimable K pid st (ss ! i)"
      by (auto simp: slot_room_def list_ex_iff in_set_conv_nth)
    from override_gc_frees [OF assms(1,2) this] have "ov_pid (?gc ! i) = 0"
      using assms(1) by (simp add: wslcompat_override_gc_def ident_getpid)
    moreover have "?gc ! i \<in> set ?gc"
      using \<open>i < length ss\<close> by (simp add: wslcompat_override_gc_def)
    ultimately show thesis using full(3) by (auto simp: find_index_None_iff)
  qed (use acq that in blast)+
qed

lemma override_acquire_own_fd:
  assumes "ident K pid st" and "cache_for pid st w"
    and "wslcompat_override_acquire_pid K slots pid st fd w = (Some i, slots', w')"
  shows "ov_fd (slots' ! i) = (case slot_lookup slots pid st of None \<Rightarrow> fd | Some old \<Rightarrow> old)"
  using assms(3)
proof (cases rule: override_acquire_cases)
  case (own j)
  then have "slot_lookup (fst (wslcompat_override_gc K slots w)) pid st = Some (ov_fd (slots' ! i))"
    by (simp add: slot_lookup_def)
  with override_gc_own(2) [OF assms(1,2)] show ?thesis by simp
next
  case (free j)
  then have "slot_lookup (fst (wslcompat_override_gc K slots w)) pid st = None"
    by (simp add: slot_lookup_def)
  with override_gc_own(2) [OF assms(1,2)] find_index_SomeD [OF free(3)] free show ?thesis by simp
qed simp

section \<open>The contract of a view\<close>

text \<open>What process \<open>(q, t)\<close> sees, without the effects of finding out who it is.\<close>

definition view_read :: "nat \<Rightarrow> 'k fdview \<Rightarrow> int \<Rightarrow> 64 word \<Rightarrow> 'k world \<Rightarrow> int" where
  "view_read e V q t w =
     (if synth_is_installer (synth_table w ! e) q t then v_base V w
      else (case slot_lookup (v_slots V w) q t of Some fd \<Rightarrow> fd | None \<Rightarrow> v_base V w))"

definition view_room :: "'k kernel \<Rightarrow> nat \<Rightarrow> 'k fdview \<Rightarrow> int \<Rightarrow> 64 word \<Rightarrow> 'k world \<Rightarrow> bool" where
  "view_room K e V pid st w \<longleftrightarrow>
     synth_is_installer (synth_table w ! e) pid st \<or> slot_room K pid st (v_slots V w)"

definition installer_of :: "'k world \<Rightarrow> nat \<Rightarrow> int \<times> 64 word" where
  "installer_of w e = (install_pid (synth_table w ! e), install_starttime (synth_table w ! e))"

text \<open>A process other than the caller, whose view the caller must not change.\<close>

definition undisturbed ::
  "'k kernel \<Rightarrow> nat \<Rightarrow> 'k fdview \<Rightarrow> int \<Rightarrow> 64 word \<Rightarrow> int \<Rightarrow> 64 word \<Rightarrow> 'k world \<Rightarrow> bool" where
  "undisturbed K e V pid st q t w \<longleftrightarrow> 0 < q \<and> (q, t) \<noteq> (pid, st)
     \<and> ((q, t) = installer_of w e \<or> live_as K pid st q t
        \<or> wslcompat_override_get_pid (v_slots V w) q t = None)"

text \<open>
  A view is an address of a slot array and of a base value inside the library's state: both
  can be read back after a write, neither disturbs the other, the kernel, the start-time
  cache or the identity of an installer, and finding out one's own identity disturbs
  neither.
\<close>

locale fd_view =
  fixes V :: "'k fdview" and ok :: "'k world \<Rightarrow> bool"
  assumes slots_put_slots: "ok w \<Longrightarrow> v_slots V (v_put_slots V ss w) = ss"
    and base_put_slots: "ok w \<Longrightarrow> v_base V (v_put_slots V ss w) = v_base V w"
    and base_put_base: "ok w \<Longrightarrow> v_base V (v_put_base V fd w) = fd"
    and slots_put_base: "ok w \<Longrightarrow> v_slots V (v_put_base V fd w) = v_slots V w"
    and put_ok: "ok (v_put_slots V ss w) = ok w" "ok (v_put_base V fd w) = ok w"
    and put_frame: "kst (v_put_slots V ss w) = kst w" "kst (v_put_base V fd w) = kst w"
      "self_cache (v_put_slots V ss w) = self_cache w" "self_cache (v_put_base V fd w) = self_cache w"
    and put_installer: "installer_of (v_put_slots V ss w) e = installer_of w e"
      "installer_of (v_put_base V fd w) e = installer_of w e"
    and quiet_slots: "quiet w w' \<Longrightarrow> v_slots V w' = v_slots V w"
    and quiet_base: "quiet w w' \<Longrightarrow> v_base V w' = v_base V w"
    and quiet_ok: "quiet w w' \<Longrightarrow> ok w' = ok w"
begin

lemma quiet_installer: "quiet w w' \<Longrightarrow> installer_of w' e = installer_of w e"
  by (simp add: installer_of_def quiet_fields)

lemma is_installer_iff: "synth_is_installer (synth_table w ! e) q t \<longleftrightarrow> (q, t) = installer_of w e"
  by (auto simp: synth_is_installer_def installer_of_def)

lemma quiet_view_read: "quiet w w' \<Longrightarrow> view_read e V q t w' = view_read e V q t w"
  by (simp add: view_read_def is_installer_iff quiet_installer quiet_slots quiet_base split: option.split)

lemma load_spec:
  assumes "ident K pid st" and "cache_for pid st w"
  obtains w' where "wslcompat_view_fd_load K e V w = (view_read e V pid st w, w')"
    and "quiet w w'" and "cache_for pid st w'"
proof -
  obtain w1 where w1: "wslcompat_self_starttime_pid K pid w = (st, w1)" "quiet w w1" "cache_for pid st w1"
    using assms by (rule self_starttimeE)
  have "wslcompat_view_fd_load K e V w = (view_read e V pid st w1, w1)"
    by (simp add: wslcompat_view_fd_load_def ident_getpid [OF assms(1)] w1(1) view_read_def slot_lookup_def
        split: option.split)
  with w1 that show thesis by (simp add: quiet_view_read)
qed

lemma view_read_put_slots:
  "ok w \<Longrightarrow> view_read e V q t (v_put_slots V ss w) =
     (if (q, t) = installer_of w e then v_base V w
      else (case slot_lookup ss q t of Some fd \<Rightarrow> fd | None \<Rightarrow> v_base V w))"
  by (simp add: view_read_def is_installer_iff put_installer slots_put_slots base_put_slots split: option.split)

lemma view_read_put_base_own:
  "ok w \<Longrightarrow> (q, t) = installer_of w e \<Longrightarrow> view_read e V q t (v_put_base V fd w) = fd"
  by (simp add: view_read_def is_installer_iff put_installer base_put_base)

lemma cache_for_put: "cache_for p s (v_put_slots V ss w) = cache_for p s w"
    "cache_for p s (v_put_base V fd w) = cache_for p s w"
  by (simp_all add: cache_for_def put_frame)

text \<open>Writing the own slot \<open>i\<close> of an acquired array.\<close>

lemma view_read_acquired:
  assumes "ok w" and "(pid, st) \<noteq> installer_of w e" and "i < length ss"
    and "wslcompat_override_get_pid ss pid st = Some i"
  shows "view_read e V pid st (v_put_slots V (ss[i := (ss ! i)\<lparr>ov_fd := fd\<rparr>]) w) = fd"
    and "(q, t) \<noteq> (pid, st) \<Longrightarrow>
       view_read e V q t (v_put_slots V (ss[i := (ss ! i)\<lparr>ov_fd := fd\<rparr>]) w)
         = view_read e V q t (v_put_slots V ss w)"
proof -
  let ?ss = "ss[i := (ss ! i)\<lparr>ov_fd := fd\<rparr>]"
  note own = find_index_SomeD [OF assms(4) [unfolded wslcompat_override_get_pid_def]]
  have "wslcompat_override_get_pid ?ss pid st = wslcompat_override_get_pid ss pid st"
    unfolding wslcompat_override_get_pid_def
    by (rule find_index_map_cong) (use own in \<open>auto simp: nth_list_update\<close>)
  then have "slot_lookup ?ss pid st = Some fd"
    using assms(3,4) by (simp add: slot_lookup_def)
  with assms(1,2) show "view_read e V pid st (v_put_slots V ?ss w) = fd"
    by (simp add: view_read_put_slots)
  assume "(q, t) \<noteq> (pid, st)"
  with own have "slot_lookup ?ss q t = slot_lookup ss q t"
    by (intro get_pid_update_other) auto
  with assms(1) show "view_read e V q t (v_put_slots V ?ss w) = view_read e V q t (v_put_slots V ss w)"
    by (simp add: view_read_put_slots)
qed

lemma acquireE:
  assumes "ok w" and "ident K pid st" and "cache_for pid st w" and "(pid, st) \<noteq> installer_of w e"
  obtains w1 r ss w2 where "wslcompat_self_starttime_pid K pid w = (st, w1)"
    and "quiet w w1" and "\<not> synth_is_installer (synth_table w1 ! e) pid st"
    and "wslcompat_override_acquire_pid K (v_slots V w1) pid st fd w1 = (r, ss, w2)"
    and "quiet w w2" and "cache_for pid st w2" and "ok w2" and "view_room K e V pid st w \<Longrightarrow> r \<noteq> None"
    and "\<And>q t. undisturbed K e V pid st q t w \<Longrightarrow>
           view_read e V q t (v_put_slots V ss w2) = view_read e V q t w"
    and "\<And>i. r = Some i \<Longrightarrow>
           ov_fd (ss ! i) = (case slot_lookup (v_slots V w) pid st of None \<Rightarrow> fd | Some old \<Rightarrow> old)"
    and "r = None \<Longrightarrow> view_read e V pid st (v_put_slots V ss w2) = view_read e V pid st w"
proof -
  obtain w1 where w1: "wslcompat_self_starttime_pid K pid w = (st, w1)" "quiet w w1" "cache_for pid st w1"
    using assms(2,3) by (rule self_starttimeE)
  obtain r ss w2 where acq: "wslcompat_override_acquire_pid K (v_slots V w1) pid st fd w1 = (r, ss, w2)"
    by (cases "wslcompat_override_acquire_pid K (v_slots V w1) pid st fd w1")
  have slots: "v_slots V w1 = v_slots V w" using w1(2) by (rule quiet_slots)
  have q12: "quiet w1 w2" using override_acquire_quiet [of w1 K "v_slots V w1" pid st fd] acq by simp
  then have quiet: "quiet w w2" using quiet_trans w1(2) by blast
  have cache: "cache_for pid st w2"
    using override_acquire_cache [OF assms(2) w1(3), of "v_slots V w1" fd] acq by simp
  have inst: "\<not> synth_is_installer (synth_table w1 ! e) pid st"
    using assms(4) by (simp add: is_installer_iff quiet_installer [OF w1(2)])
  have ok2: "ok w2" using quiet_ok [OF quiet] assms(1) by simp
  have read2: "view_read e V q t (v_put_slots V ss w2) =
      (if (q, t) = installer_of w e then v_base V w
       else (case slot_lookup ss q t of Some fd \<Rightarrow> fd | None \<Rightarrow> v_base V w))" for q t
    by (simp add: view_read_put_slots [OF ok2] quiet_installer [OF quiet] quiet_base [OF quiet] split: option.split)
  have readw: "view_read e V q t w =
      (if (q, t) = installer_of w e then v_base V w
       else (case slot_lookup (v_slots V w) q t of Some fd \<Rightarrow> fd | None \<Rightarrow> v_base V w))" for q t
    by (simp add: view_read_def is_installer_iff)
  show thesis
  proof (rule that [OF w1(1,2) inst acq quiet cache ok2])
    assume "view_room K e V pid st w"
    then have "slot_room K pid st (v_slots V w1)"
      using assms(4) by (simp add: view_room_def is_installer_iff slots)
    with assms(2) w1(3) obtain i ss' w' where
      "wslcompat_override_acquire_pid K (v_slots V w1) pid st fd w1 = (Some i, ss', w')"
      by (rule override_acquire_room)
    with acq show "r \<noteq> None" by auto
  next
    fix q t assume u: "undisturbed K e V pid st q t w"
    show "view_read e V q t (v_put_slots V ss w2) = view_read e V q t w"
    proof (cases "(q, t) = installer_of w e")
      case False
      with u have "slot_lookup ss q t = slot_lookup (v_slots V w) q t"
        using override_acquire_other [OF assms(2) w1(3) _ _ _ acq, of q t]
        by (auto simp: undisturbed_def slots)
      then show ?thesis by (simp add: read2 readw)
    qed (simp add: read2 readw)
  next
    fix i assume "r = Some i"
    with override_acquire_own_fd [OF assms(2) w1(3), of "v_slots V w1" fd i ss w2] acq
    show "ov_fd (ss ! i) = (case slot_lookup (v_slots V w) pid st of None \<Rightarrow> fd | Some old \<Rightarrow> old)"
      by (simp add: slots)
  next
    assume "r = None"
    from acq have "slot_lookup ss pid st = slot_lookup (v_slots V w1) pid st"
      by (cases rule: override_acquire_cases) (use \<open>r = None\<close> override_gc_own(2) [OF assms(2) w1(3)] in simp_all)
    then show "view_read e V pid st (v_put_slots V ss w2) = view_read e V pid st w"
      by (simp add: read2 readw slots)
  qed
qed

lemma store_spec:
  assumes "ok w" and "ident K pid st" and "cache_for pid st w"
  shows "view_room K e V pid st w \<Longrightarrow> view_read e V pid st (wslcompat_view_fd_store K e V fd w) = fd"
    and "(pid, st) \<noteq> installer_of w e \<Longrightarrow> undisturbed K e V pid st q t w \<Longrightarrow>
           view_read e V q t (wslcompat_view_fd_store K e V fd w) = view_read e V q t w"
proof -
  let ?w' = "wslcompat_view_fd_store K e V fd w"
  have non: "(view_room K e V pid st w \<longrightarrow> view_read e V pid st ?w' = fd)
      \<and> (undisturbed K e V pid st q t w \<longrightarrow> view_read e V q t ?w' = view_read e V q t w)"
    if n: "(pid, st) \<noteq> installer_of w e"
  proof -
    obtain w1 r ss w2 where a: "wslcompat_self_starttime_pid K pid w = (st, w1)"
      "\<not> synth_is_installer (synth_table w1 ! e) pid st" "quiet w w2" "ok w2"
      "wslcompat_override_acquire_pid K (v_slots V w1) pid st fd w1 = (r, ss, w2)"
      "view_room K e V pid st w \<Longrightarrow> r \<noteq> None"
      "undisturbed K e V pid st q t w \<Longrightarrow> view_read e V q t (v_put_slots V ss w2) = view_read e V q t w"
      using assms n by (rule acquireE) blast
    show ?thesis
    proof (cases r)
      case None
      then show ?thesis
        using a by (auto simp: wslcompat_view_fd_store_def ident_getpid [OF assms(2)])
    next
      case (Some i)
      note own = override_acquire_own [OF a(5) [unfolded Some]]
      have n2: "(pid, st) \<noteq> installer_of w2 e" using n by (simp add: quiet_installer [OF a(3)])
      have "?w' = v_put_slots V (ss[i := (ss ! i)\<lparr>ov_fd := fd\<rparr>]) w2"
        using a Some by (simp add: wslcompat_view_fd_store_def ident_getpid [OF assms(2)])
      then show ?thesis
        using view_read_acquired [OF a(4) n2 own(1,5), where fd = fd] a(7)
        by (auto simp: undisturbed_def)
    qed
  qed
  show "view_read e V pid st ?w' = fd" if "view_room K e V pid st w"
  proof (cases "(pid, st) = installer_of w e")
    case True
    obtain w1 where w1: "wslcompat_self_starttime_pid K pid w = (st, w1)" "quiet w w1"
      using assms(2,3) by (rule self_starttimeE)
    with True assms(1) show ?thesis
      by (simp add: wslcompat_view_fd_store_def ident_getpid [OF assms(2)] is_installer_iff
          quiet_installer view_read_put_base_own quiet_ok)
  qed (use that non in blast)
  show "(pid, st) \<noteq> installer_of w e \<Longrightarrow> undisturbed K e V pid st q t w \<Longrightarrow>
      view_read e V q t ?w' = view_read e V q t w"
    using non by blast
qed

lemma cas_other:
  assumes "ok w" and "ident K pid st" and "cache_for pid st w"
    and "wslcompat_view_fd_cas K e V expected desired w = (b, w')"
    and "view_read e V pid st w = expected"
    and n: "(pid, st) \<noteq> installer_of w e"
  shows "(view_room K e V pid st w \<longrightarrow> b) \<and> view_read e V pid st w' = (if b then desired else expected)
      \<and> (undisturbed K e V pid st q t w \<longrightarrow> view_read e V q t w' = view_read e V q t w)"
proof -
  obtain w1 r ss w2 where a: "wslcompat_self_starttime_pid K pid w = (st, w1)"
    "\<not> synth_is_installer (synth_table w1 ! e) pid st" "quiet w w2" "ok w2"
    "wslcompat_override_acquire_pid K (v_slots V w1) pid st expected w1 = (r, ss, w2)"
    "view_room K e V pid st w \<Longrightarrow> r \<noteq> None"
    "undisturbed K e V pid st q t w \<Longrightarrow> view_read e V q t (v_put_slots V ss w2) = view_read e V q t w"
    "\<And>i. r = Some i \<Longrightarrow> ov_fd (ss ! i)
       = (case slot_lookup (v_slots V w) pid st of None \<Rightarrow> expected | Some old \<Rightarrow> old)"
    "r = None \<Longrightarrow> view_read e V pid st (v_put_slots V ss w2) = view_read e V pid st w"
    using assms(1-3) n by (rule acquireE) blast
  show ?thesis
  proof (cases r)
    case None
    then show ?thesis
      using a assms(4,5) by (auto simp: wslcompat_view_fd_cas_def ident_getpid [OF assms(2)])
  next
    case (Some i)
    note own = override_acquire_own [OF a(5) [unfolded Some]]
    have n2: "(pid, st) \<noteq> installer_of w2 e" using n by (simp add: quiet_installer [OF a(3)])
    have "ov_fd (ss ! i) = expected"
      using a(8) [OF Some] assms(5) n
      by (simp add: view_read_def is_installer_iff split: option.splits)
    then have "b \<and> w' = v_put_slots V (ss[i := (ss ! i)\<lparr>ov_fd := desired\<rparr>]) w2"
      using a(1,2,5) assms(4) Some by (simp add: wslcompat_view_fd_cas_def ident_getpid [OF assms(2)])
    then show ?thesis
      using view_read_acquired [OF a(4) n2 own(1,5), where fd = desired] a(7)
      by (auto simp: undisturbed_def)
  qed
qed

lemma cas_installer:
  assumes "ok w" and "ident K pid st" and "cache_for pid st w"
    and "wslcompat_view_fd_cas K e V expected desired w = (b, w')"
    and "view_read e V pid st w = expected"
    and i: "(pid, st) = installer_of w e"
  shows "b \<and> view_read e V pid st w' = desired"
proof -
  obtain w1 where w1: "wslcompat_self_starttime_pid K pid w = (st, w1)" "quiet w w1"
    using assms(2,3) by (rule self_starttimeE)
  have "v_base V w1 = expected"
    using assms(5) i by (simp add: view_read_def is_installer_iff quiet_base [OF w1(2)])
  then have "b \<and> w' = v_put_base V desired w1"
    using assms(4) w1 i
    by (simp add: wslcompat_view_fd_cas_def ident_getpid [OF assms(2)] is_installer_iff quiet_installer)
  then show ?thesis
    using i assms(1) by (simp add: view_read_put_base_own quiet_ok [OF w1(2)] quiet_installer [OF w1(2)])
qed

lemma cas_spec:
  assumes "ok w" and "ident K pid st" and "cache_for pid st w"
    and "wslcompat_view_fd_cas K e V expected desired w = (b, w')"
    and "view_read e V pid st w = expected"
  shows "view_room K e V pid st w \<Longrightarrow> b"
    and "view_read e V pid st w' = (if b then desired else expected)"
    and "(pid, st) \<noteq> installer_of w e \<Longrightarrow> undisturbed K e V pid st q t w \<Longrightarrow>
           view_read e V q t w' = view_read e V q t w"
  using cas_other [OF assms, of q t] cas_installer [OF assms]
  by (cases "(pid, st) = installer_of w e"; auto)+

lemma quiet_room: "quiet w w' \<Longrightarrow> view_room K e V pid st w' = view_room K e V pid st w"
  by (simp add: view_room_def is_installer_iff quiet_installer quiet_slots)

lemma quiet_undisturbed:
  "quiet w w' \<Longrightarrow> undisturbed K e V pid st q t w' = undisturbed K e V pid st q t w"
  by (simp add: undisturbed_def quiet_installer quiet_slots)

text \<open>Where a relocation leaves the caller's view: on its result, or where it was.\<close>

lemma relocate_hit:
  assumes "ok w" and "ident K pid st" and "cache_for pid st w"
    and "wslcompat_view_fd_relocate K e V targetfd w = (r, w')"
    and v: "view_read e V pid st w = targetfd"
  shows "(view_room K e V pid st w \<longrightarrow> view_read e V pid st w' = r
        \<and> (r = -1 \<or> (\<exists>k k'. k_fcntl K targetfd F_DUPFD_CLOEXEC 3 k = (Inr r, k'))))
      \<and> ((pid, st) \<noteq> installer_of w e \<longrightarrow> undisturbed K e V pid st q t w \<longrightarrow>
           view_read e V q t w' = view_read e V q t w)"
proof -
  obtain w1 where w1: "wslcompat_view_fd_load K e V w = (view_read e V pid st w, w1)" "quiet w w1"
    "cache_for pid st w1"
    using assms(2,3) by (rule load_spec)
  let ?f = "k_fcntl K targetfd F_DUPFD_CLOEXEC 3"
  obtain d w2 where dup: "sys ?f w1 = (d, w2)" by fastforce
  have same: "same_lib w1 w2" using sys_same_lib [of w1 ?f] dup by simp
  then have q: "quiet w w2" using w1(2) quiet_trans same_lib_quiet by blast
  have c2: "cache_for pid st w2" using w1(3) same_libD(5) [OF same] by (simp add: cache_for_def)
  have ok2: "ok w2" using assms(1) q by (simp add: quiet_ok)
  define fd where "fd = (case d of None \<Rightarrow> -1 | Some n \<Rightarrow> n)"
  obtain b w3 where cas: "wslcompat_view_fd_cas K e V targetfd fd w2 = (b, w3)" by fastforce
  have v2: "view_read e V pid st w2 = targetfd" using v by (simp add: quiet_view_read [OF q])
  note cs = cas_spec [OF ok2 assms(2) c2 cas v2]
  have rw: "r = (if d = None then -1 else if b then fd else 0)" "quiet w3 w'"
    using assms(4) cas v
    by (auto simp: wslcompat_view_fd_relocate_def w1(1) dup fd_def case_prod_beta
        same_lib_quiet [OF sys_same_lib] split: option.splits if_splits)
  have fdk: "d = Some n \<Longrightarrow> ?f (kst w1) = (Inr n, kst w2)" for n
    using dup by (auto simp: sys_def split: prod.splits sum.splits)
  have "view_room K e V pid st w \<Longrightarrow> b" using cs(1) by (simp add: quiet_room [OF q])
  then have own: "view_room K e V pid st w \<Longrightarrow> r = fd \<and> view_read e V pid st w' = fd"
    using cs(2) rw by (auto simp: quiet_view_read fd_def split: if_splits)
  have "r = fd \<Longrightarrow> r = -1 \<or> (\<exists>k k'. ?f k = (Inr r, k'))"
    using fdk by (cases d) (auto simp: fd_def)
  with own cs(3) show ?thesis
    by (simp add: quiet_view_read [OF rw(2)] quiet_view_read [OF q] quiet_installer [OF q]
        quiet_undisturbed [OF q])
qed

lemma relocate_spec:
  assumes "ok w" and "ident K pid st" and "cache_for pid st w"
    and "wslcompat_view_fd_relocate K e V targetfd w = (r, w')"
  shows "view_read e V pid st w \<noteq> targetfd \<Longrightarrow> r = 0 \<and> quiet w w'"
    and "view_read e V pid st w = targetfd \<Longrightarrow> view_room K e V pid st w \<Longrightarrow>
           view_read e V pid st w' = r
           \<and> (r = -1 \<or> (\<exists>k k'. k_fcntl K targetfd F_DUPFD_CLOEXEC 3 k = (Inr r, k')))"
    and "(pid, st) \<noteq> installer_of w e \<Longrightarrow> undisturbed K e V pid st q t w \<Longrightarrow>
           view_read e V q t w' = view_read e V q t w"
proof -
  obtain w1 where w1: "wslcompat_view_fd_load K e V w = (view_read e V pid st w, w1)" "quiet w w1"
    using assms(2,3) by (rule load_spec)
  note hit = relocate_hit [OF assms, of q t]
  have miss: "r = 0 \<and> quiet w w'" if "view_read e V pid st w \<noteq> targetfd"
    using assms(4) w1 that by (simp add: wslcompat_view_fd_relocate_def)
  show "view_read e V pid st w \<noteq> targetfd \<Longrightarrow> r = 0 \<and> quiet w w'" by (rule miss)
  show "view_read e V pid st w = targetfd \<Longrightarrow> view_room K e V pid st w \<Longrightarrow>
      view_read e V pid st w' = r \<and> (r = -1 \<or> (\<exists>k k'. k_fcntl K targetfd F_DUPFD_CLOEXEC 3 k = (Inr r, k')))"
    using hit by blast
  show "(pid, st) \<noteq> installer_of w e \<Longrightarrow> undisturbed K e V pid st q t w \<Longrightarrow>
      view_read e V q t w' = view_read e V q t w"
    using hit miss by (cases "view_read e V pid st w = targetfd") (auto simp: quiet_view_read)
qed

end

text \<open>The two views of the program meet the contract.\<close>

lemma nth_update_field: "f y = f (xs ! i) \<Longrightarrow> f (xs[i := y] ! j) = f (xs ! j)"
  by (cases "i < length xs") (auto simp: nth_list_update list_update_beyond)

lemmas nth_update_installer = nth_update_field [where f = install_pid] nth_update_field [where f = install_starttime]

interpretation probe: fd_view "probe_view i" "\<lambda>w. i < length (synth_table w)" for i
  by unfold_locales
    (auto simp: probe_view_def synth_table_upd_entry installer_of_def nth_update_installer quiet_fields)

interpretation real: fd_view "real_view j" "\<lambda>w. j < length (tty_table w)" for j
  by unfold_locales
    (auto simp: real_view_def tty_table_upd_tty installer_of_def quiet_fields)

section \<open>The start time in a stat line\<close>

text \<open>
  The line the kernel prints (proc(5)): pid, the command in parentheses, a state letter,
  the 18 fields from \<^verbatim>\<open>ppid\<close> to \<^verbatim>\<open>itrealvalue\<close>, the start time and the rest.
\<close>

definition stat_fields :: "int list \<Rightarrow> cstring" where
  "stat_fields fs = concat (map (\<lambda>i. CHR '' '' # show_int i) fs)"

definition stat_line :: "int \<Rightarrow> cstring \<Rightarrow> char \<Rightarrow> int list \<Rightarrow> nat \<Rightarrow> cstring \<Rightarrow> cstring" where
  "stat_line pid comm state fs st rest =
     show_int pid @ '' ('' @ comm @ CHR '')'' # CHR '' '' # state # stat_fields fs
       @ CHR '' '' # show_nat st @ rest"

lemma set_show_int: "c \<in> set (show_int i) \<Longrightarrow> is_digit c \<or> c = CHR ''-''"
  using show_nat_digits by (auto simp: show_int_def split: if_splits)

lemma paren_notin_fields: "CHR '')'' \<notin> set (stat_fields fs)"
  by (auto simp: stat_fields_def is_digit_def dest!: set_show_int)

lemma paren_notin_show_nat: "CHR '')'' \<notin> set (show_nat n)"
  using show_nat_digits [of n] by (auto simp: is_digit_def)

lemma skip_fields:
  "((\<lambda>q. snd (strtoull q)) ^^ length fs) (stat_fields fs @ CHR '' '' # r) = CHR '' '' # r"
proof (induction fs)
  case Nil
  then show ?case by (simp add: stat_fields_def)
next
  case (Cons i fs)
  have "no_digit (stat_fields fs @ CHR '' '' # r)"
    by (cases fs) (auto simp: stat_fields_def is_digit_def)
  with Cons show ?case
    by (simp add: stat_fields_def funpow_swap1 strtoull_rest_show_int del: funpow.simps(2)
        add: funpow_Suc_right)
qed

lemma parse_stat_line:
  assumes "length fs = 18" and "st < 2 ^ 64" and "no_digit rest" and "CHR '')'' \<notin> set rest"
    and "state \<noteq> CHR '' ''" and "state \<noteq> CHR '')''"
  shows "parse_starttime (stat_line pid comm state fs st rest) = of_nat st"
proof -
  let ?tail = "stat_fields fs @ CHR '' '' # show_nat st @ rest"
  have "strrchr (CHR '')'') (stat_line pid comm state fs st rest) = Some (CHR '')'' # CHR '' '' # state # ?tail)"
    using assms(4,6) strrchr_Some_append [of "CHR '')''" "CHR '' '' # state # ?tail" "show_int pid @ '' ('' @ comm"]
    by (simp add: stat_line_def paren_notin_fields paren_notin_show_nat)
  moreover have "dropWhile (\<lambda>c. c \<noteq> CHR '' '') (state # ?tail) = ?tail"
    using assms(5) by (cases fs) (simp_all add: stat_fields_def)
  moreover have "((\<lambda>q. snd (strtoull q)) ^^ 18) ?tail = CHR '' '' # show_nat st @ rest"
    using skip_fields [of fs "show_nat st @ rest"] assms(1) by simp
  moreover have "fst (strtoull (CHR '' '' # show_nat st @ rest)) = of_nat st"
    using assms(2,3) by (simp add: strtoull_def scan_dec_space scan_dec_show ULONG_MAX_def)
  ultimately show ?thesis
    using assms(5) by (simp add: parse_starttime_def)
qed

section \<open>Example processes\<close>

text \<open>
  Process 5 started at 50 and process 7 at 70, with \<^verbatim>\<open>/proc\<close> answering for both; \<open>me\<close> is the
  process making the calls, a duplicate always lands on descriptor 20, and locks are granted.
\<close>

definition example_procs :: "int \<Rightarrow> unit kernel" where
  "example_procs me = null_kernel
     \<lparr>k_getpid := (\<lambda>_. me),
      k_open := (\<lambda>path _ k. (if path = ''/proc/self/stat'' then Inr me
                             else if path = ''/proc/5/stat'' then Inr 5
                             else if path = ''/proc/7/stat'' then Inr 7 else Inl ENOENT, k)),
      k_read := (\<lambda>fd _ k. (Inr (stat_line fd ''sh) S'' (CHR ''S'') (replicate 18 0) (nat fd * 10) []), k)),
      k_close := (\<lambda>_ k. (Inr 0, k)), k_flock := (\<lambda>_ _ k. (Inr 0, k)),
      k_fcntl := (\<lambda>_ _ _ k. (Inr 20, k))\<rparr>"

lemma cstr_stat_line:
  assumes "NUL \<notin> set comm" and "NUL \<notin> set rest" and "state \<noteq> NUL"
  shows "cstr (stat_line pid comm state fs st rest) = stat_line pid comm state fs st rest"
proof -
  have "NUL \<notin> set (show_int i)" and "NUL \<notin> set (show_nat n)" for i n
    using set_show_int [of NUL i] show_nat_digits [of n] by (auto simp: is_digit_def NUL_def)
  with assms have "NUL \<notin> set (stat_line pid comm state fs st rest)"
    by (auto simp: stat_line_def stat_fields_def NUL_def)
  then show ?thesis by (auto simp: cstr_def takeWhile_eq_all_conv)
qed

lemma example_line:
  "parse_starttime (cstr (stat_line p ''sh) S'' (CHR ''S'') (replicate 18 0) (nat p * 10) [])) = of_nat (nat p * 10)"
  if "p < 1000"
  using that by (simp add: cstr_stat_line NUL_def parse_stat_line)

lemma show_int_digit [simp]: "show_int 5 = ''5''" "show_int 7 = ''7''"
  by (simp_all add: show_int_def show_nat.simps digit_char_def)

lemma example_starttime:
  assumes "p = 5 \<or> p = 7"
  shows "fst (read_proc_starttime (example_procs p) ''/proc/self/stat'' w) = of_nat (nat p * 10)"
    and "fst (pid_starttime (example_procs q) p w) = of_nat (nat p * 10)"
proof -
  have ne: "stat_line p ''sh) S'' (CHR ''S'') (replicate 18 0) (nat p * 10) [] \<noteq> []" for p
    by (simp add: stat_line_def)
  show "fst (read_proc_starttime (example_procs p) ''/proc/self/stat'' w) = of_nat (nat p * 10)"
    using assms ne [of p] example_line [of p]
    by (auto simp: read_proc_starttime_def example_procs_def sys_def)
  show "fst (pid_starttime (example_procs q) p w) = of_nat (nat p * 10)"
    using assms ne [of p] example_line [of p]
    by (auto simp: pid_starttime_def read_proc_starttime_def example_procs_def sys_def)
qed

lemma example_ident: "ident (example_procs 5) 5 50" "ident (example_procs 7) 7 70"
  using example_starttime(1) [of 5] example_starttime(1) [of 7]
  by (simp_all add: ident_def example_procs_def)

lemma example_alive: "alive (example_procs q) 5 50" "alive (example_procs q) 7 70"
  using example_starttime(2) [of 5] example_starttime(2) [of 7]
  by (simp_all add: alive_def)

section \<open>Properties\<close>

text \<open>
  C3: A process that did not install a synthetic descriptor (a vfork child sharing the
  installer's memory) never changes the descriptor any other process sees when it stores
  its own probe descriptor or moves it out of the way: not the installer's, not a live
  sibling's, and not that of a process without a slot.
\<close>

theorem vfork_isolation:
  assumes "i < length (synth_table w)" and "ident K pid st" and "cache_for pid st w"
    and "(pid, st) \<noteq> installer_of w i" and "undisturbed K i (probe_view i) pid st q t w"
  shows "view_read i (probe_view i) q t (synth_probe_fd_store K i fd w) = view_read i (probe_view i) q t w
    \<and> view_read i (probe_view i) q t (snd (wslcompat_view_fd_relocate K i (probe_view i) targetfd w))
        = view_read i (probe_view i) q t w"
  using probe.store_spec(2) [OF assms(1-5)]
    probe.relocate_spec(3) [OF assms(1-3) prod.collapse [symmetric] assms(4,5)]
  by (simp add: synth_probe_fd_store_def)

theorem vfork_isolation_witness:
  "let w = (static_world ())\<lparr>synth_table := [zero_entry\<lparr>refcount := 1, probe_fd := 4, install_pid := 5,
         install_starttime := 50\<rparr>]\<rparr>
   in view_read 0 (probe_view 0) 5 50 w = 4
      \<and> view_read 0 (probe_view 0) 5 50 (synth_probe_fd_store (example_procs 7) 0 9 w) = 4"
proof -
  let ?w = "(static_world ())\<lparr>synth_table := [zero_entry\<lparr>refcount := 1, probe_fd := 4, install_pid := 5,
         install_starttime := 50\<rparr>]\<rparr>"
  have "0 < length (synth_table ?w)" and c: "cache_for 7 70 ?w" and "(7, 70) \<noteq> installer_of ?w 0"
    and "undisturbed (example_procs 7) 0 (probe_view 0) 7 70 5 50 ?w"
    and "view_read 0 (probe_view 0) 5 50 ?w = 4"
    by (simp_all add: cache_for_def static_world_def installer_of_def undisturbed_def view_read_def
        synth_is_installer_def probe_view_def)
  with vfork_isolation [OF _ example_ident(2) c, of 0 5 50 9] show ?thesis by simp
qed

text \<open>
  C4: When the backing descriptor of a wrapped terminal is the one about to be closed and
  the caller is the installer, owns a slot, or can claim or reclaim one, relocating moves
  the caller's view to the fresh duplicate (or marks it dead when the duplicate could not
  be made), so that closing the number no longer reaches it.
\<close>

theorem relocate_frees_target:
  assumes "j < length (tty_table w)" and "ident K pid st" and "cache_for pid st w"
    and "view_room K i (real_view j) pid st w" and "0 \<le> targetfd"
    and "\<And>k fd k'. k_fcntl K targetfd F_DUPFD_CLOEXEC 3 k = (Inr fd, k') \<Longrightarrow> 3 \<le> fd \<and> fd \<noteq> targetfd"
    and "wslcompat_view_fd_relocate K i (real_view j) targetfd w = (r, w')"
  shows "view_read i (real_view j) pid st w' \<noteq> targetfd
    \<and> (if view_read i (real_view j) pid st w \<noteq> targetfd
        then r = 0 \<and> view_read i (real_view j) pid st w' = view_read i (real_view j) pid st w
        else (r = -1 \<or> 3 \<le> r) \<and> view_read i (real_view j) pid st w' = r)"
proof (cases "view_read i (real_view j) pid st w = targetfd")
  case True
  from real.relocate_spec(2) [OF assms(1-3,7) True assms(4)] assms(5,6) True show ?thesis by force
next
  case False
  from real.relocate_spec(1) [OF assms(1-3,7) False] False show ?thesis
    using real.quiet_view_read [of w w' i j pid st] by simp
qed

theorem relocate_frees_target_witness:
  "let w = (static_world ())\<lparr>synth_table := [zero_entry\<lparr>install_pid := 5, install_starttime := 50\<rparr>],
         tty_table := [zero_tty\<lparr>tt_real_fd := 6, tt_overrides := [zero_override]\<rparr>]\<rparr>
   in view_read 0 (real_view 0) 7 70 w = 6
      \<and> view_read 0 (real_view 0) 7 70 (snd (wslcompat_view_fd_relocate (example_procs 7) 0 (real_view 0) 6 w)) \<noteq> 6"
proof -
  let ?w = "(static_world ())\<lparr>synth_table := [zero_entry\<lparr>install_pid := 5, install_starttime := 50\<rparr>],
         tty_table := [zero_tty\<lparr>tt_real_fd := 6, tt_overrides := [zero_override]\<rparr>]\<rparr>"
  have h: "0 < length (tty_table ?w)" and c: "cache_for 7 70 ?w"
    and room: "view_room (example_procs 7) 0 (real_view 0) 7 70 ?w"
    and six: "view_read 0 (real_view 0) 7 70 ?w = 6"
    by (simp_all add: cache_for_def static_world_def view_room_def slot_room_def
        zero_override_def reclaimable_def view_read_def synth_is_installer_def real_view_def
        slot_lookup_def wslcompat_override_get_pid_def)
  have dup: "k_fcntl (example_procs 7) 6 F_DUPFD_CLOEXEC 3 k = (Inr fd, k') \<Longrightarrow> 3 \<le> fd \<and> fd \<noteq> 6" for k fd k'
    by (simp add: example_procs_def)
  show ?thesis
    using relocate_frees_target [OF h example_ident(2) c room _ dup prod.collapse [symmetric]] six
    by (simp add: Let_def)
qed

text \<open>
  C29: The start time is found in every stat line the kernel prints, whatever the command
  name: spaces and closing parentheses inside it do not shift the fields.
\<close>

theorem starttime_of_stat_line:
  assumes "length fs = 18" and "st < 2 ^ 64" and "no_digit rest" and "CHR '')'' \<notin> set rest"
    and "NUL \<notin> set comm" and "NUL \<notin> set rest" and "state \<notin> {CHR '' '', CHR '')'', NUL}"
    and "k_open K path (O_RDONLY OR O_CLOEXEC OR O_NONBLOCK) (kst w) = (Inr fd, k1)"
    and "k_read K fd 511 k1 = (Inr (stat_line pid comm state fs st rest), k2)"
  shows "fst (read_proc_starttime K path w) = of_nat st"
proof -
  have "stat_line pid comm state fs st rest \<noteq> []" by (simp add: stat_line_def)
  moreover have "parse_starttime (cstr (stat_line pid comm state fs st rest)) = of_nat st"
    using assms(1-7) by (simp add: cstr_stat_line parse_stat_line)
  ultimately show ?thesis
    using assms(8,9) by (simp add: read_proc_starttime_def sys_def case_prod_beta)
qed

theorem starttime_of_stat_line_witness:
  "fst (read_proc_starttime (example_procs 7) ''/proc/7/stat'' (static_world ())) = 70"
  using starttime_of_stat_line [of "replicate 18 0" 70 "[]" "''sh) S''" "CHR ''S''" "example_procs 7"
      "''/proc/7/stat''" "static_world ()" 7 "()" 7 "()"]
  by (simp add: NUL_def example_procs_def static_world_def)

end
