(* ===== verification/Walk.thy ===== *)
theory Walk
  imports World
begin

text \<open>
  utils.c: the walk over the open descriptors of the process, used by the last-close
  check, close_range and the exec save.  The directory arrives in batches; the visitor
  may change the library's state and the user argument, and stops the walk with a
  non-zero result.
\<close>

section \<open>The walk\<close>

type_synonym ('k, 'u) visitor = "int \<Rightarrow> 'u \<Rightarrow> 'k world \<Rightarrow> int \<times> 'u \<times> 'k world"

text \<open>One batch of directory entries; the first result says that the visitor stopped.\<close>

fun walk_batch ::
  "('k, 'u) visitor \<Rightarrow> int \<Rightarrow> cstring list \<Rightarrow> 'u \<Rightarrow> 'k world \<Rightarrow> bool \<times> 'u \<times> 'k world" where
  "walk_batch visit dirfd [] u w = (False, u, w)"
| "walk_batch visit dirfd (name # names) u w =
     (if name = [] \<or> \<not> is_digit (hd name) then walk_batch visit dirfd names u w
      else if atoi name = dirfd then walk_batch visit dirfd names u w
      else
        (let (r, u', w') = visit (atoi name) u w
         in if r \<noteq> 0 then (True, u', w') else walk_batch visit dirfd names u' w'))"

text \<open>The \<^verbatim>\<open>while\<close> loop; \<open>n\<close> bounds the batches the directory stream yields.\<close>

fun walk_batches ::
  "'k kernel \<Rightarrow> ('k, 'u) visitor \<Rightarrow> int \<Rightarrow> nat \<Rightarrow> 'u \<Rightarrow> 'k world \<Rightarrow> 'u \<times> 'k world" where
  "walk_batches K visit dirfd 0 u w = (u, w)"
| "walk_batches K visit dirfd (Suc n) u w =
     (let (r, w1) = sys (k_getdents K dirfd) w
      in case r of
           None \<Rightarrow> (u, w1)
         | Some [] \<Rightarrow> (u, w1)
         | Some (name # names) \<Rightarrow>
             (let (stop, u', w2) = walk_batch visit dirfd (name # names) u w1
              in if stop then (u', w2) else walk_batches K visit dirfd n u' w2))"

definition wslcompat_walk_proc_self_fd ::
  "'k kernel \<Rightarrow> ('k, 'u) visitor \<Rightarrow> 'u \<Rightarrow> 'k world \<Rightarrow> 'u \<times> 'k world" where
  "wslcompat_walk_proc_self_fd K visit u w =
     (let (r, w1) = sys (k_open K ''/proc/self/fd'' (O_RDONLY OR O_DIRECTORY OR O_CLOEXEC)) w
      in case r of
           None \<Rightarrow> (u, w1)
         | Some dirfd \<Rightarrow>
             (let (u', w2) = walk_batches K visit dirfd (k_dir_batches K) u w1;
                  (c, w3) = sys (k_close K dirfd) w2
              in (u', w3)))"

section \<open>Invariants of a walk\<close>

text \<open>What every visit and every kernel call keep, the walk keeps.\<close>

lemma walk_batch_inv:
  assumes "\<And>fd u w. I w \<Longrightarrow> I (snd (snd (visit fd u w)))" and "I w"
  shows "I (snd (snd (walk_batch visit dirfd names u w)))"
  using assms(2)
proof (induction names arbitrary: u w)
  case Nil
  then show ?case by simp
next
  case (Cons name names)
  then show ?case using assms(1) by (simp add: Let_def case_prod_beta)
qed

declare walk_batch.simps(2) [simp del]

lemma walk_batches_inv:
  assumes "\<And>fd u w. I w \<Longrightarrow> I (snd (snd (visit fd u w)))" and "\<And>w w'. same_lib w w' \<Longrightarrow> I w \<Longrightarrow> I w'"
    and "I w"
  shows "I (snd (walk_batches K visit dirfd n u w))"
  using assms(3)
proof (induction n arbitrary: u w)
  case 0
  then show ?case by simp
next
  case (Suc n)
  have I1: "I (snd (sys (k_getdents K dirfd) w))" by (rule assms(2) [OF sys_same_lib Suc.prems])
  have "I (snd (snd (walk_batch visit dirfd names u (snd (sys (k_getdents K dirfd) w)))))" for names
    by (rule walk_batch_inv [OF assms(1) I1])
  with I1 Suc.IH show ?case
    by (simp add: Let_def case_prod_beta split: option.split list.split)
qed

lemma walk_inv:
  assumes "\<And>fd u w. I w \<Longrightarrow> I (snd (snd (visit fd u w)))" and "\<And>w w'. same_lib w w' \<Longrightarrow> I w \<Longrightarrow> I w'"
    and "I w"
  shows "I (snd (wslcompat_walk_proc_self_fd K visit u w))"
proof -
  let ?f = "k_open K ''/proc/self/fd'' (O_RDONLY OR O_DIRECTORY OR O_CLOEXEC)"
  have I1: "I (snd (sys ?f w))" by (rule assms(2) [OF sys_same_lib assms(3)])
  have "I (snd (walk_batches K visit dirfd n u (snd (sys ?f w))))" for dirfd n
    using assms(1,2) I1 by (rule walk_batches_inv)
  then have "I (snd (sys (k_close K dirfd) (snd (walk_batches K visit dirfd n u (snd (sys ?f w))))))"
    for dirfd n
    by (rule assms(2) [OF sys_same_lib])
  with I1 show ?thesis
    by (simp add: wslcompat_walk_proc_self_fd_def Let_def case_prod_beta split: option.split)
qed

section \<open>A walk over a known directory\<close>

text \<open>The descriptors one batch offers to the visitor.\<close>

definition batch_fds :: "int \<Rightarrow> cstring list \<Rightarrow> int list" where
  "batch_fds dirfd names =
     filter (\<lambda>fd. fd \<noteq> dirfd) (map atoi (filter (\<lambda>name. name \<noteq> [] \<and> is_digit (hd name)) names))"

fun visit_all :: "('k, 'u) visitor \<Rightarrow> int list \<Rightarrow> 'u \<Rightarrow> 'k world \<Rightarrow> bool \<times> 'u \<times> 'k world" where
  "visit_all visit [] u w = (False, u, w)"
| "visit_all visit (fd # fds) u w =
     (let (r, u', w') = visit fd u w in if r \<noteq> 0 then (True, u', w') else visit_all visit fds u' w')"

lemma walk_batch_visit_all: "walk_batch visit dirfd names u w = visit_all visit (batch_fds dirfd names) u w"
  by (induction names arbitrary: u w) (simp_all add: batch_fds_def case_prod_beta Let_def walk_batch.simps(2))

end
