(* ===== verification/Tunables.thy ===== *)
theory Tunables
  imports World
begin

text \<open>
  tunables.c and tunables.h: the options read from the extended attributes of the
  running binary, their lookup, the comma-separated lists, and the per-callsite cache of
  \<^verbatim>\<open>wslcompat_passthru\<close>.  A list is scanned in the memory of the \<^verbatim>\<open>options\<close> array itself,
  since the scan steps over the terminator of the value.
\<close>

abbreviation (input) MAX_OPTIONS :: nat where "MAX_OPTIONS \<equiv> 32"
abbreviation (input) KEY_BUF :: nat where "KEY_BUF \<equiv> 64"
abbreviation (input) VAL_BUF :: nat where "VAL_BUF \<equiv> 512"
abbreviation (input) LIST_BUF :: nat where "LIST_BUF \<equiv> 1024"
abbreviation (input) OPT_SIZE :: nat where "OPT_SIZE \<equiv> 576"

definition kPrefix :: cstring where
  "kPrefix = ''user.wslcompat.''"

section \<open>Reading the options\<close>

text \<open>
  \<^verbatim>\<open>lsearch\<close> appends the entry unless one with the same key is there, and never
  overwrites; \<open>None\<close> is the -1 of the C function.
\<close>

definition tunables_add_option :: "cstring \<Rightarrow> cstring \<Rightarrow> opt list \<Rightarrow> opt list option" where
  "tunables_add_option key val opts =
     (if MAX_OPTIONS \<le> length opts then None
      else if \<not> strncmp_eq (length kPrefix) key kPrefix then None
      else
        (let entry = \<lparr>opt_key = snprintf_str KEY_BUF (drop (length kPrefix) key),
                      opt_val = snprintf_str VAL_BUF val\<rparr>
         in Some (if \<exists>p\<in>set opts. opt_key p = opt_key entry then opts else opts @ [entry])))"

text \<open>
  The loop of the constructor over the names \<^verbatim>\<open>flistxattr\<close> returned: \<open>rest\<close> is what is
  left of the list buffer, \<open>getx\<close> the \<^verbatim>\<open>fgetxattr\<close> on \<^verbatim>\<open>/proc/self/exe\<close> with room for
  \<open>VAL_BUF - 1\<close> bytes.
\<close>

function tunables_scan :: "(cstring \<Rightarrow> bytes option) \<Rightarrow> bytes \<Rightarrow> opt list \<Rightarrow> opt list" where
  "tunables_scan getx rest opts =
     (if rest = [] then opts
      else
        (let cur = cstr rest; next = drop (length cur + 1) rest
         in if \<not> strncmp_eq (length kPrefix) cur kPrefix then tunables_scan getx next opts
            else (case getx cur of
                    None \<Rightarrow> tunables_scan getx next opts
                  | Some val \<Rightarrow>
                      (case tunables_add_option cur (cstr val) opts of
                         None \<Rightarrow> opts
                       | Some opts' \<Rightarrow> tunables_scan getx next opts'))))"
  by pat_completeness auto
termination
  by (relation "measure (\<lambda>(getx, rest, opts). length rest)") (auto simp: Let_def)

declare tunables_scan.simps [simp del]

text \<open>\<open>exe\<close> is the outcome of opening the binary and listing its attributes.\<close>

definition tunables_init :: "bytes option \<Rightarrow> (cstring \<Rightarrow> bytes option) \<Rightarrow> opt list" where
  "tunables_init exe getx =
     (case exe of None \<Rightarrow> [] | Some names \<Rightarrow> tunables_scan getx names [])"

section \<open>Lookup\<close>

text \<open>The default may be a null pointer, \<open>None\<close>.\<close>

definition wslcompat_tunable_str :: "opt list \<Rightarrow> cstring \<Rightarrow> cstring option \<Rightarrow> cstring option" where
  "wslcompat_tunable_str opts key dflt =
     (case find (\<lambda>p. opt_key p = key) opts of Some p \<Rightarrow> Some (opt_val p) | None \<Rightarrow> dflt)"

text \<open>The bytes of one \<^verbatim>\<open>struct opt\<close>, NUL padded, and of the whole static array.\<close>

definition zpad :: "nat \<Rightarrow> cstring \<Rightarrow> bytes" where
  "zpad n s = s @ replicate (n - length s) NUL"

definition opt_bytes :: "opt \<Rightarrow> bytes" where
  "opt_bytes p = zpad KEY_BUF (opt_key p) @ zpad VAL_BUF (opt_val p)"

definition options_mem :: "opt list \<Rightarrow> bytes" where
  "options_mem opts =
     concat (map opt_bytes opts)
       @ replicate (OPT_SIZE * (MAX_OPTIONS - length opts)) NUL"

text \<open>
  The \<^verbatim>\<open>for\<close> loop of \<^verbatim>\<open>wslcompat_tunable_list\<close>: \<open>m\<close> is the memory from \<open>s = p\<close> on.  \<^verbatim>\<open>strchrnul\<close>
  ends the entry at a comma or at the NUL, and the increment steps over that character
  either way.  \<open>None\<close> is a read past the end of the array.
\<close>

function list_scan :: "cstring \<Rightarrow> bytes \<Rightarrow> bool option" where
  "list_scan contains m =
     (case m of
        [] \<Rightarrow> None
      | c # _ \<Rightarrow>
          if c = NUL then Some False
          else
            (let e = takeWhile (\<lambda>x. x \<noteq> CHR '','' \<and> x \<noteq> NUL) m
             in if length e = length m then None
                else if length contains = length e \<and> strncmp_eq (length e) e contains
                then Some True
                else list_scan contains (drop (length e + 1) m)))"
  by pat_completeness auto
termination
  by (relation "measure (\<lambda>(contains, m). length m)") (auto simp: Let_def)

declare list_scan.simps [simp del]

definition tunable_list_mem :: "opt list \<Rightarrow> cstring \<Rightarrow> cstring \<Rightarrow> bool option" where
  "tunable_list_mem opts key contains =
     (case find_index (\<lambda>p. opt_key p = key) opts of
        None \<Rightarrow> Some False
      | Some i \<Rightarrow>
          list_scan contains (drop (i * OPT_SIZE + KEY_BUF) (options_mem opts)))"

text \<open>A scan that left the array has no defined result; it counts as no match.\<close>

definition wslcompat_tunable_list :: "opt list \<Rightarrow> cstring \<Rightarrow> cstring \<Rightarrow> bool" where
  "wslcompat_tunable_list opts key contains \<longleftrightarrow> tunable_list_mem opts key contains = Some True"

definition wslcompat_tunable_int :: "opt list \<Rightarrow> cstring \<Rightarrow> int \<Rightarrow> int" where
  "wslcompat_tunable_int opts key dflt =
     (case wslcompat_tunable_str opts key None of None \<Rightarrow> dflt | Some s \<Rightarrow> strtol_base0 s)"

definition wslcompat_tunable_bool :: "opt list \<Rightarrow> cstring \<Rightarrow> bool \<Rightarrow> bool" where
  "wslcompat_tunable_bool opts key dflt =
     (case wslcompat_tunable_str opts key None of
        None \<Rightarrow> dflt
      | Some s \<Rightarrow>
          if s = ''1'' \<or> s = ''true'' \<or> s = ''on'' \<or> s = ''yes'' then True
          else if s = ''0'' \<or> s = ''false'' \<or> s = ''off'' \<or> s = ''no'' then False
          else dflt)"

section \<open>Enabling and disabling\<close>

definition wslcompat_enabled :: "bool \<Rightarrow> opt list \<Rightarrow> cstring \<Rightarrow> bool" where
  "wslcompat_enabled envdis opts name =
     (if envdis then False
      else if wslcompat_tunable_list opts ''disabled'' name then False
      else if wslcompat_tunable_str opts ''enabled'' None = None then True
      else if wslcompat_tunable_list opts ''enabled'' name then True
      else False)"

text \<open>\<^verbatim>\<open>wslcompat_passthru\<close> at a callsite, without its cache.\<close>

definition passthru :: "cstring \<Rightarrow> 'k world \<Rightarrow> bool" where
  "passthru name w \<longleftrightarrow> \<not> wslcompat_enabled (env_disable w) (options w) name"

text \<open>The macro with its two static variables: the cached name and the cached result.\<close>

definition wslcompat_passthru ::
  "cstring option \<times> bool \<Rightarrow> cstring \<Rightarrow> 'k world \<Rightarrow> bool \<times> (cstring option \<times> bool)" where
  "wslcompat_passthru cache name w =
     (let cache' = (if fst cache \<noteq> Some name
                    then (Some name, \<not> wslcompat_enabled (env_disable w) (options w) name)
                    else cache)
      in (snd cache', cache'))"

section \<open>The options are well formed\<close>

definition wf_opt :: "opt \<Rightarrow> bool" where
  "wf_opt p \<longleftrightarrow> length (opt_key p) < KEY_BUF \<and> length (opt_val p) < VAL_BUF
     \<and> NUL \<notin> set (opt_key p) \<and> NUL \<notin> set (opt_val p)"

definition wf_options :: "opt list \<Rightarrow> bool" where
  "wf_options opts \<longleftrightarrow> length opts \<le> MAX_OPTIONS \<and> distinct (map opt_key opts) \<and> list_all wf_opt opts"

lemma NUL_notin_cstr: "NUL \<notin> set (cstr b)"
  by (auto simp: cstr_def dest: set_takeWhileD)

lemma wf_opt_snprintf:
  assumes "NUL \<notin> set key" and "NUL \<notin> set val"
  shows "wf_opt \<lparr>opt_key = snprintf_str KEY_BUF (drop n key), opt_val = snprintf_str VAL_BUF val\<rparr>"
proof -
  have "NUL \<notin> set (take j (drop n key))" and "NUL \<notin> set (take j val)" for j
    using assms by (auto dest!: in_set_takeD in_set_dropD)
  then show ?thesis by (auto simp: wf_opt_def snprintf_str_def)
qed

lemma tunables_add_option_wf:
  assumes "wf_options opts" and "NUL \<notin> set key" and "NUL \<notin> set val"
    and "tunables_add_option key val opts = Some opts'"
  shows "wf_options opts'"
proof -
  define entry where "entry = \<lparr>opt_key = snprintf_str KEY_BUF (drop (length kPrefix) key),
      opt_val = snprintf_str VAL_BUF val\<rparr>"
  have wf: "wf_opt entry" unfolding entry_def using assms(2,3) by (rule wf_opt_snprintf)
  from assms(4) have "length opts < MAX_OPTIONS"
    and "opts' = (if \<exists>p\<in>set opts. opt_key p = opt_key entry then opts else opts @ [entry])"
    by (auto simp: tunables_add_option_def Let_def entry_def split: if_splits)
  with assms(1) wf show ?thesis
    by (auto simp: wf_options_def split: if_splits)
qed

lemma tunables_scan_wf: "wf_options opts \<Longrightarrow> wf_options (tunables_scan getx rest opts)"
proof (induction getx rest opts rule: tunables_scan.induct)
  case (1 getx rest opts)
  note unfold = tunables_scan.simps [of getx rest opts]
  let ?cur = "cstr rest" let ?next = "drop (length (cstr rest) + 1) rest"
  show ?case
  proof (cases "rest = [] \<or> \<not> strncmp_eq (length kPrefix) ?cur kPrefix \<or> getx ?cur = None")
    case True
    with 1 show ?thesis by (auto simp: unfold Let_def)
  next
    case False
    then obtain val where val: "getx ?cur = Some val" by auto
    show ?thesis
    proof (cases "tunables_add_option ?cur (cstr val) opts")
      case None
      with False val "1.prems" show ?thesis by (simp add: unfold Let_def)
    next
      case (Some opts')
      with "1.prems" have "wf_options opts'"
        using tunables_add_option_wf [OF _ NUL_notin_cstr NUL_notin_cstr] by blast
      with False val Some "1.IH"(3) [OF _ refl refl _ val Some] show ?thesis
        by (simp add: unfold Let_def)
    qed
  qed
qed

section \<open>The list scan\<close>

text \<open>The entries of a comma-separated value; an empty last entry does not count.\<close>

function comma_items :: "cstring \<Rightarrow> cstring list" where
  "comma_items s =
     (if s = [] then []
      else takeWhile (\<lambda>x. x \<noteq> CHR '','') s
           # comma_items (drop (length (takeWhile (\<lambda>x. x \<noteq> CHR '','') s) + 1) s))"
  by pat_completeness auto
termination
  by (relation "measure length") auto

declare comma_items.simps [simp del]

lemma takeWhile_entry:
  assumes "NUL \<notin> set val"
  shows "takeWhile (\<lambda>x. x \<noteq> CHR '','' \<and> x \<noteq> NUL) (val @ NUL # rest)
       = takeWhile (\<lambda>x. x \<noteq> CHR '','') val"
  using assms by (induction val) auto

lemma list_scan_step:
  assumes "NUL \<notin> set val" and "val \<noteq> []"
  shows "list_scan contains (val @ NUL # rest) =
     (let e = takeWhile (\<lambda>x. x \<noteq> CHR '','') val
      in if contains = e then Some True
         else list_scan contains (drop (length e + 1) (val @ NUL # rest)))"
proof -
  obtain c cs where val: "val = c # cs" using assms(2) by (cases val) auto
  let ?m = "val @ NUL # rest"
  let ?e = "takeWhile (\<lambda>x. x \<noteq> CHR '','') val"
  have e: "takeWhile (\<lambda>x. x \<noteq> CHR '','' \<and> x \<noteq> NUL) ?m = ?e"
    using assms(1) by (rule takeWhile_entry)
  have "length ?e \<le> length val" by (rule length_takeWhile_le)
  then have len: "length ?e \<noteq> length ?m" by simp
  have eq: "length contains = length ?e \<and> strncmp_eq (length ?e) ?e contains \<longleftrightarrow> contains = ?e"
    by (auto simp: strncmp_eq_def)
  have "c \<noteq> NUL" using assms(1) val by auto
  with e len eq show ?thesis
    by (simp only: list_scan.simps [of contains ?m] Let_def) (simp add: val)
qed

lemma list_scan_NUL [simp]: "list_scan contains (NUL # rest) = Some False"
  by (simp add: list_scan.simps)

lemma list_scan_items:
  assumes "NUL \<notin> set val"
  shows "list_scan contains (val @ NUL # NUL # rest) = Some (contains \<in> set (comma_items val))"
  using assms
proof (induction val rule: comma_items.induct)
  case (1 s)
  show ?case
  proof (cases "s = []")
    case True
    then show ?thesis by (simp add: comma_items.simps)
  next
    case False
    let ?e = "takeWhile (\<lambda>x. x \<noteq> CHR '','') s"
    let ?t = "drop (length ?e + 1) s"
    have items: "comma_items s = ?e # comma_items ?t"
      using False by (simp add: comma_items.simps [of s])
    have noNUL: "NUL \<notin> set ?t" using "1.prems" by (auto dest: in_set_dropD)
    have tail: "list_scan contains (drop (length ?e + 1) (s @ NUL # NUL # rest))
        = Some (contains \<in> set (comma_items ?t))"
    proof (cases "length ?e = length s")
      case True
      then have "?t = []" by simp
      with True show ?thesis by (simp add: comma_items.simps)
    next
      case False
      with length_takeWhile_le [of "\<lambda>x. x \<noteq> CHR '',''" s] have "length ?e + 1 \<le> length s" by simp
      then have "drop (length ?e + 1) (s @ NUL # NUL # rest) = ?t @ NUL # NUL # rest" by simp
      with "1.IH" [OF \<open>s \<noteq> []\<close> noNUL] show ?thesis by simp
    qed
    show ?thesis
      using list_scan_step [OF "1.prems" False, of contains "NUL # rest"] tail items
      by (auto simp: Let_def)
  qed
qed

section \<open>Where a value lies in the array\<close>

lemma length_zpad: "length s \<le> n \<Longrightarrow> length (zpad n s) = n"
  by (simp add: zpad_def)

lemma length_opt_bytes: "wf_opt p \<Longrightarrow> length (opt_bytes p) = OPT_SIZE"
  by (simp add: opt_bytes_def length_zpad wf_opt_def)

lemma drop_concat_uniform:
  assumes "\<forall>x\<in>set xs. length x = n" and "i \<le> length xs"
  shows "drop (i * n) (concat xs) = concat (drop i xs)"
  using assms
proof (induction xs arbitrary: i)
  case Nil
  then show ?case by simp
next
  case (Cons x xs)
  then show ?case by (cases i) auto
qed

lemma options_mem_value:
  assumes "wf_options opts" and "i < length opts"
  shows "\<exists>tail. drop (i * OPT_SIZE + KEY_BUF) (options_mem opts)
           = zpad VAL_BUF (opt_val (opts ! i)) @ concat (map opt_bytes (drop (Suc i) opts)) @ tail"
proof -
  let ?n = "OPT_SIZE"
  have uni: "\<forall>x\<in>set (map opt_bytes opts). length x = ?n"
    using assms(1) by (auto simp: wf_options_def list_all_iff length_opt_bytes)
  define tail where "tail = replicate (?n * (MAX_OPTIONS - length opts)) NUL"
  have "length (concat (map opt_bytes opts)) = length opts * ?n"
    using uni by (induction opts) auto
  moreover have "i * ?n \<le> length opts * ?n" using assms(2) by simp
  ultimately have "drop (i * ?n) (options_mem opts) = concat (map opt_bytes (drop i opts)) @ tail"
    using drop_concat_uniform [OF uni, of i] assms(2)
    by (simp add: options_mem_def tail_def drop_map)
  also have "drop i opts = opts ! i # drop (Suc i) opts"
    using assms(2) by (rule Cons_nth_drop_Suc [symmetric])
  finally have base: "drop (i * ?n) (options_mem opts)
      = opt_bytes (opts ! i) @ concat (map opt_bytes (drop (Suc i) opts)) @ tail" by simp
  have "length (opt_key (opts ! i)) \<le> KEY_BUF"
    using assms by (auto simp: wf_options_def list_all_length wf_opt_def)
  then have skip: "drop KEY_BUF (opt_bytes (opts ! i) @ r) = zpad VAL_BUF (opt_val (opts ! i)) @ r" for r
    by (simp add: opt_bytes_def length_zpad)
  have "drop KEY_BUF (drop (i * ?n) (options_mem opts))
      = zpad VAL_BUF (opt_val (opts ! i)) @ concat (map opt_bytes (drop (Suc i) opts)) @ tail"
    unfolding base by (rule skip)
  then show ?thesis by (auto simp: add.commute)
qed

lemma find_find_index:
  "find P xs = map_option (nth xs) (find_index P xs)"
  by (induction xs) (auto simp: option.map_comp comp_def split: if_splits)

lemma tunable_strE:
  assumes "wf_options opts" and "wslcompat_tunable_str opts key None = Some val"
  obtains i where "find_index (\<lambda>p. opt_key p = key) opts = Some i" and "i < length opts"
    and "opt_val (opts ! i) = val" and "wf_opt (opts ! i)"
proof -
  from assms(2) obtain i where i: "find_index (\<lambda>p. opt_key p = key) opts = Some i"
      "opt_val (opts ! i) = val"
    by (auto simp: wslcompat_tunable_str_def find_find_index split: option.splits)
  from find_index_SomeD [OF i(1)] have "i < length opts" by simp
  with i assms(1) that show thesis by (auto simp: wf_options_def list_all_length)
qed

section \<open>Properties\<close>

text \<open>
  C37: Whatever attributes the binary carries, the constructor leaves a well-formed option
  table: at most 32 options, keys and values that fit their buffers with a terminator,
  and no key twice.
\<close>

theorem tunables_init_wf: "wf_options (tunables_init exe getx)"
  by (auto simp: tunables_init_def wf_options_def [of "[]"] intro!: tunables_scan_wf split: option.split)

lemma list_mem_short:
  assumes "wf_options opts" and "find_index (\<lambda>p. opt_key p = key) opts = Some i"
    and "length (opt_val (opts ! i)) < VAL_BUF - 1"
  shows "tunable_list_mem opts key contains = Some (contains \<in> set (comma_items (opt_val (opts ! i))))"
proof -
  let ?val = "opt_val (opts ! i)"
  from find_index_SomeD [OF assms(2)] have i: "i < length opts" by simp
  obtain tail where mem: "drop (i * OPT_SIZE + KEY_BUF) (options_mem opts)
      = zpad VAL_BUF ?val @ concat (map opt_bytes (drop (Suc i) opts)) @ tail"
    using options_mem_value [OF assms(1) i] by auto
  have "VAL_BUF - length ?val = Suc (Suc (VAL_BUF - 2 - length ?val))"
    using assms(3) by simp
  then have "zpad VAL_BUF ?val = ?val @ NUL # NUL # replicate (VAL_BUF - 2 - length ?val) NUL"
    by (simp add: zpad_def)
  moreover have "NUL \<notin> set ?val"
    using assms(1) i by (auto simp: wf_options_def list_all_length wf_opt_def)
  ultimately show ?thesis
    by (simp add: tunable_list_mem_def assms(2) mem list_scan_items del: replicate.simps)
qed

text \<open>
  C39: Looking a name up in a comma-separated tunable answers exactly whether the name is
  one of its entries, for every value that leaves a spare byte in its buffer; the scan
  then stays inside the option array.
\<close>

theorem tunable_list_correct:
  assumes "wf_options opts" and "wslcompat_tunable_str opts key None = Some val"
    and "length val < VAL_BUF - 1"
  shows "tunable_list_mem opts key contains = Some (contains \<in> set (comma_items val))"
proof -
  obtain i where i: "find_index (\<lambda>p. opt_key p = key) opts = Some i" "opt_val (opts ! i) = val"
    using assms(1,2) by (rule tunable_strE)
  with list_mem_short [OF assms(1) i(1)] assms(3) show ?thesis by simp
qed

theorem tunable_list_correct_witness:
  "tunable_list_mem [\<lparr>opt_key = ''disabled'', opt_val = ''fcntl,mmap''\<rparr>] ''disabled'' ''mmap''
     = Some True"
proof -
  let ?o = "[\<lparr>opt_key = ''disabled'', opt_val = ''fcntl,mmap''\<rparr>]"
  have "wf_options ?o" by (simp add: wf_options_def wf_opt_def NUL_def)
  moreover have "wslcompat_tunable_str ?o ''disabled'' None = Some ''fcntl,mmap''"
    by (simp add: wslcompat_tunable_str_def)
  moreover have "comma_items ''fcntl,mmap'' = [''fcntl'', ''mmap'']"
    by (simp add: comma_items.simps)
  ultimately show ?thesis using tunable_list_correct [of ?o "''disabled''" "''fcntl,mmap''" "''mmap''"]
    by simp
qed

text \<open>
  A value that fills its buffer (511 characters) makes the scan step over the only NUL
  and go on in the next element of the array: the key of the following option is read as
  one more entry of the list.
\<close>

lemma list_scan_overrun:
  assumes "NUL \<notin> set val" and "val \<noteq> []" and "last val \<noteq> CHR '',''" and "contains \<notin> set (comma_items val)"
  shows "list_scan contains (val @ NUL # rest) = list_scan contains rest"
  using assms
proof (induction val rule: comma_items.induct)
  case (1 s)
  let ?e = "takeWhile (\<lambda>x. x \<noteq> CHR '','') s"
  let ?t = "drop (length ?e + 1) s"
  have items: "comma_items s = ?e # comma_items ?t"
    using "1.prems" by (simp add: comma_items.simps [of s])
  have step: "list_scan contains (s @ NUL # rest)
      = list_scan contains (drop (length ?e + 1) (s @ NUL # rest))"
    using list_scan_step [OF "1.prems"(1,2), of contains rest] "1.prems"(4) items
    by (auto simp: Let_def)
  show ?case
  proof (cases "length ?e = length s")
    case True
    with step show ?thesis by simp
  next
    case False
    with length_takeWhile_le [of "\<lambda>x. x \<noteq> CHR '',''" s] have le: "length ?e < length s" by simp
    have "?t \<noteq> []"
    proof
      assume "?t = []"
      with le have "length s = Suc (length ?e)" by simp
      then have "last s = s ! length ?e" using "1.prems"(2) by (simp add: last_conv_nth)
      moreover have "s ! length ?e = CHR '',''" using nth_length_takeWhile [OF le] by simp
      ultimately show False using "1.prems"(3) by simp
    qed
    moreover have "NUL \<notin> set ?t" using "1.prems"(1) by (auto dest: in_set_dropD)
    moreover have "last ?t \<noteq> CHR '',''" using \<open>?t \<noteq> []\<close> "1.prems"(3) by (simp add: last_drop)
    moreover have "contains \<notin> set (comma_items ?t)" using "1.prems"(4) items by simp
    ultimately have "list_scan contains (?t @ NUL # rest) = list_scan contains rest"
      using "1.IH" "1.prems"(2) by blast
    with step le show ?thesis by simp
  qed
qed

definition listed :: "opt list \<Rightarrow> cstring \<Rightarrow> cstring \<Rightarrow> bool" where
  "listed opts key name \<longleftrightarrow>
     (case wslcompat_tunable_str opts key None of None \<Rightarrow> False | Some val \<Rightarrow> name \<in> set (comma_items val))"

definition short_list :: "opt list \<Rightarrow> cstring \<Rightarrow> bool" where
  "short_list opts key \<longleftrightarrow>
     (case wslcompat_tunable_str opts key None of None \<Rightarrow> True | Some val \<Rightarrow> length val < VAL_BUF - 1)"

lemma tunable_str_None_index:
  "wslcompat_tunable_str opts key None = None \<longleftrightarrow> find_index (\<lambda>p. opt_key p = key) opts = None"
  by (simp add: wslcompat_tunable_str_def find_find_index split: option.split)

lemma tunable_list_iff_listed:
  assumes "wf_options opts" and "short_list opts key"
  shows "wslcompat_tunable_list opts key name \<longleftrightarrow> listed opts key name"
proof (cases "wslcompat_tunable_str opts key None")
  case None
  then have "find_index (\<lambda>p. opt_key p = key) opts = None" by (simp only: tunable_str_None_index)
  with None show ?thesis
    by (simp add: wslcompat_tunable_list_def tunable_list_mem_def listed_def)
next
  case (Some val)
  obtain i where i: "find_index (\<lambda>p. opt_key p = key) opts = Some i" "i < length opts"
      "opt_val (opts ! i) = val" "wf_opt (opts ! i)"
    using assms(1) Some by (rule tunable_strE)
  from list_mem_short [OF assms(1) i(1)] Some assms(2) i show ?thesis
    by (simp add: wslcompat_tunable_list_def listed_def short_list_def)
qed

text \<open>
  C38: A polyfill is active exactly when the kill switch is not in the environment, the
  \<^verbatim>\<open>disabled\<close> list does not name it, and the \<^verbatim>\<open>enabled\<close> list is absent or names it;
  \<^verbatim>\<open>disabled\<close> wins over \<^verbatim>\<open>enabled\<close>.
\<close>

theorem enabled_spec:
  assumes "wf_options opts" and "short_list opts ''disabled''" and "short_list opts ''enabled''"
  shows "wslcompat_enabled envdis opts name \<longleftrightarrow>
     \<not> envdis \<and> \<not> listed opts ''disabled'' name
     \<and> (wslcompat_tunable_str opts ''enabled'' None = None \<or> listed opts ''enabled'' name)"
  using assms by (simp add: wslcompat_enabled_def tunable_list_iff_listed)

theorem enabled_spec_witness:
  "\<not> wslcompat_enabled False
     [\<lparr>opt_key = ''disabled'', opt_val = ''mmap''\<rparr>, \<lparr>opt_key = ''enabled'', opt_val = ''mmap,open''\<rparr>]
     ''mmap''
   \<and> wslcompat_enabled False
     [\<lparr>opt_key = ''disabled'', opt_val = ''mmap''\<rparr>, \<lparr>opt_key = ''enabled'', opt_val = ''mmap,open''\<rparr>]
     ''open''"
proof -
  let ?o = "[\<lparr>opt_key = ''disabled'', opt_val = ''mmap''\<rparr>, \<lparr>opt_key = ''enabled'', opt_val = ''mmap,open''\<rparr>]"
  have wf: "wf_options ?o" by (simp add: wf_options_def wf_opt_def NUL_def)
  have short: "short_list ?o ''disabled''" "short_list ?o ''enabled''"
    by (simp_all add: short_list_def wslcompat_tunable_str_def)
  show ?thesis
    using enabled_spec [OF wf short, of False "''mmap''"] enabled_spec [OF wf short, of False "''open''"]
    by (simp add: listed_def wslcompat_tunable_str_def comma_items.simps)
qed

text \<open>A callsite's cache is empty or holds the uncached answer for its name.\<close>

definition cache_ok :: "cstring option \<times> bool \<Rightarrow> 'k world \<Rightarrow> bool" where
  "cache_ok c w \<longleftrightarrow> (case fst c of None \<Rightarrow> True | Some name \<Rightarrow> snd c = passthru name w)"

text \<open>
  C40: The per-callsite cache never changes an answer: once the cache holds what the
  options say, every later call with the same options and environment returns the
  uncached answer and leaves the cache coherent.
\<close>

theorem passthru_cache_transparent:
  assumes "cache_ok c w" and "wslcompat_passthru c name w = (r, c')"
    and "env_disable w' = env_disable w" and "options w' = options w"
  shows "r = passthru name w \<and> cache_ok c' w'"
  using assms
  by (auto simp: wslcompat_passthru_def cache_ok_def passthru_def Let_def split: if_splits option.splits)

theorem passthru_cache_transparent_witness:
  "fst (wslcompat_passthru (Some ''mmap'', True) ''mmap'' ((static_world ())\<lparr>env_disable := True\<rparr>))"
  using passthru_cache_transparent
    [of "(Some ''mmap'', True)" "(static_world ())\<lparr>env_disable := True\<rparr>" "''mmap''" True
      "(Some ''mmap'', True)" "(static_world ())\<lparr>env_disable := True\<rparr>"]
  by (simp add: wslcompat_passthru_def cache_ok_def passthru_def wslcompat_enabled_def)

end
