(* ===== verification/Tmpfile.thy ===== *)
theory Tmpfile
  imports Tunables
begin

text \<open>
  The O_TMPFILE polyfill of open.c and the birth time it records.  The synthetic
  descriptors of synth.c get their backing inode from it.
\<close>

abbreviation (input) XATTR_CREATE :: int where "XATTR_CREATE \<equiv> 1"

definition BTIME_XATTR :: cstring where
  "BTIME_XATTR = ''user.wslcompat.btime''"

text \<open>The text \<^verbatim>\<open>"%ld.%09ld"\<close> of a time stamp, cut to the 32-byte buffer.\<close>

definition print_btime :: "int \<Rightarrow> int \<Rightarrow> cstring" where
  "print_btime sec nsec = show_int sec @ ''.'' @ zero_pad 9 (show_int nsec)"

definition record_btime_now :: "'k kernel \<Rightarrow> int \<Rightarrow> 'k world \<Rightarrow> 'k world" where
  "record_btime_now K fd w =
     (let (ts, w1) = sys (k_clock_gettime K CLOCK_REALTIME) w
      in case ts of
           None \<Rightarrow> w1
         | Some (sec, nsec) \<Rightarrow>
             snd (sys (k_fsetxattr K fd BTIME_XATTR (snprintf_str 32 (print_btime sec nsec)) XATTR_CREATE) w1))"

definition tmpfile_name :: "64 word \<Rightarrow> cstring" where
  "tmpfile_name r = ''.wslcompat.'' @ zero_pad 16 (show_hex (unat r))"

definition tmpfile_oflags :: "int \<Rightarrow> int" where
  "tmpfile_oflags flags = (flags AND NOT O_TMPFILE) OR O_CREAT OR O_EXCL"

definition handle_tmpfile_at :: "'k kernel \<Rightarrow> int \<Rightarrow> cstring \<Rightarrow> int \<Rightarrow> int \<Rightarrow> ('k, int) call" where
  "handle_tmpfile_at K dirfd path flags mode w =
     (let (d, w1) = sys (k_openat K dirfd path (O_PATH OR O_DIRECTORY OR O_CLOEXEC) 0) w
      in case d of
           None \<Rightarrow> (None, w1)
         | Some realdir \<Rightarrow>
             (let (rnd, w2) = sys (k_getrandom K) w1;
                  (r, w3) =
                    (case rnd of
                       None \<Rightarrow> (None, w2)
                     | Some n \<Rightarrow>
                         (let (fd, v) = sys (k_openat K realdir (tmpfile_name n) (tmpfile_oflags flags) mode) w2
                          in case fd of
                               None \<Rightarrow> (None, v)
                             | Some f \<Rightarrow>
                                 (Some f, snd (sys (k_unlinkat K realdir (tmpfile_name n) 0)
                                                (record_btime_now K f v)))));
                  (c, w4) = sys (k_close K realdir) w3
              in (r, w4)))"

text \<open>
  The call \<^verbatim>\<open>open("/tmp", O_RDWR | O_TMPFILE | O_CLOEXEC, 0600)\<close> of \<^verbatim>\<open>wslcompat_synth_open\<close>, through
  the open and openat shims; glibc's open is openat at the working directory.
\<close>

abbreviation (input) BACKING_FLAGS :: int where
  "BACKING_FLAGS \<equiv> O_RDWR OR O_TMPFILE OR O_CLOEXEC"

definition open_backing :: "'k kernel \<Rightarrow> ('k, int) call" where
  "open_backing K w =
     (if passthru ''open'' w \<or> passthru ''openat'' w
      then sys (k_openat K AT_FDCWD ''/tmp'' BACKING_FLAGS 384) w
      else handle_tmpfile_at K AT_FDCWD ''/tmp'' BACKING_FLAGS 384 w)"

section \<open>Frame\<close>

lemma same_lib_record_btime [simp]: "same_lib w (record_btime_now K fd v) = same_lib w v"
  by (simp add: record_btime_now_def Let_def case_prod_beta split: option.split)

lemma handle_tmpfile_same_lib: "same_lib w (snd (handle_tmpfile_at K dirfd path flags mode w))"
  by (simp add: handle_tmpfile_at_def Let_def case_prod_beta split: option.split)

lemma same_lib_open_backing [simp]: "same_lib w (snd (open_backing K v)) = same_lib w v"
  by (rule same_lib_step) (simp add: open_backing_def handle_tmpfile_same_lib)

end
