(* ===== verification/Synth.thy ===== *)
theory Synth
  imports Override Walk Tmpfile
begin

text \<open>
  The synthetic descriptors of synth.c: a table of reference-counted entries, found by
  the device and inode of their backing file, published by \<^verbatim>\<open>synth_register\<close>, pinned while
  in use and torn down by the last unpin.  A handler table (\<^verbatim>\<open>struct synth_ops\<close>) is a record
  of optional functions on the library's state; the definitions take \<open>OPS\<close>, what each
  \<^verbatim>\<open>e->ops\<close> pointer points to.  A reference count is an unbounded integer here: it counts
  descriptors and pins, which cannot reach \<open>2 ^ 31\<close>.
\<close>

section \<open>Handler tables\<close>

datatype synth_op_kind = SYNTH_OP_POLL | SYNTH_OP_IO | SYNTH_OP_STAT | SYNTH_OP_PREEXEC

text \<open>The fields of \<^verbatim>\<open>struct termios\<close> the library looks at.\<close>

record termios =
  c_icanon :: bool
  c_vmin :: "8 word"
  c_vtime :: "8 word"

text \<open>The third argument of ioctl: a number, or a pointer to a terminal setting or to a pid.\<close>

datatype uarg = Arg_val int | Arg_termios termios | Arg_pid int

record mmap_args =
  ma_addr :: "64 word"
  ma_length :: "64 word"
  ma_prot :: int
  ma_flags :: int
  ma_fd :: int
  ma_offset :: int

record 'k synth_ops =
  op_read :: "(nat \<Rightarrow> nat \<Rightarrow> ('k, bytes) call) option"
  op_write :: "(nat \<Rightarrow> bytes \<Rightarrow> ('k, int) call) option"
  op_pread :: "(nat \<Rightarrow> nat \<Rightarrow> int \<Rightarrow> ('k, bytes) call) option"
  op_pwrite :: "(nat \<Rightarrow> bytes \<Rightarrow> int \<Rightarrow> ('k, int) call) option"
  op_readv :: "(nat \<Rightarrow> nat list \<Rightarrow> ('k, bytes) call) option"
  op_writev :: "(nat \<Rightarrow> bytes list \<Rightarrow> ('k, int) call) option"
  op_preadv :: "(nat \<Rightarrow> nat list \<Rightarrow> int \<Rightarrow> ('k, bytes) call) option"
  op_pwritev :: "(nat \<Rightarrow> bytes list \<Rightarrow> int \<Rightarrow> ('k, int) call) option"
  op_lseek :: "(nat \<Rightarrow> int \<Rightarrow> int \<Rightarrow> ('k, int) call) option"
  op_mmap :: "(nat \<Rightarrow> mmap_args \<Rightarrow> ('k, 64 word) call) option"
  op_ioctl :: "(nat \<Rightarrow> int \<Rightarrow> uarg \<Rightarrow> ('k, int \<times> uarg) call) option"
  op_fcntl :: "(nat \<Rightarrow> int \<Rightarrow> int \<Rightarrow> ('k, int) call) option"
  op_fsync :: "(nat \<Rightarrow> ('k, int) call) option"
  op_fdatasync :: "(nat \<Rightarrow> ('k, int) call) option"
  op_ftruncate :: "(nat \<Rightarrow> int \<Rightarrow> ('k, int) call) option"
  op_fchmod :: "(nat \<Rightarrow> int \<Rightarrow> ('k, int) call) option"
  op_fchown :: "(nat \<Rightarrow> int \<Rightarrow> int \<Rightarrow> ('k, int) call) option"
  op_fallocate :: "(nat \<Rightarrow> int \<Rightarrow> int \<Rightarrow> int \<Rightarrow> ('k, int) call) option"
  op_fgetxattr :: "(nat \<Rightarrow> cstring \<Rightarrow> nat \<Rightarrow> ('k, bytes) call) option"
  op_fsetxattr :: "(nat \<Rightarrow> cstring \<Rightarrow> bytes \<Rightarrow> int \<Rightarrow> ('k, int) call) option"
  op_flistxattr :: "(nat \<Rightarrow> nat \<Rightarrow> ('k, bytes) call) option"
  op_fremovexattr :: "(nat \<Rightarrow> cstring \<Rightarrow> ('k, int) call) option"
  op_close :: "(nat \<Rightarrow> 'k world \<Rightarrow> 'k world) option"
  op_dup :: "(nat \<Rightarrow> 'k world \<Rightarrow> 'k world) option"
  op_release :: "(nat \<Rightarrow> 'k world \<Rightarrow> 'k world) option"
  op_passthru :: "(nat \<Rightarrow> synth_op_kind \<Rightarrow> 'k world \<Rightarrow> int \<times> 'k world) option"
  op_relocate :: "(nat \<Rightarrow> int \<Rightarrow> 'k world \<Rightarrow> int \<times> 'k world) option"
  op_describe :: "(nat \<Rightarrow> nat \<Rightarrow> 'k world \<Rightarrow> cstring \<times> 'k world) option"

type_synonym 'k ops_table = "ops_id \<Rightarrow> 'k synth_ops"

text \<open>A table with every member a null pointer, the base of the designated initialisers.\<close>

definition no_ops :: "'k synth_ops" where
  "no_ops =
     \<lparr>op_read = None, op_write = None, op_pread = None, op_pwrite = None, op_readv = None,
      op_writev = None, op_preadv = None, op_pwritev = None, op_lseek = None, op_mmap = None,
      op_ioctl = None, op_fcntl = None, op_fsync = None, op_fdatasync = None, op_ftruncate = None,
      op_fchmod = None, op_fchown = None, op_fallocate = None, op_fgetxattr = None,
      op_fsetxattr = None, op_flistxattr = None, op_fremovexattr = None, op_close = None,
      op_dup = None, op_release = None, op_passthru = None, op_relocate = None, op_describe = None\<rparr>"

abbreviation entry_ops :: "'k ops_table \<Rightarrow> nat \<Rightarrow> 'k world \<Rightarrow> 'k synth_ops" where
  "entry_ops OPS i w \<equiv> OPS (se_ops (synth_table w ! i))"

section \<open>Pinning and lookup\<close>

definition synth_pin :: "nat \<Rightarrow> 'k world \<Rightarrow> bool \<times> 'k world" where
  "synth_pin i w =
     (if refcount (synth_table w ! i) > 0
      then (True, upd_entry i (\<lambda>e. e\<lparr>refcount := refcount e + 1\<rparr>) w)
      else (False, w))"

text \<open>The unique cleaner, between the transitions 1 to -1 and -1 to 0.\<close>

definition synth_cleanup :: "'k kernel \<Rightarrow> 'k ops_table \<Rightarrow> nat \<Rightarrow> 'k world \<Rightarrow> 'k world" where
  "synth_cleanup K OPS i w =
     (let w1 = (case op_release (entry_ops OPS i w) of None \<Rightarrow> w | Some release \<Rightarrow> release i w);
          (probe, w2) = synth_probe_fd_load K i w1;
          w3 = (if probe \<noteq> -1 then snd (sys (k_close K probe) w2) else w2)
      in synth_probe_fd_store K i (-1) w3)"

definition wslcompat_synth_unpin :: "'k kernel \<Rightarrow> 'k ops_table \<Rightarrow> nat \<Rightarrow> 'k world \<Rightarrow> 'k world" where
  "wslcompat_synth_unpin K OPS i w =
     (let cur = refcount (synth_table w ! i)
      in if cur > 0 then
           (if cur = 1 then
              (let w1 = synth_cleanup K OPS i (upd_entry i (\<lambda>e. e\<lparr>refcount := -1\<rparr>) w);
                   w2 = upd_entry i (\<lambda>e. e\<lparr>refcount := 0\<rparr>) w1
               in w2\<lparr>synth_live_entries := synth_live_entries w2 - 1\<rparr>)
            else upd_entry i (\<lambda>e. e\<lparr>refcount := cur - 1\<rparr>) w)
         else w)"

definition same_inode :: "stat \<Rightarrow> stat \<Rightarrow> bool" where
  "same_inode a b \<longleftrightarrow> st_dev a = st_dev b \<and> st_ino a = st_ino b"

fun pin_lookup_loop :: "'k kernel \<Rightarrow> 'k ops_table \<Rightarrow> stat \<Rightarrow> nat list \<Rightarrow> 'k world \<Rightarrow> nat option \<times> 'k world" where
  "pin_lookup_loop K OPS key [] w = (None, w)"
| "pin_lookup_loop K OPS key (i # is) w =
     (let (pinned, w1) = synth_pin i w
      in if \<not> pinned then pin_lookup_loop K OPS key is w1
         else if same_inode (se_stat (synth_table w1 ! i)) key then (Some i, w1)
         else pin_lookup_loop K OPS key is (wslcompat_synth_unpin K OPS i w1))"

definition synth_pin_lookup :: "'k kernel \<Rightarrow> 'k ops_table \<Rightarrow> stat \<Rightarrow> 'k world \<Rightarrow> nat option \<times> 'k world" where
  "synth_pin_lookup K OPS key w = pin_lookup_loop K OPS key [0..<length (synth_table w)] w"

definition wslcompat_synth_pin_fd :: "'k kernel \<Rightarrow> 'k ops_table \<Rightarrow> int \<Rightarrow> 'k world \<Rightarrow> nat option \<times> 'k world" where
  "wslcompat_synth_pin_fd K OPS fd w =
     (let (r, w1) = sys (k_fstat K fd) w
      in case r of None \<Rightarrow> (None, w1) | Some st \<Rightarrow> synth_pin_lookup K OPS st w1)"

section \<open>Closing\<close>

definition wslcompat_synth_pre_close :: "'k kernel \<Rightarrow> 'k ops_table \<Rightarrow> int \<Rightarrow> 'k world \<Rightarrow> nat option \<times> 'k world" where
  "wslcompat_synth_pre_close K OPS fd w = wslcompat_synth_pin_fd K OPS fd w"

text \<open>The user argument of the visitor is \<^verbatim>\<open>found_other\<close>.\<close>

definition post_close_visit :: "'k kernel \<Rightarrow> nat \<Rightarrow> int \<Rightarrow> ('k, bool) visitor" where
  "post_close_visit K i probe fd found w =
     (if fd = probe then (0, found, w)
      else
        (let (r, w1) = sys (k_fstat K fd) w
         in case r of
              None \<Rightarrow> (0, found, w1)
            | Some st \<Rightarrow>
                (if \<not> same_inode st (se_stat (synth_table w1 ! i)) then (0, found, w1)
                 else (1, True, w1))))"

definition synth_should_release :: "'k kernel \<Rightarrow> nat \<Rightarrow> int \<Rightarrow> 'k world \<Rightarrow> bool \<times> 'k world" where
  "synth_should_release K i probe w =
     (let (r, w1) = (if probe \<noteq> -1 then sys (k_flock K probe (LOCK_EX OR LOCK_NB)) w else (None, w))
      in if r = Some 0 then (True, w1)
         else
           (let (found, w2) = wslcompat_walk_proc_self_fd K (post_close_visit K i probe) False w1
            in (\<not> found, w2)))"

definition wslcompat_synth_post_close :: "'k kernel \<Rightarrow> 'k ops_table \<Rightarrow> nat option \<Rightarrow> 'k world \<Rightarrow> 'k world" where
  "wslcompat_synth_post_close K OPS e w =
     (case e of
        None \<Rightarrow> w
      | Some i \<Rightarrow>
          (let self = k_getpid K (kst w);
               (self_st, w1) = wslcompat_self_starttime K w;
               ent = synth_table w1 ! i
           in if install_pid ent \<noteq> self \<or> install_starttime ent \<noteq> self_st
              then wslcompat_synth_unpin K OPS i w1
              else
                (let (probe, w2) = synth_probe_fd_load K i w1;
                     (release, w3) = synth_should_release K i probe w2;
                     w4 = (if release then wslcompat_synth_unpin K OPS i w3 else w3)
                 in wslcompat_synth_unpin K OPS i w4)))"

section \<open>Registering\<close>

fun table_gc_loop :: "'k kernel \<Rightarrow> 'k ops_table \<Rightarrow> nat list \<Rightarrow> 'k world \<Rightarrow> bool \<times> 'k world" where
  "table_gc_loop K OPS [] w = (False, w)"
| "table_gc_loop K OPS (i # is) w =
     (let (pinned, w1) = synth_pin i w
      in if \<not> pinned then table_gc_loop K OPS is w1
         else
           (let w2 = wslcompat_synth_post_close K OPS (Some i) w1
            in if refcount (synth_table w2 ! i) = 0 then (True, w2) else table_gc_loop K OPS is w2))"

definition synth_table_gc :: "'k kernel \<Rightarrow> 'k ops_table \<Rightarrow> 'k world \<Rightarrow> bool \<times> 'k world" where
  "synth_table_gc K OPS w = table_gc_loop K OPS [0..<length (synth_table w)] w"

text \<open>Filling the claimed slot \<open>i\<close> and publishing it with the producer's reference.\<close>

definition synth_publish ::
  "'k kernel \<Rightarrow> nat \<Rightarrow> stat \<Rightarrow> ops_id \<Rightarrow> int \<Rightarrow> userptr \<Rightarrow> int \<Rightarrow> 'k world \<Rightarrow> 'k world" where
  "synth_publish K i st ops probe uptr flags w =
     (let w1 = upd_entry i (\<lambda>e. e\<lparr>refcount := -1\<rparr>) w;
          w2 = w1\<lparr>synth_live_entries := synth_live_entries w1 + 1\<rparr>;
          w3 = upd_entry i (\<lambda>e. e\<lparr>se_stat := st, se_ops := ops, probe_fd := probe, se_userptr := uptr,
                 se_flags := flags, se_pos := 0, install_pid := k_getpid K (kst w2)\<rparr>) w2;
          (self_st, w4) = wslcompat_self_starttime K w3;
          w5 = upd_entry i (\<lambda>e. e\<lparr>install_starttime := self_st,
                 probe_overrides := wslcompat_override_init (probe_overrides e)\<rparr>) w4
      in upd_entry i (\<lambda>e. e\<lparr>refcount := 1\<rparr>) w5)"

text \<open>
  The scan for a free slot, and the retry after a successful sweep.  A sweep that succeeds
  leaves a free slot behind, so the retry finds it at once and the second unit of fuel is
  never used up (\<open>register_fuel\<close>).
\<close>

fun synth_register_n ::
  "nat \<Rightarrow> 'k kernel \<Rightarrow> 'k ops_table \<Rightarrow> stat \<Rightarrow> ops_id \<Rightarrow> int \<Rightarrow> userptr \<Rightarrow> int \<Rightarrow> 'k world \<Rightarrow> nat option \<times> 'k world" where
  "synth_register_n 0 K OPS st ops probe uptr flags w = (None, w)"
| "synth_register_n (Suc n) K OPS st ops probe uptr flags w =
     (case find_index (\<lambda>e. refcount e = 0) (synth_table w) of
        Some i \<Rightarrow> (Some i, synth_publish K i st ops probe uptr flags w)
      | None \<Rightarrow>
          (let (freed, w1) = synth_table_gc K OPS w
           in if freed then synth_register_n n K OPS st ops probe uptr flags w1 else (None, w1)))"

definition synth_register ::
  "'k kernel \<Rightarrow> 'k ops_table \<Rightarrow> stat \<Rightarrow> ops_id \<Rightarrow> int \<Rightarrow> userptr \<Rightarrow> int \<Rightarrow> 'k world \<Rightarrow> nat option \<times> 'k world" where
  "synth_register = synth_register_n 2"

definition proc_fd_path :: "int \<Rightarrow> cstring" where
  "proc_fd_path fd = snprintf_str 64 (''/proc/self/fd/'' @ show_int fd)"

text \<open>The probe descriptor, -1 when there is none.\<close>

definition synth_install_probe :: "'k kernel \<Rightarrow> int \<Rightarrow> 'k world \<Rightarrow> int \<times> 'k world" where
  "synth_install_probe K caller_fd w =
     (let (r, w1) = sys (k_flock K caller_fd (LOCK_SH OR LOCK_NB)) w
      in if r \<noteq> Some 0 then (-1, w1)
         else
           (let (p, w2) = sys (k_open K (proc_fd_path caller_fd) (O_RDONLY OR O_CLOEXEC)) w1
            in case p of
                 None \<Rightarrow> (-1, snd (sys (k_flock K caller_fd LOCK_UN) w2))
               | Some probe \<Rightarrow> (probe, w2)))"

section \<open>Opening\<close>

definition close_if_open :: "'k kernel \<Rightarrow> int \<Rightarrow> 'k world \<Rightarrow> 'k world" where
  "close_if_open K fd w = (if fd \<noteq> -1 then snd (sys (k_close K fd) w) else w)"

definition synth_open_fail :: "'k kernel \<Rightarrow> int \<Rightarrow> int \<Rightarrow> int \<Rightarrow> ('k, int) call" where
  "synth_open_fail K probe path back w =
     (None, close_if_open K back (close_if_open K path (close_if_open K probe w)))"

text \<open>The title written into the backing file: the slot and the handler's label.\<close>

definition synth_banner :: "'k ops_table \<Rightarrow> nat \<Rightarrow> 'k world \<Rightarrow> cstring \<times> 'k world" where
  "synth_banner OPS i w =
     (let (label, w1) = (case op_describe (entry_ops OPS i w) of
                           None \<Rightarrow> (''no description'', w)
                         | Some describe \<Rightarrow> describe i 128 w)
      in (snprintf_str 256 (''synthetic fd: slot '' @ show_nat i @ ''/'' @ show_nat (length (synth_table w1))
            @ '' ('' @ label @ '')'' @ [CHR 0x0A]), w1))"

definition wslcompat_synth_open :: "'k kernel \<Rightarrow> 'k ops_table \<Rightarrow> int \<Rightarrow> ops_id \<Rightarrow> userptr \<Rightarrow> ('k, int) call" where
  "wslcompat_synth_open K OPS flags ops uptr w =
     (let (back, w1) = open_backing K w
      in case back of
           None \<Rightarrow> synth_open_fail K (-1) (-1) (-1) w1
         | Some back_fd \<Rightarrow>
     (let (path, w2) = sys (k_open K (proc_fd_path back_fd) (O_PATH OR (flags AND O_CLOEXEC))) w1
      in case path of
           None \<Rightarrow> synth_open_fail K (-1) (-1) back_fd w2
         | Some path_fd \<Rightarrow>
     (let (st, w3) = sys (k_fstat K path_fd) w2
      in case st of
           None \<Rightarrow> synth_open_fail K (-1) path_fd back_fd w3
         | Some key \<Rightarrow>
     (let (probe, w4) = synth_install_probe K path_fd w3;
          (e, w5) = synth_register K OPS key ops probe uptr flags w4
      in case e of
           None \<Rightarrow> synth_open_fail K probe path_fd back_fd (w5\<lparr>errno := ENFILE\<rparr>)
         | Some i \<Rightarrow>
             (let (title, w6) = synth_banner OPS i w5;
                  (n, w7) = sys (k_write K back_fd title) w6;
                  (c, w8) = sys (k_close K back_fd) w7
              in (Some path_fd, w8))))))"

section \<open>Relocation, passthrough and fstat\<close>

fun synth_relocate_loop :: "'k kernel \<Rightarrow> 'k ops_table \<Rightarrow> int \<Rightarrow> nat list \<Rightarrow> 'k world \<Rightarrow> 'k world" where
  "synth_relocate_loop K OPS targetfd [] w = w"
| "synth_relocate_loop K OPS targetfd (i # is) w =
     (let (pinned, w1) = synth_pin i w
      in if \<not> pinned then synth_relocate_loop K OPS targetfd is w1
         else
           (let (new_fd, w2) = wslcompat_view_fd_relocate K i (probe_view i) targetfd w1;
                w3 = (case op_relocate (entry_ops OPS i w2) of
                        None \<Rightarrow> w2
                      | Some relocate \<Rightarrow> snd (relocate i targetfd w2))
            in synth_relocate_loop K OPS targetfd is (wslcompat_synth_unpin K OPS i w3)))"

definition wslcompat_synth_relocate_internal :: "'k kernel \<Rightarrow> 'k ops_table \<Rightarrow> int \<Rightarrow> 'k world \<Rightarrow> 'k world" where
  "wslcompat_synth_relocate_internal K OPS targetfd w =
     synth_relocate_loop K OPS targetfd [0..<length (synth_table w)] w"

definition passthru_fd :: "'k ops_table \<Rightarrow> nat \<Rightarrow> synth_op_kind \<Rightarrow> 'k world \<Rightarrow> int \<times> 'k world" where
  "passthru_fd OPS i kind w =
     (case op_passthru (entry_ops OPS i w) of None \<Rightarrow> (-1, w) | Some p \<Rightarrow> p i kind w)"

definition wslcompat_synth_passthru :: "'k kernel \<Rightarrow> 'k ops_table \<Rightarrow> int \<Rightarrow> synth_op_kind \<Rightarrow> 'k world \<Rightarrow> int \<times> 'k world" where
  "wslcompat_synth_passthru K OPS fd kind w =
     (let (e, w1) = wslcompat_synth_pin_fd K OPS fd w
      in case e of
           None \<Rightarrow> (-1, w1)
         | Some i \<Rightarrow>
             (let (r, w2) = passthru_fd OPS i kind w1
              in (r, wslcompat_synth_unpin K OPS i w2)))"

definition wslcompat_synth_active :: "'k world \<Rightarrow> bool" where
  "wslcompat_synth_active w \<longleftrightarrow> synth_live_entries w \<noteq> 0"

definition fstat_shim :: "'k kernel \<Rightarrow> 'k ops_table \<Rightarrow> int \<Rightarrow> ('k, stat) call" where
  "fstat_shim K OPS fd w =
     (let (r, w1) = sys (k_fstat K fd) w
      in if r = None \<or> passthru ''fstat'' w1 \<or> \<not> wslcompat_synth_active w1 then (r, w1)
         else
           (let (e, w2) = wslcompat_synth_pin_fd K OPS fd w1
            in case e of
                 None \<Rightarrow> (r, w2)
               | Some i \<Rightarrow>
                   (let (real, w3) = passthru_fd OPS i SYNTH_OP_STAT w2;
                        (r', w4) = (if real \<ge> 0 then sys (k_fstat K real) w3 else (r, w3))
                    in (r', wslcompat_synth_unpin K OPS i w4))))"

section \<open>Pinning and lookup are what they look like\<close>

lemma pin_unpin:
  assumes "refcount (synth_table w ! i) > 0" and "i < length (synth_table w)"
  shows "wslcompat_synth_unpin K OPS i (upd_entry i (\<lambda>e. e\<lparr>refcount := refcount e + 1\<rparr>) w) = w"
  using assms by (simp add: wslcompat_synth_unpin_def upd_entry_def)

lemma pin_lookup_loop_spec:
  assumes "\<And>i. i \<in> set is \<Longrightarrow> i < length (synth_table w)"
  shows "pin_lookup_loop K OPS key is w =
     (case find (\<lambda>i. refcount (synth_table w ! i) > 0 \<and> same_inode (se_stat (synth_table w ! i)) key) is of
        None \<Rightarrow> (None, w)
      | Some i \<Rightarrow> (Some i, upd_entry i (\<lambda>e. e\<lparr>refcount := refcount e + 1\<rparr>) w))"
  using assms
proof (induction "is")
  case Nil
  then show ?case by simp
next
  case (Cons i "is")
  then have "i < length (synth_table w)" by simp
  with Cons show ?case
    by (simp add: synth_pin_def pin_unpin Let_def) (simp add: upd_entry_def)
qed

lemma find_upt_index: "find (\<lambda>i. P (xs ! i)) [0..<length xs] = find_index P xs"
proof (cases "find_index P xs")
  case None
  then have "\<forall>x\<in>set xs. \<not> P x" by (simp only: find_index_None_iff)
  then have "find (\<lambda>i. P (xs ! i)) [0..<length xs] = None" by (simp add: find_None_iff)
  with None show ?thesis by simp
next
  case (Some i)
  from find_index_SomeD [OF Some] show ?thesis
    unfolding Some find_Some_iff by (intro exI [of _ i]) auto
qed

lemma pin_lookup_spec:
  "synth_pin_lookup K OPS key w =
     (case find_index (\<lambda>e. refcount e > 0 \<and> same_inode (se_stat e) key) (synth_table w) of
        None \<Rightarrow> (None, w)
      | Some i \<Rightarrow> (Some i, upd_entry i (\<lambda>e. e\<lparr>refcount := refcount e + 1\<rparr>) w))"
  unfolding synth_pin_lookup_def
  by (subst pin_lookup_loop_spec) (simp_all add: find_upt_index [symmetric])

lemma pin_fd_cases:
  obtains (none) w1 where "wslcompat_synth_pin_fd K OPS fd w = (None, w1)" "same_lib w w1"
    | (pinned) i st w1 where
      "wslcompat_synth_pin_fd K OPS fd w = (Some i, upd_entry i (\<lambda>e. e\<lparr>refcount := refcount e + 1\<rparr>) w1)"
      "same_lib w w1" "sys (k_fstat K fd) w = (Some st, w1)" "i < length (synth_table w)"
      "refcount (synth_table w ! i) > 0" "same_inode (se_stat (synth_table w ! i)) st"
proof -
  obtain r w1 where f: "sys (k_fstat K fd) w = (r, w1)" by fastforce
  have s: "same_lib w w1" using sys_same_lib [of w "k_fstat K fd"] f by simp
  show thesis
  proof (cases r)
    case None
    with f s show thesis by (intro none [of w1]) (simp_all add: wslcompat_synth_pin_fd_def)
  next
    case (Some st)
    let ?P = "\<lambda>e. refcount e > 0 \<and> same_inode (se_stat e) st"
    show thesis
    proof (cases "find_index ?P (synth_table w)")
      case None
      with f s Some show thesis
        by (intro none [of w1]) (simp_all add: wslcompat_synth_pin_fd_def pin_lookup_spec same_libD)
    next
      case i: (Some i)
      with find_index_SomeD [OF i] f s Some show thesis
        by (intro pinned [of i w1 st]) (simp_all add: wslcompat_synth_pin_fd_def pin_lookup_spec same_libD)
    qed
  qed
qed

lemma unpin_pinned:
  assumes "synth_table w2 = synth_table (upd_entry i (\<lambda>e. e\<lparr>refcount := refcount e + 1\<rparr>) w1)"
    and "i < length (synth_table w1)" and "refcount (synth_table w1 ! i) > 0"
  shows "wslcompat_synth_unpin K OPS i w2 = w2\<lparr>synth_table := synth_table w1\<rparr>"
  using assms by (simp add: wslcompat_synth_unpin_def upd_entry_def)

section \<open>The handlers' contract\<close>

text \<open>
  What the table relies on: the callbacks it makes around the life of an entry work on
  their own state and leave the table and the live count alone.
\<close>

definition keeps_synth :: "'k world \<Rightarrow> 'k world \<Rightarrow> bool" where
  "keeps_synth w w' \<longleftrightarrow> synth_table w' = synth_table w \<and> synth_live_entries w' = synth_live_entries w"

text \<open>An entry without its probe descriptor, which every process sees differently.\<close>

definition entry_core :: "synth_entry \<Rightarrow> synth_entry" where
  "entry_core e = e\<lparr>probe_fd := 0, probe_overrides := []\<rparr>"

definition cores :: "'k world \<Rightarrow> synth_entry list" where
  "cores w = map entry_core (synth_table w)"

lemma entry_core_simps [simp]:
  "refcount (entry_core e) = refcount e" "se_stat (entry_core e) = se_stat e"
  "se_ops (entry_core e) = se_ops e" "se_userptr (entry_core e) = se_userptr e"
  "se_pos (entry_core e) = se_pos e" "se_flags (entry_core e) = se_flags e"
  "install_pid (entry_core e) = install_pid e"
  "install_starttime (entry_core e) = install_starttime e"
  "entry_core (e\<lparr>refcount := c\<rparr>) = (entry_core e)\<lparr>refcount := c\<rparr>"
  "entry_core (e\<lparr>probe_fd := fd\<rparr>) = entry_core e"
  "entry_core (e\<lparr>probe_overrides := ss\<rparr>) = entry_core e"
  by (simp_all add: entry_core_def)

lemma length_cores [simp]: "length (cores w) = length (synth_table w)"
  by (simp add: cores_def)

lemma nth_cores: "i < length (synth_table w) \<Longrightarrow> cores w ! i = entry_core (synth_table w ! i)"
  by (simp add: cores_def)

lemma cores_upd_entry:
  "cores (upd_entry i f w) = (cores w)[i := entry_core (f (synth_table w ! i))]"
  by (simp add: cores_def upd_entry_def map_update)

lemma cores_upd_same:
  assumes "entry_core (f (synth_table w ! i)) = entry_core (synth_table w ! i)"
  shows "cores (upd_entry i f w) = cores w"
proof (cases "i < length (synth_table w)")
  case True
  then show ?thesis using assms by (simp add: cores_upd_entry nth_cores [symmetric])
next
  case False
  then show ?thesis by (simp add: cores_upd_entry list_update_beyond)
qed

lemma cores_quiet: "quiet w w' \<Longrightarrow> cores w' = cores w"
  by (simp add: cores_def quiet_fields)

lemma cores_live_upd [simp]: "cores (w\<lparr>synth_live_entries := n\<rparr>) = cores w"
  by (simp add: cores_def)

lemma view_store_cases:
  obtains w1 ss where "quiet w w1" and "wslcompat_view_fd_store K e V fd w = v_put_slots V ss w1"
    | w1 where "quiet w w1" and "wslcompat_view_fd_store K e V fd w = v_put_base V fd w1"
proof -
  define pid where "pid = k_getpid K (kst w)"
  obtain st w1 where self: "wslcompat_self_starttime_pid K pid w = (st, w1)" by fastforce
  have q1: "quiet w w1" using self_starttime_pid_quiet [of w K pid] self by simp
  obtain r ss w2 where acq: "wslcompat_override_acquire_pid K (v_slots V w1) pid st fd w1 = (r, ss, w2)"
    by (cases "wslcompat_override_acquire_pid K (v_slots V w1) pid st fd w1")
  have q2: "quiet w w2"
    using override_acquire_quiet [of w1 K "v_slots V w1" pid st fd] acq quiet_trans [OF q1] by simp
  show thesis
  proof (cases "synth_is_installer (synth_table w1 ! e) pid st")
    case True
    then show thesis
      by (intro that(2) [OF q1]) (simp add: wslcompat_view_fd_store_def pid_def [symmetric] self)
  next
    case False
    have "wslcompat_view_fd_store K e V fd w
        = v_put_slots V (case r of None \<Rightarrow> ss | Some i \<Rightarrow> ss[i := (ss ! i)\<lparr>ov_fd := fd\<rparr>]) w2"
      using False acq
      by (simp add: wslcompat_view_fd_store_def pid_def [symmetric] self split: option.split)
    with q2 show thesis by (rule that(1))
  qed
qed

lemma view_cas_cases:
  obtains w1 where "quiet w w1" and "snd (wslcompat_view_fd_cas K e V x y w) = w1"
    | w1 ss where "quiet w w1" and "snd (wslcompat_view_fd_cas K e V x y w) = v_put_slots V ss w1"
    | w1 where "quiet w w1" and "snd (wslcompat_view_fd_cas K e V x y w) = v_put_base V y w1"
proof -
  define pid where "pid = k_getpid K (kst w)"
  obtain st w1 where self: "wslcompat_self_starttime_pid K pid w = (st, w1)" by fastforce
  have q1: "quiet w w1" using self_starttime_pid_quiet [of w K pid] self by simp
  obtain r ss w2 where acq: "wslcompat_override_acquire_pid K (v_slots V w1) pid st x w1 = (r, ss, w2)"
    by (cases "wslcompat_override_acquire_pid K (v_slots V w1) pid st x w1")
  have q2: "quiet w w2"
    using override_acquire_quiet [of w1 K "v_slots V w1" pid st x] acq quiet_trans [OF q1] by simp
  note unfold = wslcompat_view_fd_cas_def pid_def [symmetric] self acq Let_def prod.case
  show thesis
  proof (cases "synth_is_installer (synth_table w1 ! e) pid st")
    case True
    then show thesis
      by (cases "v_base V w1 = x") (use that(1,3) [OF q1] in \<open>simp_all add: unfold\<close>)
  next
    case False
    have "\<exists>ss'. snd (wslcompat_view_fd_cas K e V x y w) = v_put_slots V ss' w2"
      using False by (cases r) (auto simp: unfold)
    with q2 that(2) show thesis by blast
  qed
qed

text \<open>What every write to a probe view keeps.\<close>

lemma probe_puts:
  "cores (v_put_slots (probe_view i) ss w) = cores w" "cores (v_put_base (probe_view i) fd w) = cores w"
  "synth_live_entries (v_put_slots (probe_view i) ss w) = synth_live_entries w"
  "synth_live_entries (v_put_base (probe_view i) fd w) = synth_live_entries w"
  by (simp_all add: probe_view_def cores_upd_same)

definition same_cores :: "'k world \<Rightarrow> 'k world \<Rightarrow> bool" where
  "same_cores w w' \<longleftrightarrow> cores w' = cores w \<and> synth_live_entries w' = synth_live_entries w"

lemma same_cores_refl [simp]: "same_cores w w"
  by (simp add: same_cores_def)

lemma same_cores_quiet: "quiet w w' \<Longrightarrow> same_cores w w'"
  by (simp add: same_cores_def cores_quiet quiet_fields)

lemma same_cores_trans: "same_cores u v \<Longrightarrow> same_cores v w \<Longrightarrow> same_cores u w"
  by (simp add: same_cores_def)

lemma same_cores_sys [simp]: "same_cores w (snd (sys f v)) = same_cores w v"
  by (simp add: same_cores_def cores_def)

lemma same_cores_length: "same_cores w w' \<Longrightarrow> length (synth_table w') = length (synth_table w)"
  unfolding same_cores_def by (metis length_cores)

lemma probe_cas_cores: "same_cores w (snd (wslcompat_view_fd_cas K e (probe_view i) x y w))"
  by (rule view_cas_cases [of w K e "probe_view i" x y])
    (auto simp: same_cores_def probe_puts cores_quiet quiet_fields)

lemma view_load_quiet: "quiet w (snd (wslcompat_view_fd_load K e V w))"
  using self_starttime_pid_quiet [of w K "k_getpid K (kst w)"]
  by (simp add: wslcompat_view_fd_load_def Let_def case_prod_beta split: option.split)

lemma probe_load_cores: "same_cores w (snd (wslcompat_view_fd_load K e V w))"
  by (rule same_cores_quiet [OF view_load_quiet])

lemma probe_relocate_cores: "same_cores w (snd (wslcompat_view_fd_relocate K e (probe_view i) targetfd w))"
proof -
  let ?l = "wslcompat_view_fd_load K e (probe_view i) w"
  have l: "same_cores w (snd ?l)" by (rule probe_load_cores)
  have "same_cores w (snd (wslcompat_view_fd_cas K e (probe_view i) x y (snd (sys f (snd ?l)))))"
    for x y and f :: "'a \<Rightarrow> (int + int) \<times> 'a"
    using l by (intro same_cores_trans [OF _ probe_cas_cores]) simp
  with l show ?thesis
    by (simp add: wslcompat_view_fd_relocate_def Let_def case_prod_beta split: option.split)
qed

lemma probe_store_cores:
  "cores (synth_probe_fd_store K i fd w) = cores w"
  "synth_live_entries (synth_probe_fd_store K i fd w) = synth_live_entries w"
proof -
  have "cores (synth_probe_fd_store K i fd w) = cores w
      \<and> synth_live_entries (synth_probe_fd_store K i fd w) = synth_live_entries w"
    unfolding synth_probe_fd_store_def
    by (rule view_store_cases [of w K i "probe_view i" fd])
      (auto simp: probe_view_def cores_upd_same cores_quiet quiet_fields)
  then show "cores (synth_probe_fd_store K i fd w) = cores w"
    "synth_live_entries (synth_probe_fd_store K i fd w) = synth_live_entries w" by blast+
qed

lemma probe_load_quiet: "quiet w (snd (synth_probe_fd_load K i w))"
  unfolding synth_probe_fd_load_def by (rule view_load_quiet)

text \<open>The live count is the number of slots that are not free.\<close>

definition live_count :: "synth_entry list \<Rightarrow> nat" where
  "live_count es = length (filter (\<lambda>e. refcount e \<noteq> 0) es)"

definition live_inv :: "'k world \<Rightarrow> bool" where
  "live_inv w \<longleftrightarrow> synth_live_entries w = of_nat (live_count (synth_table w))"

lemma live_count_cores: "live_count (cores w) = live_count (synth_table w)"
  by (simp add: live_count_def cores_def filter_map comp_def)

lemma live_inv_cores: "live_inv w \<longleftrightarrow> synth_live_entries w = of_nat (live_count (cores w))"
  by (simp add: live_inv_def live_count_cores)

lemma live_count_update:
  assumes "i < length es"
  shows "of_nat (live_count (es[i := e])) =
     (of_nat (live_count es) + (if refcount e \<noteq> 0 then 1 else 0) - (if refcount (es ! i) \<noteq> 0 then 1 else 0) :: 32 word)"
proof -
  have "live_count (es[i := e]) + (if refcount (es ! i) \<noteq> 0 then 1 else 0)
      = live_count es + (if refcount e \<noteq> 0 then 1 else 0)"
    unfolding live_count_def using assms by (rule length_filter_update)
  then have "of_nat (live_count (es[i := e]) + (if refcount (es ! i) \<noteq> 0 then 1 else 0))
      = (of_nat (live_count es + (if refcount e \<noteq> 0 then 1 else 0)) :: 32 word)" by (rule arg_cong)
  then show ?thesis by (simp add: algebra_simps split: if_splits)
qed

lemma keeps_synth_cores: "keeps_synth w w' \<Longrightarrow> cores w' = cores w"
  by (simp add: keeps_synth_def cores_def)

lemma quiet_keeps_synth: "quiet w w' \<Longrightarrow> keeps_synth w w'"
  by (simp add: keeps_synth_def quiet_fields)

lemma keeps_synth_trans: "keeps_synth u v \<Longrightarrow> keeps_synth v w \<Longrightarrow> keeps_synth u w"
  by (simp add: keeps_synth_def)

lemma keeps_synth_sys [simp]: "keeps_synth w (snd (sys f v)) = keeps_synth w v"
  by (simp add: keeps_synth_def)

lemma keeps_synth_refl [simp]: "keeps_synth w w"
  by (simp add: keeps_synth_def)

lemma keeps_synth_errno [simp]: "keeps_synth w (v\<lparr>errno := x\<rparr>) = keeps_synth w v"
  by (simp add: keeps_synth_def)

text \<open>Dropping one reference of slot \<open>i\<close>, as the table sees it.\<close>

definition drop_ref :: "nat \<Rightarrow> synth_entry list \<Rightarrow> synth_entry list" where
  "drop_ref i es =
     (if refcount (es ! i) > 0 then es[i := (es ! i)\<lparr>refcount := refcount (es ! i) - 1\<rparr>] else es)"

lemma length_drop_ref [simp]: "length (drop_ref i es) = length es"
  by (simp add: drop_ref_def)

text \<open>A table in which references went away and nothing else changed.\<close>

definition shrunk :: "synth_entry list \<Rightarrow> synth_entry list \<Rightarrow> bool" where
  "shrunk es es' \<longleftrightarrow> list_all2 (\<lambda>e e'. \<exists>c\<le>refcount e. e' = e\<lparr>refcount := c\<rparr>) es es'"

lemma shrunk_refl [simp]: "shrunk es es"
  unfolding shrunk_def by (rule list.rel_refl) (metis order_refl synth_entry.surjective synth_entry.update_convs(1))

lemma shrunk_trans: "shrunk a b \<Longrightarrow> shrunk b c \<Longrightarrow> shrunk a c"
  unfolding shrunk_def
proof (rule list_all2_trans)
  fix x y z :: synth_entry
  assume "\<exists>c\<le>refcount x. y = x\<lparr>refcount := c\<rparr>" and "\<exists>c\<le>refcount y. z = y\<lparr>refcount := c\<rparr>"
  then obtain c d where "c \<le> refcount x" "y = x\<lparr>refcount := c\<rparr>" "d \<le> c" "z = x\<lparr>refcount := d\<rparr>" by auto
  then show "\<exists>c\<le>refcount x. z = x\<lparr>refcount := c\<rparr>" by (intro exI [of _ d]) simp
qed

lemma shrunk_nth:
  assumes "shrunk es es'" and "i < length es"
  shows "\<exists>c\<le>refcount (es ! i). es' ! i = (es ! i)\<lparr>refcount := c\<rparr>"
  using assms by (simp add: shrunk_def list_all2_conv_all_nth)

lemma shrunk_length: "shrunk es es' \<Longrightarrow> length es' = length es"
  by (simp add: shrunk_def list_all2_lengthD)

lemma shrunk_update:
  assumes "c \<le> refcount (es ! i)"
  shows "shrunk es (es[i := (es ! i)\<lparr>refcount := c\<rparr>])"
  unfolding shrunk_def list_all2_conv_all_nth
proof (intro conjI allI impI)
  fix j assume "j < length es"
  then show "\<exists>d\<le>refcount (es ! j). es[i := (es ! i)\<lparr>refcount := c\<rparr>] ! j = (es ! j)\<lparr>refcount := d\<rparr>"
    using assms by (cases "i = j") (auto intro: exI [of _ c] exI [of _ "refcount (es ! j)"])
qed simp

lemma pin_cores:
  assumes "i < length (synth_table w)" and "refcount (synth_table w ! i) > 0"
  shows "cores (snd (synth_pin i w)) = (cores w)[i := (cores w ! i)\<lparr>refcount := refcount (cores w ! i) + 1\<rparr>]"
  using assms by (simp add: synth_pin_def cores_upd_entry nth_cores)

lemma pin_length [simp]: "length (synth_table (snd (synth_pin i w))) = length (synth_table w)"
  by (simp add: synth_pin_def)

lemma pin_live [simp]: "synth_live_entries (snd (synth_pin i w)) = synth_live_entries w"
  by (simp add: synth_pin_def)

lemma pin_live_inv:
  assumes "i < length (synth_table w)" and "live_inv w"
  shows "live_inv (snd (synth_pin i w))"
  using assms live_count_update [of i "synth_table w"]
  by (auto simp: live_inv_def synth_pin_def upd_entry_def)

lemma post_close_visit_same_lib:
  "same_lib w v \<Longrightarrow> same_lib w (snd (snd (post_close_visit K i probe fd found v)))"
  by (simp add: post_close_visit_def Let_def case_prod_beta split: option.split)

lemma walk_same_lib:
  assumes "\<And>fd u v. same_lib w v \<Longrightarrow> same_lib w (snd (snd (visit fd u v)))" and "same_lib w v"
  shows "same_lib w (snd (wslcompat_walk_proc_self_fd K visit u v))"
  by (rule walk_inv [where I = "same_lib w"]) (use assms same_lib_trans in blast)+

lemma should_release_same_lib: "same_lib w (snd (synth_should_release K i probe w))"
  by (simp add: synth_should_release_def Let_def case_prod_beta walk_same_lib post_close_visit_same_lib)

lemma live_inv_quiet: "quiet w w' \<Longrightarrow> live_inv w' = live_inv w"
  by (simp add: live_inv_def quiet_fields)

lemma live_inv_same_lib: "same_lib w w' \<Longrightarrow> live_inv w' = live_inv w"
  by (simp add: live_inv_quiet same_lib_quiet)

lemma same_lib_length: "same_lib w w' \<Longrightarrow> length (synth_table w') = length (synth_table w)"
  by (simp add: same_libD)

text \<open>The published entry, up to the probe view, and the probe view.\<close>

definition published :: "stat \<Rightarrow> ops_id \<Rightarrow> userptr \<Rightarrow> int \<Rightarrow> int \<Rightarrow> 64 word \<Rightarrow> synth_entry" where
  "published st ops uptr flags pid sst =
     \<lparr>refcount = 1, probe_fd = 0, se_stat = st, se_ops = ops, se_pos = 0, se_userptr = uptr,
      se_flags = flags, install_pid = pid, install_starttime = sst, probe_overrides = []\<rparr>"

lemma publish_spec:
  assumes "i < length (synth_table w)"
  obtains sst where "cores (synth_publish K i st ops probe uptr flags w)
      = (cores w)[i := published st ops uptr flags (k_getpid K (kst w)) sst]"
    and "synth_live_entries (synth_publish K i st ops probe uptr flags w) = synth_live_entries w + 1"
    and "probe_fd (synth_table (synth_publish K i st ops probe uptr flags w) ! i) = probe"
    and "\<forall>s\<in>set (probe_overrides (synth_table (synth_publish K i st ops probe uptr flags w) ! i)). ov_pid s = 0"
proof -
  define w3 where "w3 = upd_entry i (\<lambda>e. e\<lparr>se_stat := st, se_ops := ops, probe_fd := probe, se_userptr := uptr,
      se_flags := flags, se_pos := 0, install_pid := k_getpid K (kst w)\<rparr>)
    ((upd_entry i (\<lambda>e. e\<lparr>refcount := -1\<rparr>) w)\<lparr>synth_live_entries := synth_live_entries w + 1\<rparr>)"
  obtain sst w4 where self: "wslcompat_self_starttime K w3 = (sst, w4)" by fastforce
  have q: "quiet w3 w4" using self_starttime_quiet [of w3 K] self by simp
  have eq: "synth_publish K i st ops probe uptr flags w = upd_entry i (\<lambda>e. e\<lparr>refcount := 1\<rparr>)
      (upd_entry i (\<lambda>e. e\<lparr>install_starttime := sst,
         probe_overrides := wslcompat_override_init (probe_overrides e)\<rparr>) w4)"
    using self by (simp add: synth_publish_def w3_def Let_def)
  define E where "E = (synth_table w ! i)\<lparr>refcount := -1, se_stat := st, se_ops := ops,
      probe_fd := probe, se_userptr := uptr, se_flags := flags, se_pos := 0,
      install_pid := k_getpid K (kst w)\<rparr>"
  have t3: "synth_table w3 = (synth_table w)[i := E]"
    using assms by (simp add: w3_def E_def upd_entry_def)
  have tab: "synth_table (synth_publish K i st ops probe uptr flags w) = (synth_table w)
      [i := E\<lparr>install_starttime := sst, probe_overrides := wslcompat_override_init (probe_overrides E),
         refcount := 1\<rparr>]"
    using assms by (simp add: eq synth_table_upd_entry quiet_fields [OF q] t3)
  have core: "entry_core (E\<lparr>install_starttime := sst, probe_overrides := wslcompat_override_init (probe_overrides E),
      refcount := 1\<rparr>) = published st ops uptr flags (k_getpid K (kst w)) sst"
    by (simp add: E_def published_def entry_core_def)
  show thesis
  proof (rule that [of sst])
    show "cores (synth_publish K i st ops probe uptr flags w)
        = (cores w)[i := published st ops uptr flags (k_getpid K (kst w)) sst]"
      by (simp only: cores_def tab map_update core)
    show "synth_live_entries (synth_publish K i st ops probe uptr flags w) = synth_live_entries w + 1"
      by (simp add: eq quiet_fields [OF q]) (simp add: w3_def)
    show "probe_fd (synth_table (synth_publish K i st ops probe uptr flags w) ! i) = probe"
      using assms by (simp add: tab) (simp add: E_def)
    show "\<forall>s\<in>set (probe_overrides (synth_table (synth_publish K i st ops probe uptr flags w) ! i)). ov_pid s = 0"
      using assms by (simp add: tab wslcompat_override_init_def)
  qed
qed

locale synth_handlers =
  fixes OPS :: "'k ops_table"
  assumes release_keeps: "op_release (OPS x) = Some f \<Longrightarrow> keeps_synth w (f i w)"
    and close_keeps: "op_close (OPS x) = Some f \<Longrightarrow> keeps_synth w (f i w)"
    and dup_keeps: "op_dup (OPS x) = Some f \<Longrightarrow> keeps_synth w (f i w)"
    and passthru_keeps: "op_passthru (OPS x) = Some g \<Longrightarrow> keeps_synth w (snd (g i kind w))"
    and relocate_keeps: "op_relocate (OPS x) = Some h \<Longrightarrow> keeps_synth w (snd (h i fd w))"
    and describe_keeps: "op_describe (OPS x) = Some d \<Longrightarrow> keeps_synth w (snd (d i n w))"
begin

lemma cleanup_cores:
  "cores (synth_cleanup K OPS i w) = cores w"
  "synth_live_entries (synth_cleanup K OPS i w) = synth_live_entries w"
proof -
  define w1 where "w1 = (case op_release (entry_ops OPS i w) of None \<Rightarrow> w | Some release \<Rightarrow> release i w)"
  define p where "p = synth_probe_fd_load K i w1"
  define w3 where "w3 = (if fst p \<noteq> -1 then snd (sys (k_close K (fst p)) (snd p)) else snd p)"
  have 1: "keeps_synth w w1"
  proof (cases "op_release (entry_ops OPS i w)")
    case None
    then show ?thesis by (simp add: w1_def)
  next
    case (Some f)
    from release_keeps [OF this] Some show ?thesis by (simp add: w1_def)
  qed
  have "keeps_synth w (snd p)"
    unfolding p_def by (rule keeps_synth_trans [OF 1 quiet_keeps_synth [OF probe_load_quiet]])
  then have 3: "keeps_synth w w3" by (simp add: w3_def)
  have "synth_cleanup K OPS i w = synth_probe_fd_store K i (-1) w3"
    unfolding synth_cleanup_def Let_def case_prod_beta w1_def [symmetric] p_def [symmetric] w3_def ..
  with 3 show "cores (synth_cleanup K OPS i w) = cores w"
    "synth_live_entries (synth_cleanup K OPS i w) = synth_live_entries w"
    by (simp_all add: probe_store_cores keeps_synth_cores) (simp add: keeps_synth_def)
qed

lemma cleanup_length [simp]: "length (synth_table (synth_cleanup K OPS i w)) = length (synth_table w)"
  using arg_cong [OF cleanup_cores(1) [of K i w], of length] by simp

lemma unpin_cores:
  assumes "i < length (synth_table w)"
  shows "cores (wslcompat_synth_unpin K OPS i w) =
       (if refcount (cores w ! i) > 0
        then (cores w)[i := (cores w ! i)\<lparr>refcount := refcount (cores w ! i) - 1\<rparr>] else cores w)"
    and "synth_live_entries (wslcompat_synth_unpin K OPS i w) =
       synth_live_entries w - (if refcount (cores w ! i) = 1 then 1 else 0)"
proof -
  let ?w1 = "synth_cleanup K OPS i (upd_entry i (\<lambda>e. e\<lparr>refcount := -1\<rparr>) w)"
  have c1: "cores ?w1 = (cores w)[i := (cores w ! i)\<lparr>refcount := -1\<rparr>]"
    using assms by (simp add: cleanup_cores cores_upd_entry nth_cores)
  have "i < length (synth_table ?w1)" using assms by simp
  then have e1: "entry_core (synth_table ?w1 ! i) = (cores w ! i)\<lparr>refcount := -1\<rparr>"
    using c1 assms by (simp add: nth_cores [symmetric])
  show "cores (wslcompat_synth_unpin K OPS i w) =
       (if refcount (cores w ! i) > 0
        then (cores w)[i := (cores w ! i)\<lparr>refcount := refcount (cores w ! i) - 1\<rparr>] else cores w)"
    using assms c1 e1
    by (simp add: wslcompat_synth_unpin_def Let_def cores_upd_entry nth_cores)
  show "synth_live_entries (wslcompat_synth_unpin K OPS i w) =
       synth_live_entries w - (if refcount (cores w ! i) = 1 then 1 else 0)"
    using assms by (simp add: wslcompat_synth_unpin_def Let_def cleanup_cores nth_cores)
qed

lemma unpin_length [simp]: "length (synth_table (wslcompat_synth_unpin K OPS i w)) = length (synth_table w)"
  by (simp add: wslcompat_synth_unpin_def Let_def)

lemma unpin_live_inv:
  assumes "i < length (synth_table w)" and "live_inv w"
  shows "live_inv (wslcompat_synth_unpin K OPS i w)"
  using assms live_count_update [of i "cores w" "(cores w ! i)\<lparr>refcount := refcount (cores w ! i) - 1\<rparr>"]
  unfolding live_inv_cores unpin_cores [OF assms(1)] by (auto split: if_splits)

lemma unpin_drop_ref:
  "i < length (synth_table w) \<Longrightarrow> cores (wslcompat_synth_unpin K OPS i w) = drop_ref i (cores w)"
  by (simp add: unpin_cores drop_ref_def)

text \<open>
  A close by a process that did not install the entry drops the reference it is given and
  nothing else; the installer drops that one, and the producer's when the wrap is gone.
\<close>

lemma post_close_cases:
  obtains (other) w1 where "quiet w w1"
      "(k_getpid K (kst w), fst (wslcompat_self_starttime K w)) \<noteq> installer_of w i"
      "wslcompat_synth_post_close K OPS (Some i) w = wslcompat_synth_unpin K OPS i w1"
    | (deferred) w1 probe w2 where "quiet w w1" "synth_should_release K i probe w2 = (False, w1)"
      "wslcompat_synth_post_close K OPS (Some i) w = wslcompat_synth_unpin K OPS i w1"
    | (released) w1 probe w2 where "quiet w w1" "synth_should_release K i probe w2 = (True, w1)"
      "wslcompat_synth_post_close K OPS (Some i) w
         = wslcompat_synth_unpin K OPS i (wslcompat_synth_unpin K OPS i w1)"
proof -
  obtain st w1 where self: "wslcompat_self_starttime K w = (st, w1)" by fastforce
  have q1: "quiet w w1" using self_starttime_quiet [of w K] self by simp
  obtain probe w2 where load: "synth_probe_fd_load K i w1 = (probe, w2)" by fastforce
  obtain rel w3 where sr: "synth_should_release K i probe w2 = (rel, w3)" by fastforce
  have "quiet w w2" using probe_load_quiet [of w1 K i] load quiet_trans [OF q1] by simp
  moreover have "quiet w2 w3"
    using same_lib_quiet [OF should_release_same_lib [of w2 K i probe]] sr by simp
  ultimately have q3: "quiet w w3" by (rule quiet_trans)
  show thesis
  proof (cases "(k_getpid K (kst w), st) = installer_of w i")
    case False
    then show thesis
      by (intro other [OF q1])
        (auto simp: wslcompat_synth_post_close_def self installer_of_def quiet_fields [OF q1])
  next
    case True
    then have "wslcompat_synth_post_close K OPS (Some i) w = (if rel
        then wslcompat_synth_unpin K OPS i (wslcompat_synth_unpin K OPS i w3)
        else wslcompat_synth_unpin K OPS i w3)"
      by (simp add: wslcompat_synth_post_close_def self load sr installer_of_def quiet_fields [OF q1])
    with deferred [OF q3, of probe w2] released [OF q3, of probe w2] sr show thesis by (cases rel) auto
  qed
qed

lemma post_close_length [simp]:
  "length (synth_table (wslcompat_synth_post_close K OPS e w)) = length (synth_table w)"
proof (cases e)
  case None
  then show ?thesis by (simp add: wslcompat_synth_post_close_def)
next
  case (Some i)
  then show ?thesis
    by (cases rule: post_close_cases [of w K i]) (simp_all add: quiet_fields)
qed

lemma post_close_live_inv:
  assumes "case e of None \<Rightarrow> True | Some i \<Rightarrow> i < length (synth_table w)" and "live_inv w"
  shows "live_inv (wslcompat_synth_post_close K OPS e w)"
proof (cases e)
  case None
  with assms show ?thesis by (simp add: wslcompat_synth_post_close_def)
next
  case (Some i)
  with assms(1) have i: "i < length (synth_table w)" by simp
  show ?thesis
    unfolding Some by (cases rule: post_close_cases [of w K i])
      (use i assms(2) in \<open>simp_all add: unpin_live_inv quiet_fields live_inv_quiet\<close>)
qed

lemma table_gc_loop_inv:
  assumes "\<And>i. i \<in> set is \<Longrightarrow> i < length (synth_table w)" and "live_inv w"
  shows "live_inv (snd (table_gc_loop K OPS is w))"
    and "length (synth_table (snd (table_gc_loop K OPS is w))) = length (synth_table w)"
    and "fst (table_gc_loop K OPS is w) \<Longrightarrow>
           \<exists>e\<in>set (synth_table (snd (table_gc_loop K OPS is w))). refcount e = 0"
proof -
  have "live_inv (snd (table_gc_loop K OPS is w))
      \<and> length (synth_table (snd (table_gc_loop K OPS is w))) = length (synth_table w)
      \<and> (fst (table_gc_loop K OPS is w) \<longrightarrow>
           (\<exists>e\<in>set (synth_table (snd (table_gc_loop K OPS is w))). refcount e = 0))"
    using assms
  proof (induction "is" arbitrary: w)
    case Nil
    then show ?case by simp
  next
    case (Cons i "is")
    define w1 where "w1 = snd (synth_pin i w)"
    define w2 where "w2 = wslcompat_synth_post_close K OPS (Some i) w1"
    have l1: "length (synth_table w1) = length (synth_table w)" by (simp add: w1_def)
    have l2: "length (synth_table w2) = length (synth_table w)" by (simp add: w2_def l1)
    have i: "i < length (synth_table w)" using Cons.prems(1) by simp
    have I1: "live_inv w1" unfolding w1_def using i Cons.prems(2) by (rule pin_live_inv)
    have I2: "live_inv w2" unfolding w2_def using post_close_live_inv [of w1 "Some i"] i l1 I1 by simp
    have IH1: "live_inv (snd (table_gc_loop K OPS is w1))
      \<and> length (synth_table (snd (table_gc_loop K OPS is w1))) = length (synth_table w1)
      \<and> (fst (table_gc_loop K OPS is w1) \<longrightarrow>
           (\<exists>e\<in>set (synth_table (snd (table_gc_loop K OPS is w1))). refcount e = 0))"
      using Cons.IH [of w1] Cons.prems(1) l1 I1 by simp
    have IH2: "live_inv (snd (table_gc_loop K OPS is w2))
      \<and> length (synth_table (snd (table_gc_loop K OPS is w2))) = length (synth_table w2)
      \<and> (fst (table_gc_loop K OPS is w2) \<longrightarrow>
           (\<exists>e\<in>set (synth_table (snd (table_gc_loop K OPS is w2))). refcount e = 0))"
      using Cons.IH [of w2] Cons.prems(1) l2 I2 by simp
    have hit: "synth_table w2 ! i \<in> set (synth_table w2)" using i l2 by simp
    show ?case
      using IH1 IH2 I2 l1 l2 hit by (auto simp: Let_def case_prod_beta w1_def w2_def)
  qed
  then show "live_inv (snd (table_gc_loop K OPS is w))"
    "length (synth_table (snd (table_gc_loop K OPS is w))) = length (synth_table w)"
    "fst (table_gc_loop K OPS is w) \<Longrightarrow>
       \<exists>e\<in>set (synth_table (snd (table_gc_loop K OPS is w))). refcount e = 0" by blast+
qed

lemma post_close_pinned_shrunk:
  assumes "i < length (synth_table w)" and "refcount (synth_table w ! i) > 0"
  shows "shrunk (cores w) (cores (wslcompat_synth_post_close K OPS (Some i) (snd (synth_pin i w))))"
proof -
  let ?w1 = "snd (synth_pin i w)" and ?es = "cores w"
  let ?c = "refcount (?es ! i)"
  have pin: "cores ?w1 = ?es[i := (?es ! i)\<lparr>refcount := ?c + 1\<rparr>]"
    using assms by (rule pin_cores)
  have pos: "?c > 0" using assms by (simp add: nth_cores)
  have il: "i < length ?es" using assms(1) by simp
  have one: "drop_ref i (cores ?w1) = ?es"
    using pos il by (simp add: pin drop_ref_def)
  have two: "shrunk ?es (drop_ref i ?es)"
    by (simp add: drop_ref_def shrunk_update)
  show ?thesis
    by (cases rule: post_close_cases [of ?w1 K i])
      (use assms(1) one two in \<open>simp_all add: unpin_drop_ref cores_quiet quiet_fields\<close>)
qed

lemma table_gc_loop_shrunk:
  assumes "\<And>i. i \<in> set is \<Longrightarrow> i < length (synth_table w)"
  shows "shrunk (cores w) (cores (snd (table_gc_loop K OPS is w)))"
  using assms
proof (induction "is" arbitrary: w)
  case Nil
  then show ?case by simp
next
  case (Cons i "is")
  show ?case
  proof (cases "refcount (synth_table w ! i) > 0")
    case False
    then show ?thesis using Cons by (simp add: synth_pin_def)
  next
    case True
    let ?w2 = "wslcompat_synth_post_close K OPS (Some i) (snd (synth_pin i w))"
    have "shrunk (cores w) (cores ?w2)"
      using Cons.prems True by (intro post_close_pinned_shrunk) simp_all
    moreover have "shrunk (cores ?w2) (cores (snd (table_gc_loop K OPS is ?w2)))"
      using Cons.prems by (intro Cons.IH) simp
    ultimately show ?thesis
      using True shrunk_trans by (auto simp: Let_def case_prod_beta synth_pin_def)
  qed
qed

lemma gc_spec:
  assumes "live_inv w"
  shows "live_inv (snd (synth_table_gc K OPS w))"
    and "length (synth_table (snd (synth_table_gc K OPS w))) = length (synth_table w)"
    and "fst (synth_table_gc K OPS w) \<Longrightarrow>
           \<exists>e\<in>set (synth_table (snd (synth_table_gc K OPS w))). refcount e = 0"
    and "shrunk (cores w) (cores (snd (synth_table_gc K OPS w)))"
  unfolding synth_table_gc_def using assms
  by (intro table_gc_loop_inv table_gc_loop_shrunk; simp)+

text \<open>The second unit of fuel is never used up.\<close>

lemma register_fuel:
  assumes "live_inv w"
  shows "synth_register_n (Suc (Suc n)) K OPS st ops probe uptr flags w
       = synth_register K OPS st ops probe uptr flags w"
proof -
  have free: "find_index (\<lambda>e. refcount e = 0) (synth_table (snd (synth_table_gc K OPS w))) \<noteq> None"
    if "fst (synth_table_gc K OPS w)"
    using gc_spec(3) [OF assms that] by (auto simp: find_index_None_iff)
  then show ?thesis
    by (auto simp: synth_register_def numeral_2_eq_2 case_prod_beta Let_def split: option.split)
qed

lemma register_cases:
  assumes "live_inv w" and "synth_register K OPS st ops probe uptr flags w = (r, w')"
  obtains (full) "r = None" "live_inv w'" "length (synth_table w') = length (synth_table w)"
      "shrunk (cores w) (cores w')"
    | (new) i w1 where "r = Some i" "live_inv w1" "shrunk (cores w) (cores w1)" "i < length (synth_table w)"
      "length (synth_table w1) = length (synth_table w)"
      "refcount (synth_table w1 ! i) = 0" "w' = synth_publish K i st ops probe uptr flags w1"
proof (cases "find_index (\<lambda>e. refcount e = 0) (synth_table w)")
  case (Some i)
  from find_index_SomeD [OF Some] Some assms show thesis
    by (intro new [of i w]) (auto simp: synth_register_def numeral_2_eq_2)
next
  case None
  obtain freed w1 where gc: "synth_table_gc K OPS w = (freed, w1)" by fastforce
  note g = gc_spec [OF assms(1), of K, unfolded gc, simplified]
  show thesis
  proof (cases freed)
    case False
    with None gc assms(2) g show thesis
      by (intro full) (auto simp: synth_register_def numeral_2_eq_2)
  next
    case True
    then obtain i where i: "find_index (\<lambda>e. refcount e = 0) (synth_table w1) = Some i"
      using g(3) by (cases "find_index (\<lambda>e. refcount e = 0) (synth_table w1)") (auto simp: find_index_None_iff)
    from find_index_SomeD [OF i] True None gc i assms(2) g show thesis
      by (intro new [of i w1]) (auto simp: synth_register_def numeral_2_eq_2)
  qed
qed

lemma publish_live_inv:
  assumes "live_inv w" and "i < length (synth_table w)" and "refcount (synth_table w ! i) = 0"
  shows "live_inv (synth_publish K i st ops probe uptr flags w)"
proof -
  obtain sst where p: "cores (synth_publish K i st ops probe uptr flags w)
      = (cores w)[i := published st ops uptr flags (k_getpid K (kst w)) sst]"
    "synth_live_entries (synth_publish K i st ops probe uptr flags w) = synth_live_entries w + 1"
    using assms(2) by (rule publish_spec)
  with assms live_count_update [of i "cores w"] show ?thesis
    by (simp add: live_inv_cores published_def nth_cores)
qed

lemma register_live_inv:
  assumes "live_inv w"
  shows "live_inv (snd (synth_register K OPS st ops probe uptr flags w))"
proof -
  obtain r w' where eq: "synth_register K OPS st ops probe uptr flags w = (r, w')" by fastforce
  from assms eq have "live_inv w'"
  proof (cases rule: register_cases)
    case (new i w1)
    then show ?thesis using publish_live_inv [of w1 i] by simp
  qed simp
  then show ?thesis by (simp add: eq)
qed

lemma cleanup_paths_keep: "keeps_synth w (close_if_open K fd v) = keeps_synth w v"
  by (simp add: close_if_open_def)

lemma banner_keeps: "keeps_synth w (snd (synth_banner OPS i w))"
proof (cases "op_describe (entry_ops OPS i w)")
  case None
  then show ?thesis by (simp add: synth_banner_def)
next
  case (Some d)
  from describe_keeps [OF this, of w i 128] Some show ?thesis
    by (simp add: synth_banner_def case_prod_beta Let_def)
qed

lemma live_inv_keeps: "keeps_synth w w' \<Longrightarrow> live_inv w' = live_inv w"
  by (simp add: live_inv_def keeps_synth_def)

text \<open>Opening keeps the live count right on every path.\<close>

lemma install_probe_same_lib: "same_lib w (snd (synth_install_probe K fd w))"
  by (simp add: synth_install_probe_def Let_def case_prod_beta split: option.split)

lemma live_inv_sys [simp]: "live_inv (snd (sys f w)) = live_inv w"
  by (simp add: live_inv_def)

lemma live_inv_errno [simp]: "live_inv (w\<lparr>errno := x\<rparr>) = live_inv w"
  by (simp add: live_inv_def)

lemma live_inv_close_if_open [simp]: "live_inv (close_if_open K fd w) = live_inv w"
  by (simp add: close_if_open_def)

lemma live_inv_backing [simp]: "live_inv (snd (open_backing K w)) = live_inv w"
  by (rule live_inv_same_lib) simp

lemma live_inv_probe [simp]: "live_inv (snd (synth_install_probe K fd w)) = live_inv w"
  by (rule live_inv_same_lib [OF install_probe_same_lib])

lemma live_inv_banner [simp]: "live_inv (snd (synth_banner OPS i w)) = live_inv w"
  by (rule live_inv_keeps [OF banner_keeps])

lemma synth_open_live_inv: "live_inv w \<Longrightarrow> live_inv (snd (wslcompat_synth_open K OPS flags ops uptr w))"
  by (simp add: wslcompat_synth_open_def synth_open_fail_def Let_def case_prod_beta register_live_inv
      split: option.split)

text \<open>Relocating internal descriptors leaves every entry as it was, up to its probe view.\<close>

lemma relocate_loop_cores:
  assumes "\<And>i. i \<in> set is \<Longrightarrow> i < length (synth_table w)"
  shows "same_cores w (synth_relocate_loop K OPS targetfd is w)"
  using assms
proof (induction "is" arbitrary: w)
  case Nil
  then show ?case by simp
next
  case (Cons i "is")
  show ?case
  proof (cases "refcount (synth_table w ! i) > 0")
    case False
    with Cons show ?thesis by (simp add: synth_pin_def)
  next
    case True
    define w1 where "w1 = snd (synth_pin i w)"
    define w2 where "w2 = snd (wslcompat_view_fd_relocate K i (probe_view i) targetfd w1)"
    define w3 where "w3 = (case op_relocate (entry_ops OPS i w2) of None \<Rightarrow> w2
        | Some relocate \<Rightarrow> snd (relocate i targetfd w2))"
    have i: "i < length (synth_table w)" using Cons.prems by simp
    have 12: "same_cores w1 w2" unfolding w2_def by (rule probe_relocate_cores)
    have "keeps_synth w2 w3"
    proof (cases "op_relocate (entry_ops OPS i w2)")
      case None
      then show ?thesis by (simp add: w3_def)
    next
      case (Some h)
      from relocate_keeps [OF Some, of w2 i targetfd] Some show ?thesis by (simp add: w3_def)
    qed
    then have 13: "cores w3 = cores w1" "synth_live_entries w3 = synth_live_entries w1"
      using 12 by (simp_all add: same_cores_def keeps_synth_cores) (simp add: keeps_synth_def)
    have w1: "cores w1 = (cores w)[i := (cores w ! i)\<lparr>refcount := refcount (cores w ! i) + 1\<rparr>]"
      unfolding w1_def using i True by (rule pin_cores)
    have l3: "length (synth_table w3) = length (synth_table w)"
      using arg_cong [OF 13(1), of length] by (simp add: w1_def)
    then have i3: "i < length (synth_table w3)" using i by simp
    have pos: "refcount (cores w ! i) > 0" using True i by (simp add: nth_cores)
    have "same_cores w (wslcompat_synth_unpin K OPS i w3)"
      using i pos by (simp add: same_cores_def unpin_drop_ref [OF i3] unpin_cores(2) [OF i3] 13 w1 drop_ref_def)
        (simp add: w1_def)
    moreover from this have "same_cores (wslcompat_synth_unpin K OPS i w3)
        (synth_relocate_loop K OPS targetfd is (wslcompat_synth_unpin K OPS i w3))"
      using Cons.prems by (intro Cons.IH) (simp add: l3)
    moreover have "synth_relocate_loop K OPS targetfd (i # is) w
        = synth_relocate_loop K OPS targetfd is (wslcompat_synth_unpin K OPS i w3)"
    proof -
      have "synth_pin i w = (True, w1)" using True by (simp add: w1_def synth_pin_def)
      moreover obtain n where "wslcompat_view_fd_relocate K i (probe_view i) targetfd w1 = (n, w2)"
        using w2_def by (metis prod.collapse)
      ultimately show ?thesis by (simp add: w3_def)
    qed
    ultimately show ?thesis using same_cores_trans by metis
  qed
qed

lemma relocate_internal_cores: "same_cores w (wslcompat_synth_relocate_internal K OPS targetfd w)"
  unfolding wslcompat_synth_relocate_internal_def by (rule relocate_loop_cores) simp

text \<open>Looking through a synthetic descriptor is neutral: what was pinned is unpinned.\<close>

lemma passthru_fd_keeps: "keeps_synth w (snd (passthru_fd OPS i kind w))"
proof (cases "op_passthru (entry_ops OPS i w)")
  case None
  then show ?thesis by (simp add: passthru_fd_def)
next
  case (Some g)
  from passthru_keeps [OF Some, of w i kind] Some show ?thesis by (simp add: passthru_fd_def)
qed

lemma synth_passthru_keeps: "keeps_synth w (snd (wslcompat_synth_passthru K OPS fd kind w))"
proof (cases rule: pin_fd_cases [of K OPS fd w])
  case (none w1)
  then show ?thesis
    by (simp add: wslcompat_synth_passthru_def quiet_keeps_synth same_lib_quiet)
next
  case (pinned i st w1)
  let ?w2 = "snd (passthru_fd OPS i kind (upd_entry i (\<lambda>e. e\<lparr>refcount := refcount e + 1\<rparr>) w1))"
  have k: "keeps_synth (upd_entry i (\<lambda>e. e\<lparr>refcount := refcount e + 1\<rparr>) w1) ?w2" by (rule passthru_fd_keeps)
  then have "wslcompat_synth_unpin K OPS i ?w2 = ?w2\<lparr>synth_table := synth_table w1\<rparr>"
    using pinned by (intro unpin_pinned) (simp_all add: keeps_synth_def same_libD)
  with k pinned(1,2) show ?thesis
    by (simp add: wslcompat_synth_passthru_def case_prod_beta Let_def keeps_synth_def same_libD)
qed

lemma fstat_shim_keeps: "keeps_synth w (snd (fstat_shim K OPS fd w))"
proof -
  let ?w0 = "snd (sys (k_fstat K fd) w)"
  have 0: "keeps_synth w ?w0" by simp
  show ?thesis
  proof (cases rule: pin_fd_cases [of K OPS fd ?w0])
    case (none w1)
    then have "keeps_synth w w1" using 0 by (simp add: keeps_synth_def same_libD)
    with 0 none show ?thesis by (simp add: fstat_shim_def case_prod_beta Let_def)
  next
    case (pinned i st w1)
    let ?u = "upd_entry i (\<lambda>e. e\<lparr>refcount := refcount e + 1\<rparr>) w1"
    let ?w3 = "snd (passthru_fd OPS i SYNTH_OP_STAT ?u)"
    have k: "keeps_synth ?u ?w3" by (rule passthru_fd_keeps)
    have un: "wslcompat_synth_unpin K OPS i v = v\<lparr>synth_table := synth_table w1\<rparr>" if "keeps_synth ?u v" for v
      using that pinned by (intro unpin_pinned) (simp_all add: keeps_synth_def same_libD)
    have fin: "keeps_synth w (wslcompat_synth_unpin K OPS i v)" if "keeps_synth ?u v" for v
      using that pinned(2) by (simp add: un) (simp add: keeps_synth_def same_libD)
    from 0 pinned(1) fin [OF k] fin [of "snd (sys (k_fstat K r) ?w3)" for r] k show ?thesis
      by (simp add: fstat_shim_def case_prod_beta Let_def)
  qed
qed

end

end
