(* ===== verification/Internal.thy ===== *)
theory Internal
  imports World
begin

text \<open>
  internal.c: the registry of the library's own long-lived descriptors (the log file and
  the mount table), moved out of the way when the application wants their number.
\<close>

section \<open>The registry\<close>

abbreviation (input) MAX_INTERNAL_FDS :: nat where "MAX_INTERNAL_FDS \<equiv> 16"

definition wslcompat_register_internal_fd :: "int_slot \<Rightarrow> 'k world \<Rightarrow> 'k world" where
  "wslcompat_register_internal_fd slot w =
     (let i = registry_count w;
          w1 = w\<lparr>registry_count := i + 1\<rparr>
      in if i \<ge> MAX_INTERNAL_FDS then w1 else w1\<lparr>registry := (registry w1)[i := Some slot]\<rparr>)"

text \<open>One iteration of the relocation loop.\<close>

definition relocate_slot :: "'k kernel \<Rightarrow> int \<Rightarrow> nat \<Rightarrow> 'k world \<Rightarrow> 'k world" where
  "relocate_slot K targetfd i w =
     (case registry w ! i of
        None \<Rightarrow> w
      | Some slot \<Rightarrow>
          (if islot w slot \<noteq> targetfd then w
           else
             (let (r, w1) = sys (k_fcntl K targetfd F_DUPFD_CLOEXEC 3) w
              in case r of
                   None \<Rightarrow> w1\<lparr>islot := (islot w1)(slot := -2)\<rparr>
                 | Some newfd \<Rightarrow>
                     (if islot w1 slot = targetfd then w1\<lparr>islot := (islot w1)(slot := newfd)\<rparr>
                      else snd (sys (k_close K newfd) w1)))))"

fun relocate_slots :: "'k kernel \<Rightarrow> int \<Rightarrow> nat list \<Rightarrow> 'k world \<Rightarrow> 'k world" where
  "relocate_slots K targetfd [] w = w"
| "relocate_slots K targetfd (i # is) w = relocate_slots K targetfd is (relocate_slot K targetfd i w)"

definition wslcompat_relocate_internal_fd :: "'k kernel \<Rightarrow> int \<Rightarrow> 'k world \<Rightarrow> 'k world" where
  "wslcompat_relocate_internal_fd K targetfd w =
     relocate_slots K targetfd [0..<min (registry_count w) MAX_INTERNAL_FDS] w"

section \<open>What relocation does\<close>

definition same_but_islot :: "'k world \<Rightarrow> 'k world \<Rightarrow> bool" where
  "same_but_islot w w' \<longleftrightarrow> w' = w\<lparr>kst := kst w', errno := errno w', islot := islot w'\<rparr>"

lemma same_but_islot_refl [simp]: "same_but_islot w w"
  by (simp add: same_but_islot_def)

lemma same_but_islotE:
  assumes "same_but_islot w w'"
  obtains k e s where "w' = w\<lparr>kst := k, errno := e, islot := s\<rparr>"
  using assms by (auto simp: same_but_islot_def)

lemma same_but_islot_trans [trans]:
  assumes "same_but_islot u v" and "same_but_islot v w"
  shows "same_but_islot u w"
proof -
  from assms(1) obtain k e s where v: "v = u\<lparr>kst := k, errno := e, islot := s\<rparr>" by (rule same_but_islotE)
  from assms(2) obtain k' e' s' where "w = v\<lparr>kst := k', errno := e', islot := s'\<rparr>" by (rule same_but_islotE)
  with v show ?thesis by (simp add: same_but_islot_def)
qed

lemma same_but_islot_fields:
  assumes "same_but_islot w w'"
  shows "synth_table w' = synth_table w" "synth_live_entries w' = synth_live_entries w"
    "tty_table w' = tty_table w" "options w' = options w" "env_disable w' = env_disable w"
    "registry w' = registry w" "registry_count w' = registry_count w" "self_cache w' = self_cache w"
    "loglevel w' = loglevel w"
  using assms by (auto elim!: same_but_islotE)

lemma same_lib_but_islot: "same_lib w w' \<Longrightarrow> same_but_islot w w'"
  by (auto simp: same_lib_def same_but_islot_def)

lemma same_but_islot_upd: "same_but_islot w v \<Longrightarrow> same_but_islot w (v\<lparr>islot := s\<rparr>)"
  by (erule same_but_islotE) (simp add: same_but_islot_def)

lemma relocate_slot_frame: "same_but_islot w (relocate_slot K targetfd i w)"
proof -
  have sys: "same_but_islot w (snd (sys f v))" if "same_but_islot w v" for v and f :: "'a \<Rightarrow> (int + int) \<times> 'a"
    using that same_but_islot_trans same_lib_but_islot [OF sys_same_lib] by blast
  show ?thesis
    by (simp add: relocate_slot_def Let_def case_prod_beta sys same_but_islot_upd split: option.split)
qed

lemma relocate_slots_frame: "same_but_islot w (relocate_slots K targetfd is w)"
proof (induction "is" arbitrary: w)
  case Nil
  then show ?case by simp
next
  case (Cons i "is")
  have "same_but_islot w (relocate_slot K targetfd i w)" by (rule relocate_slot_frame)
  also have "same_but_islot \<dots> (relocate_slots K targetfd is (relocate_slot K targetfd i w))" by (rule Cons.IH)
  finally show ?case by simp
qed

lemma relocate_internal_frame: "same_but_islot w (wslcompat_relocate_internal_fd K targetfd w)"
  unfolding wslcompat_relocate_internal_fd_def by (rule relocate_slots_frame)

text \<open>A slot after the relocation: untouched, a fresh duplicate, or reset for a lazy reopen.\<close>

definition dup_fresh :: "'k kernel \<Rightarrow> int \<Rightarrow> bool" where
  "dup_fresh K targetfd \<longleftrightarrow>
     (\<forall>k fd k'. k_fcntl K targetfd F_DUPFD_CLOEXEC 3 k = (Inr fd, k') \<longrightarrow> 3 \<le> fd \<and> fd \<noteq> targetfd)"

lemma sys_islot [simp]: "islot (snd (sys f w)) = islot w"
  by simp

lemma relocate_slot_islot:
  assumes "dup_fresh K targetfd" and "0 \<le> targetfd"
  shows "islot (relocate_slot K targetfd i w) s =
       (if registry w ! i = Some s \<and> islot w s = targetfd
        then islot (relocate_slot K targetfd i w) s else islot w s)"
    and "registry w ! i = Some s \<Longrightarrow> islot (relocate_slot K targetfd i w) s \<noteq> targetfd"
    and "registry w ! i = Some s \<Longrightarrow> islot w s = targetfd \<Longrightarrow>
           islot (relocate_slot K targetfd i w) s = -2 \<or> 3 \<le> islot (relocate_slot K targetfd i w) s"
proof -
  let ?r = "sys (k_fcntl K targetfd F_DUPFD_CLOEXEC 3) w"
  have fresh: "fst ?r = Some fd \<Longrightarrow> 3 \<le> fd \<and> fd \<noteq> targetfd" for fd
    using assms(1) by (fastforce simp: dup_fresh_def sys_def split: prod.splits sum.splits)
  show "islot (relocate_slot K targetfd i w) s =
       (if registry w ! i = Some s \<and> islot w s = targetfd
        then islot (relocate_slot K targetfd i w) s else islot w s)"
    by (auto simp: relocate_slot_def Let_def case_prod_beta split: option.split)
  show "registry w ! i = Some s \<Longrightarrow> islot (relocate_slot K targetfd i w) s \<noteq> targetfd"
    using fresh assms(2) by (auto simp: relocate_slot_def Let_def case_prod_beta split: option.split)
  show "registry w ! i = Some s \<Longrightarrow> islot w s = targetfd \<Longrightarrow>
      islot (relocate_slot K targetfd i w) s = -2 \<or> 3 \<le> islot (relocate_slot K targetfd i w) s"
    using fresh by (auto simp: relocate_slot_def Let_def case_prod_beta split: option.split)
qed

lemma relocate_slots_islot:
  assumes "dup_fresh K targetfd" and "0 \<le> targetfd"
  shows "islot w s \<noteq> targetfd \<Longrightarrow> islot (relocate_slots K targetfd is w) s = islot w s"
    and "\<exists>i\<in>set is. registry w ! i = Some s \<Longrightarrow> islot (relocate_slots K targetfd is w) s \<noteq> targetfd
           \<and> (islot w s = targetfd \<longrightarrow> islot (relocate_slots K targetfd is w) s = -2
                \<or> 3 \<le> islot (relocate_slots K targetfd is w) s)"
proof -
  have keep: "islot w s \<noteq> targetfd \<Longrightarrow> islot (relocate_slots K targetfd is w) s = islot w s" for w "is"
  proof (induction "is" arbitrary: w)
    case Nil
    then show ?case by simp
  next
    case (Cons i "is")
    have "islot (relocate_slot K targetfd i w) s = islot w s"
      using relocate_slot_islot(1) [OF assms, of i w s] Cons.prems by simp
    with Cons show ?case by simp
  qed
  show "islot w s \<noteq> targetfd \<Longrightarrow> islot (relocate_slots K targetfd is w) s = islot w s" by (rule keep)
  show "\<exists>i\<in>set is. registry w ! i = Some s \<Longrightarrow> islot (relocate_slots K targetfd is w) s \<noteq> targetfd
      \<and> (islot w s = targetfd \<longrightarrow> islot (relocate_slots K targetfd is w) s = -2
           \<or> 3 \<le> islot (relocate_slots K targetfd is w) s)"
  proof (induction "is" arbitrary: w)
    case Nil
    then show ?case by simp
  next
    case (Cons i "is")
    have reg: "registry (relocate_slot K targetfd i w) = registry w"
      using relocate_slot_frame [of w K targetfd i] by (rule same_but_islot_fields)
    show ?case
    proof (cases "registry w ! i = Some s")
      case True
      then have "islot (relocate_slot K targetfd i w) s \<noteq> targetfd"
        by (rule relocate_slot_islot(2) [OF assms])
      with keep [OF this] relocate_slot_islot(3) [OF assms True] show ?thesis by simp
    next
      case False
      with relocate_slot_islot(1) [OF assms, of i w s] have "islot (relocate_slot K targetfd i w) s = islot w s"
        by simp
      with False Cons reg show ?thesis by simp
    qed
  qed
qed

section \<open>Properties\<close>

text \<open>
  C23: Before the application's close or dup takes effect, no registered internal
  descriptor is left on the number it wants: each is untouched if it was elsewhere, and
  otherwise a fresh duplicate or -2, the value that makes its owner open it again.
\<close>

theorem relocate_internal_clears:
  assumes "dup_fresh K targetfd" and "0 \<le> targetfd"
    and "i < min (registry_count w) MAX_INTERNAL_FDS" and "registry w ! i = Some s"
  shows "islot (wslcompat_relocate_internal_fd K targetfd w) s \<noteq> targetfd
    \<and> (islot w s = targetfd \<longrightarrow> islot (wslcompat_relocate_internal_fd K targetfd w) s = -2
         \<or> 3 \<le> islot (wslcompat_relocate_internal_fd K targetfd w) s)
    \<and> (\<forall>t. islot w t \<noteq> targetfd \<longrightarrow> islot (wslcompat_relocate_internal_fd K targetfd w) t = islot w t)"
proof -
  have "\<exists>i\<in>set [0..<min (registry_count w) MAX_INTERNAL_FDS]. registry w ! i = Some s"
    using assms(3,4) by auto
  with relocate_slots_islot [OF assms(1,2)] show ?thesis
    by (simp add: wslcompat_relocate_internal_fd_def)
qed

theorem relocate_internal_clears_witness:
  "islot (wslcompat_relocate_internal_fd (null_kernel\<lparr>k_fcntl := (\<lambda>_ _ _ k. (Inr 20, k))\<rparr>) 6
     ((static_world ())\<lparr>registry := [Some Debugfd], registry_count := 1, islot := (\<lambda>_. 6)\<rparr>)) Debugfd \<noteq> 6"
  using relocate_internal_clears [of "null_kernel\<lparr>k_fcntl := (\<lambda>_ _ _ k. (Inr 20, k))\<rparr>" 6 0
      "(static_world ())\<lparr>registry := [Some Debugfd], registry_count := 1, islot := (\<lambda>_. 6)\<rparr>" Debugfd]
  by (simp add: dup_fresh_def)

end
