(* ===== verification/Close.thy ===== *)
theory Close
  imports Synth Internal
begin

text \<open>
  close.c: the close, dup2, dup3 and close_range shims.  Each moves the library's own
  descriptors off the number the application is about to retire, and brackets the system
  call with the pre-close pin and the post-close check of the synthetic descriptors.
\<close>

section \<open>The shims\<close>

definition relocate_internal :: "'k kernel \<Rightarrow> 'k ops_table \<Rightarrow> int \<Rightarrow> 'k world \<Rightarrow> 'k world" where
  "relocate_internal K OPS targetfd w =
     wslcompat_relocate_internal_fd K targetfd (wslcompat_synth_relocate_internal K OPS targetfd w)"

text \<open>\<^verbatim>\<open>if (e && e->ops->h) e->ops->h(e)\<close> for the members close and dup.\<close>

definition notify ::
  "('k synth_ops \<Rightarrow> (nat \<Rightarrow> 'k world \<Rightarrow> 'k world) option) \<Rightarrow> 'k ops_table \<Rightarrow> nat option \<Rightarrow> 'k world \<Rightarrow> 'k world" where
  "notify h OPS e w =
     (case e of
        None \<Rightarrow> w
      | Some i \<Rightarrow> (case h (entry_ops OPS i w) of None \<Rightarrow> w | Some f \<Rightarrow> f i w))"

definition close_shim :: "'k kernel \<Rightarrow> 'k ops_table \<Rightarrow> int \<Rightarrow> ('k, int) call" where
  "close_shim K OPS fd w =
     (if passthru ''close'' w then sys (k_close K fd) w
      else
        (let (e, w1) = wslcompat_synth_pre_close K OPS fd w;
             w2 = notify op_close OPS e w1;
             w3 = relocate_internal K OPS fd w2;
             (r, w4) = sys (k_close K fd) w3
         in (r, restore_errno w4 (wslcompat_synth_post_close K OPS e w4))))"

definition dup_common :: "'k kernel \<Rightarrow> 'k ops_table \<Rightarrow> int \<Rightarrow> int \<Rightarrow> int \<Rightarrow> bool \<Rightarrow> ('k, int) call" where
  "dup_common K OPS oldfd newfd flags allow_self w =
     (if allow_self \<and> oldfd = newfd then sys (k_dup2 K oldfd newfd) w
      else
        (let w1 = relocate_internal K OPS newfd w;
             (e, w2) = wslcompat_synth_pre_close K OPS newfd w1;
             w3 = notify op_dup OPS e w2;
             (r, w4) = sys (k_dup3 K oldfd newfd flags) w3
         in (r, restore_errno w4 (wslcompat_synth_post_close K OPS e w4))))"

definition dup2_shim :: "'k kernel \<Rightarrow> 'k ops_table \<Rightarrow> int \<Rightarrow> int \<Rightarrow> ('k, int) call" where
  "dup2_shim K OPS oldfd newfd w =
     (if passthru ''dup2'' w then sys (k_dup2 K oldfd newfd) w
      else dup_common K OPS oldfd newfd 0 True w)"

definition dup3_shim :: "'k kernel \<Rightarrow> 'k ops_table \<Rightarrow> int \<Rightarrow> int \<Rightarrow> int \<Rightarrow> ('k, int) call" where
  "dup3_shim K OPS oldfd newfd flags w =
     (if passthru ''dup3'' w then sys (k_dup3 K oldfd newfd flags) w
      else dup_common K OPS oldfd newfd flags False w)"

text \<open>The arguments of close_range are \<^verbatim>\<open>unsigned int\<close>; a descriptor is converted to one.\<close>

definition close_range_visit :: "'k kernel \<Rightarrow> 'k ops_table \<Rightarrow> int \<Rightarrow> int \<Rightarrow> ('k, unit) visitor" where
  "close_range_visit K OPS lo hi fd u w =
     (if fd mod 2 ^ 32 \<ge> lo \<and> fd mod 2 ^ 32 \<le> hi then (0, u, snd (close_shim K OPS fd w)) else (0, u, w))"

definition close_range_shim :: "'k kernel \<Rightarrow> 'k ops_table \<Rightarrow> int \<Rightarrow> int \<Rightarrow> int \<Rightarrow> ('k, int) call" where
  "close_range_shim K OPS lo hi flags w =
     (if passthru ''close_range'' w then sys (k_close_range K lo hi flags) w
      else if lo > hi \<or> flags \<noteq> 0 then fail_with EINVAL w
      else (Some 0, snd (wslcompat_walk_proc_self_fd K (close_range_visit K OPS lo hi) () w)))"

section \<open>What the shims keep\<close>

lemma same_cores_live_inv: "same_cores w w' \<Longrightarrow> live_inv w' = live_inv w"
  by (simp add: same_cores_def live_inv_cores)

lemma same_cores_but_islot: "same_but_islot w w' \<Longrightarrow> same_cores w w'"
  by (simp add: same_cores_def cores_def same_but_islot_fields)

lemma keeps_same_cores: "keeps_synth w w' \<Longrightarrow> same_cores w w'"
  by (simp add: same_cores_def keeps_synth_cores) (simp add: keeps_synth_def)

lemma restore_errno_cores [simp]: "same_cores w (restore_errno w0 v) = same_cores w v"
  by (simp add: same_cores_def cores_def)

lemma live_inv_restore_errno [simp]: "live_inv (restore_errno w0 w) = live_inv w"
  by (simp add: live_inv_def)

text \<open>A pre-close pin of entry \<open>e\<close>: nothing, or one more reference on a live entry.\<close>

definition pinned_as :: "nat option \<Rightarrow> 'k world \<Rightarrow> 'k world \<Rightarrow> bool" where
  "pinned_as e w w1 \<longleftrightarrow>
     (case e of
        None \<Rightarrow> same_cores w w1
      | Some i \<Rightarrow> i < length (synth_table w) \<and> refcount (cores w ! i) > 0
          \<and> cores w1 = (cores w)[i := (cores w ! i)\<lparr>refcount := refcount (cores w ! i) + 1\<rparr>]
          \<and> synth_live_entries w1 = synth_live_entries w)"

lemma pin_fd_pinned_as:
  assumes "wslcompat_synth_pin_fd K OPS fd w = (e, w1)"
  shows "pinned_as e w w1"
proof (cases rule: pin_fd_cases [of K OPS fd w])
  case (none v)
  with assms have "e = None" "same_cores w w1"
    by (simp_all add: same_cores_quiet [OF same_lib_quiet])
  then show ?thesis by (simp add: pinned_as_def)
next
  case (pinned i st v)
  with assms have e: "e = Some i" "w1 = upd_entry i (\<lambda>e. e\<lparr>refcount := refcount e + 1\<rparr>) v" by simp_all
  have "cores v = cores w" "synth_table v = synth_table w" "synth_live_entries v = synth_live_entries w"
    using pinned(2) by (simp_all add: cores_def same_libD)
  with pinned e show ?thesis
    by (simp add: pinned_as_def cores_upd_entry nth_cores)
qed

lemma pinned_as_cores: "pinned_as e w w1 \<Longrightarrow> same_cores w1 w2 \<Longrightarrow> pinned_as e w w2"
  by (auto simp: pinned_as_def same_cores_def split: option.splits)

lemma cores_length: "cores w' = es \<Longrightarrow> length (synth_table w') = length es"
  using length_cores by metis

lemma pinned_as_length: "pinned_as e w w1 \<Longrightarrow> length (synth_table w1) = length (synth_table w)"
  by (auto simp: pinned_as_def same_cores_length dest: cores_length split: option.splits)

lemma pinned_as_live_inv:
  assumes "pinned_as e w w1"
  shows "live_inv w1 = live_inv w"
proof (cases e)
  case None
  with assms show ?thesis by (simp add: pinned_as_def same_cores_live_inv)
next
  case (Some i)
  with assms live_count_update [of i "cores w"] show ?thesis
    by (auto simp: pinned_as_def live_inv_cores)
qed

context synth_handlers
begin

lemma relocate_internal_same_cores: "same_cores w (relocate_internal K OPS targetfd w)"
  unfolding relocate_internal_def
  by (rule same_cores_trans [OF relocate_internal_cores same_cores_but_islot [OF relocate_internal_frame]])

lemma notify_keeps:
  assumes "\<And>x f i w. h (OPS x) = Some f \<Longrightarrow> keeps_synth w (f i w)"
  shows "same_cores w (notify h OPS e w)"
proof (cases e)
  case None
  then show ?thesis by (simp add: notify_def)
next
  case (Some i)
  show ?thesis
  proof (cases "h (entry_ops OPS i w)")
    case None
    with Some show ?thesis by (simp add: notify_def)
  next
    case f: (Some f)
    from keeps_same_cores [OF assms [OF f, of w i]] Some f show ?thesis by (simp add: notify_def)
  qed
qed

lemma notify_close: "same_cores w (notify op_close OPS e w)"
  by (rule notify_keeps) (rule close_keeps)

lemma notify_dup: "same_cores w (notify op_dup OPS e w)"
  by (rule notify_keeps) (rule dup_keeps)

text \<open>The world just before the post-close step: the pinned entry, everything else as it was.\<close>

lemma close_shim_stages:
  assumes "\<not> passthru ''close'' w"
  obtains e w3 r w4 where "pinned_as e w w3" and "sys (k_close K fd) w3 = (r, w4)"
    and "close_shim K OPS fd w = (r, restore_errno w4 (wslcompat_synth_post_close K OPS e w4))"
proof -
  obtain e w1 where pin: "wslcompat_synth_pre_close K OPS fd w = (e, w1)" by fastforce
  define w2 where "w2 = notify op_close OPS e w1"
  define w3 where "w3 = relocate_internal K OPS fd w2"
  obtain r w4 where close: "sys (k_close K fd) w3 = (r, w4)" by fastforce
  have "pinned_as e w w1" using pin by (simp add: wslcompat_synth_pre_close_def pin_fd_pinned_as)
  then have "pinned_as e w w2" unfolding w2_def by (rule pinned_as_cores [OF _ notify_close])
  then have "pinned_as e w w3" unfolding w3_def by (rule pinned_as_cores [OF _ relocate_internal_same_cores])
  moreover have "close_shim K OPS fd w = (r, restore_errno w4 (wslcompat_synth_post_close K OPS e w4))"
    using assms close by (simp add: close_shim_def pin w2_def [symmetric] w3_def [symmetric])
  ultimately show thesis using close by (intro that)
qed

lemma dup_common_stages:
  assumes "\<not> (allow_self \<and> oldfd = newfd)"
  obtains e w1 w3 r w4 where "same_cores w w1" and "pinned_as e w1 w3"
    and "sys (k_dup3 K oldfd newfd flags) w3 = (r, w4)"
    and "dup_common K OPS oldfd newfd flags allow_self w
       = (r, restore_errno w4 (wslcompat_synth_post_close K OPS e w4))"
proof -
  define w1 where "w1 = relocate_internal K OPS newfd w"
  obtain e w2 where pin: "wslcompat_synth_pre_close K OPS newfd w1 = (e, w2)" by fastforce
  define w3 where "w3 = notify op_dup OPS e w2"
  obtain r w4 where dup: "sys (k_dup3 K oldfd newfd flags) w3 = (r, w4)" by fastforce
  have "same_cores w w1" unfolding w1_def by (rule relocate_internal_same_cores)
  moreover have "pinned_as e w1 w2" using pin by (simp add: wslcompat_synth_pre_close_def pin_fd_pinned_as)
  then have "pinned_as e w1 w3" unfolding w3_def by (rule pinned_as_cores [OF _ notify_dup])
  moreover have "dup_common K OPS oldfd newfd flags allow_self w
      = (r, restore_errno w4 (wslcompat_synth_post_close K OPS e w4))"
    using assms dup by (auto simp: dup_common_def w1_def [symmetric] pin w3_def [symmetric])
  ultimately show thesis using dup by (intro that)
qed

lemma pinned_post_close_live_inv:
  assumes "pinned_as e w w3" and "same_cores w3 w4" and "live_inv w"
  shows "live_inv (wslcompat_synth_post_close K OPS e w4)"
proof -
  have p: "pinned_as e w w4" using assms(1,2) by (rule pinned_as_cores)
  then have "case e of None \<Rightarrow> True | Some i \<Rightarrow> i < length (synth_table w4)"
    using pinned_as_length [OF p] by (auto simp: pinned_as_def split: option.splits)
  moreover have "live_inv w4" using pinned_as_live_inv [OF p] assms(3) by simp
  ultimately show ?thesis by (rule post_close_live_inv)
qed

lemma sys_same_cores: "sys f w = (r, w') \<Longrightarrow> same_cores w w'"
  using same_cores_sys [of w f w] by simp

lemma close_live_inv:
  assumes "live_inv w"
  shows "live_inv (snd (close_shim K OPS fd w))"
proof (cases "passthru ''close'' w")
  case True
  with assms show ?thesis by (simp add: close_shim_def)
next
  case False
  then obtain e w3 r w4 where "pinned_as e w w3" "sys (k_close K fd) w3 = (r, w4)"
    "close_shim K OPS fd w = (r, restore_errno w4 (wslcompat_synth_post_close K OPS e w4))"
    by (rule close_shim_stages)
  with pinned_post_close_live_inv [OF _ sys_same_cores assms] show ?thesis by simp
qed

lemma dup_common_live_inv:
  assumes "live_inv w"
  shows "live_inv (snd (dup_common K OPS oldfd newfd flags allow_self w))"
proof (cases "allow_self \<and> oldfd = newfd")
  case True
  with assms show ?thesis by (simp add: dup_common_def)
next
  case False
  then obtain e w1 w3 r w4 where s: "same_cores w w1" "pinned_as e w1 w3"
    "sys (k_dup3 K oldfd newfd flags) w3 = (r, w4)"
    "dup_common K OPS oldfd newfd flags allow_self w
       = (r, restore_errno w4 (wslcompat_synth_post_close K OPS e w4))"
    by (rule dup_common_stages)
  have "live_inv w1" using same_cores_live_inv [OF s(1)] assms by simp
  with s pinned_post_close_live_inv [OF s(2) sys_same_cores] show ?thesis by simp
qed

lemma dup2_live_inv: "live_inv w \<Longrightarrow> live_inv (snd (dup2_shim K OPS oldfd newfd w))"
  by (simp add: dup2_shim_def dup_common_live_inv)

lemma dup3_live_inv: "live_inv w \<Longrightarrow> live_inv (snd (dup3_shim K OPS oldfd newfd flags w))"
  by (simp add: dup3_shim_def dup_common_live_inv)

lemma close_range_live_inv:
  assumes "live_inv w"
  shows "live_inv (snd (close_range_shim K OPS lo hi flags w))"
proof -
  have "live_inv (snd (wslcompat_walk_proc_self_fd K (close_range_visit K OPS lo hi) () w))"
    using assms by (rule walk_inv [where I = live_inv, rotated -1])
      (simp_all add: close_range_visit_def close_live_inv live_inv_same_lib)
  with assms show ?thesis by (simp add: close_range_shim_def fail_with_def)
qed

end

end
