(* ===== verification/Dispatch.thy ===== *)
theory Dispatch
  imports Close
begin

text \<open>
  The dispatch macros of synth.h and the thin I/O shims of read.c.  A synthetic descriptor
  is an O_PATH descriptor, on which the kernel refuses I/O with a known errno (the
  canary); only then does a shim look whether the descriptor is synthetic, and runs the
  handler, forwards to the backing descriptor, or returns the kernel's failure.
\<close>

section \<open>The macros\<close>

text \<open>
  \<^verbatim>\<open>SYNTH_DISPATCH\<close>: \<open>Some r\<close> when the macro returns \<open>r\<close> from the enclosing function, \<open>None\<close>
  when it falls through.  \<open>h\<close> is the member \<^verbatim>\<open>call\<close> of the table, applied to the arguments;
  \<open>next\<close> is \<^verbatim>\<open>sym_next(call, fd, ...)\<close> as a function of the descriptor.
\<close>

definition synth_dispatch ::
  "'k kernel \<Rightarrow> 'k ops_table \<Rightarrow> ('k synth_ops \<Rightarrow> (nat \<Rightarrow> ('k, 'a) call) option) \<Rightarrow> (int \<Rightarrow> ('k, 'a) call)
     \<Rightarrow> int \<Rightarrow> 'k world \<Rightarrow> 'a option option \<times> 'k world" where
  "synth_dispatch K OPS h next fd w =
     (let (e, w1) = wslcompat_synth_pin_fd K OPS fd w
      in case e of
           None \<Rightarrow> (None, restore_errno w w1)
         | Some i \<Rightarrow>
             (case h (entry_ops OPS i w1) of
                Some f \<Rightarrow> (let (r, w2) = f i w1 in (Some r, wslcompat_synth_unpin K OPS i w2))
              | None \<Rightarrow>
                  (let (real, w2) = passthru_fd OPS i SYNTH_OP_IO w1
                   in if real \<ge> 0
                      then (let (r, w3) = next real w2 in (Some r, wslcompat_synth_unpin K OPS i w3))
                      else (None, wslcompat_synth_unpin K OPS i (restore_errno w w2)))))"

definition synth_dispatch_excl ::
  "'k kernel \<Rightarrow> 'k ops_table \<Rightarrow> ('k synth_ops \<Rightarrow> (nat \<Rightarrow> ('k, 'a) call) option) \<Rightarrow> (int \<Rightarrow> ('k, 'a) call)
     \<Rightarrow> int \<Rightarrow> 'k world \<Rightarrow> 'a option option \<times> 'k world" where
  "synth_dispatch_excl K OPS h next fd w =
     (let (d, w1) = synth_dispatch K OPS h next fd w
      in case d of
           Some r \<Rightarrow> (Some r, w1)
         | None \<Rightarrow>
             (let (e, w2) = wslcompat_synth_pin_fd K OPS fd w1
              in case e of
                   None \<Rightarrow> (None, w2)
                 | Some i \<Rightarrow> (Some None, wslcompat_synth_unpin K OPS i (w2\<lparr>errno := EOPNOTSUPP\<rparr>))))"

definition synth_shim_e ::
  "'k kernel \<Rightarrow> 'k ops_table \<Rightarrow> cstring \<Rightarrow> int \<Rightarrow> ('k synth_ops \<Rightarrow> (nat \<Rightarrow> ('k, 'a) call) option)
     \<Rightarrow> (int \<Rightarrow> ('k, 'a) call) \<Rightarrow> int \<Rightarrow> ('k, 'a) call" where
  "synth_shim_e K OPS name canary h next fd w =
     (let (r, w1) = next fd w
      in if r \<noteq> None \<or> errno w1 \<noteq> canary \<or> passthru name w1 then (r, w1)
         else
           (let (d, w2) = synth_dispatch K OPS h next fd w1
            in case d of Some r' \<Rightarrow> (r', w2) | None \<Rightarrow> (r, w2)))"

section \<open>The I/O shims\<close>

text \<open>The next definitions of these calls (\<^verbatim>\<open>RTLD_NEXT\<close>, the C library).\<close>

record 'k libc_io =
  n_read :: "int \<Rightarrow> nat \<Rightarrow> 'k \<Rightarrow> (int + bytes) \<times> 'k"
  n_write :: "int \<Rightarrow> bytes \<Rightarrow> 'k \<Rightarrow> (int + int) \<times> 'k"
  n_lseek :: "int \<Rightarrow> int \<Rightarrow> int \<Rightarrow> 'k \<Rightarrow> (int + int) \<times> 'k"
  n_pread :: "int \<Rightarrow> nat \<Rightarrow> int \<Rightarrow> 'k \<Rightarrow> (int + bytes) \<times> 'k"
  n_pwrite :: "int \<Rightarrow> bytes \<Rightarrow> int \<Rightarrow> 'k \<Rightarrow> (int + int) \<times> 'k"
  n_readv :: "int \<Rightarrow> nat list \<Rightarrow> 'k \<Rightarrow> (int + bytes) \<times> 'k"
  n_writev :: "int \<Rightarrow> bytes list \<Rightarrow> 'k \<Rightarrow> (int + int) \<times> 'k"
  n_preadv :: "int \<Rightarrow> nat list \<Rightarrow> int \<Rightarrow> 'k \<Rightarrow> (int + bytes) \<times> 'k"
  n_pwritev :: "int \<Rightarrow> bytes list \<Rightarrow> int \<Rightarrow> 'k \<Rightarrow> (int + int) \<times> 'k"
  n_fsync :: "int \<Rightarrow> 'k \<Rightarrow> (int + int) \<times> 'k"
  n_fdatasync :: "int \<Rightarrow> 'k \<Rightarrow> (int + int) \<times> 'k"
  n_ftruncate :: "int \<Rightarrow> int \<Rightarrow> 'k \<Rightarrow> (int + int) \<times> 'k"
  n_fchmod :: "int \<Rightarrow> int \<Rightarrow> 'k \<Rightarrow> (int + int) \<times> 'k"
  n_fchown :: "int \<Rightarrow> int \<Rightarrow> int \<Rightarrow> 'k \<Rightarrow> (int + int) \<times> 'k"
  n_fallocate :: "int \<Rightarrow> int \<Rightarrow> int \<Rightarrow> int \<Rightarrow> 'k \<Rightarrow> (int + int) \<times> 'k"
  n_fgetxattr :: "int \<Rightarrow> cstring \<Rightarrow> nat \<Rightarrow> 'k \<Rightarrow> (int + bytes) \<times> 'k"
  n_fsetxattr :: "int \<Rightarrow> cstring \<Rightarrow> bytes \<Rightarrow> int \<Rightarrow> 'k \<Rightarrow> (int + int) \<times> 'k"
  n_flistxattr :: "int \<Rightarrow> nat \<Rightarrow> 'k \<Rightarrow> (int + bytes) \<times> 'k"
  n_fremovexattr :: "int \<Rightarrow> cstring \<Rightarrow> 'k \<Rightarrow> (int + int) \<times> 'k"

text \<open>A library in which every call fails, the base of the concrete ones of the examples.\<close>

definition null_io :: "'k libc_io" where
  "null_io =
     \<lparr>n_read = (\<lambda>_ _ k. (Inl ENOSYS, k)), n_write = (\<lambda>_ _ k. (Inl ENOSYS, k)),
      n_lseek = (\<lambda>_ _ _ k. (Inl ENOSYS, k)), n_pread = (\<lambda>_ _ _ k. (Inl ENOSYS, k)),
      n_pwrite = (\<lambda>_ _ _ k. (Inl ENOSYS, k)), n_readv = (\<lambda>_ _ k. (Inl ENOSYS, k)),
      n_writev = (\<lambda>_ _ k. (Inl ENOSYS, k)), n_preadv = (\<lambda>_ _ _ k. (Inl ENOSYS, k)),
      n_pwritev = (\<lambda>_ _ _ k. (Inl ENOSYS, k)), n_fsync = (\<lambda>_ k. (Inl ENOSYS, k)),
      n_fdatasync = (\<lambda>_ k. (Inl ENOSYS, k)), n_ftruncate = (\<lambda>_ _ k. (Inl ENOSYS, k)),
      n_fchmod = (\<lambda>_ _ k. (Inl ENOSYS, k)), n_fchown = (\<lambda>_ _ _ k. (Inl ENOSYS, k)),
      n_fallocate = (\<lambda>_ _ _ _ k. (Inl ENOSYS, k)), n_fgetxattr = (\<lambda>_ _ _ k. (Inl ENOSYS, k)),
      n_fsetxattr = (\<lambda>_ _ _ _ k. (Inl ENOSYS, k)), n_flistxattr = (\<lambda>_ _ k. (Inl ENOSYS, k)),
      n_fremovexattr = (\<lambda>_ _ k. (Inl ENOSYS, k))\<rparr>"

definition read_shim :: "'k kernel \<Rightarrow> 'k ops_table \<Rightarrow> 'k libc_io \<Rightarrow> int \<Rightarrow> nat \<Rightarrow> ('k, bytes) call" where
  "read_shim K OPS N fd count =
     synth_shim_e K OPS ''read'' EBADF (\<lambda>t. map_option (\<lambda>f i. f i count) (op_read t))
       (\<lambda>fd. sys (n_read N fd count)) fd"

text \<open>The FORTIFY entry points abort (\<open>None\<close>) on a request larger than the buffer.\<close>

definition read_chk ::
  "'k kernel \<Rightarrow> 'k ops_table \<Rightarrow> 'k libc_io \<Rightarrow> int \<Rightarrow> nat \<Rightarrow> nat \<Rightarrow> 'k world \<Rightarrow> (bytes option \<times> 'k world) option" where
  "read_chk K OPS N fd nbytes buflen w =
     (if nbytes > buflen then None else Some (read_shim K OPS N fd nbytes w))"

definition write_shim :: "'k kernel \<Rightarrow> 'k ops_table \<Rightarrow> 'k libc_io \<Rightarrow> int \<Rightarrow> bytes \<Rightarrow> ('k, int) call" where
  "write_shim K OPS N fd buf =
     synth_shim_e K OPS ''write'' EBADF (\<lambda>t. map_option (\<lambda>f i. f i buf) (op_write t))
       (\<lambda>fd. sys (n_write N fd buf)) fd"

definition lseek_shim :: "'k kernel \<Rightarrow> 'k ops_table \<Rightarrow> 'k libc_io \<Rightarrow> int \<Rightarrow> int \<Rightarrow> int \<Rightarrow> ('k, int) call" where
  "lseek_shim K OPS N fd offset whence =
     synth_shim_e K OPS ''lseek'' EBADF (\<lambda>t. map_option (\<lambda>f i. f i offset whence) (op_lseek t))
       (\<lambda>fd. sys (n_lseek N fd offset whence)) fd"

definition pread_shim :: "'k kernel \<Rightarrow> 'k ops_table \<Rightarrow> 'k libc_io \<Rightarrow> int \<Rightarrow> nat \<Rightarrow> int \<Rightarrow> ('k, bytes) call" where
  "pread_shim K OPS N fd count offset =
     synth_shim_e K OPS ''pread'' EBADF (\<lambda>t. map_option (\<lambda>f i. f i count offset) (op_pread t))
       (\<lambda>fd. sys (n_pread N fd count offset)) fd"

definition pread_chk ::
  "'k kernel \<Rightarrow> 'k ops_table \<Rightarrow> 'k libc_io \<Rightarrow> int \<Rightarrow> nat \<Rightarrow> int \<Rightarrow> nat \<Rightarrow> 'k world \<Rightarrow> (bytes option \<times> 'k world) option" where
  "pread_chk K OPS N fd nbytes offset buflen w =
     (if nbytes > buflen then None else Some (pread_shim K OPS N fd nbytes offset w))"

definition pwrite_shim :: "'k kernel \<Rightarrow> 'k ops_table \<Rightarrow> 'k libc_io \<Rightarrow> int \<Rightarrow> bytes \<Rightarrow> int \<Rightarrow> ('k, int) call" where
  "pwrite_shim K OPS N fd buf offset =
     synth_shim_e K OPS ''pwrite'' EBADF (\<lambda>t. map_option (\<lambda>f i. f i buf offset) (op_pwrite t))
       (\<lambda>fd. sys (n_pwrite N fd buf offset)) fd"

definition readv_shim :: "'k kernel \<Rightarrow> 'k ops_table \<Rightarrow> 'k libc_io \<Rightarrow> int \<Rightarrow> nat list \<Rightarrow> ('k, bytes) call" where
  "readv_shim K OPS N fd iov =
     synth_shim_e K OPS ''readv'' EPERM (\<lambda>t. map_option (\<lambda>f i. f i iov) (op_readv t))
       (\<lambda>fd. sys (n_readv N fd iov)) fd"

definition writev_shim :: "'k kernel \<Rightarrow> 'k ops_table \<Rightarrow> 'k libc_io \<Rightarrow> int \<Rightarrow> bytes list \<Rightarrow> ('k, int) call" where
  "writev_shim K OPS N fd iov =
     synth_shim_e K OPS ''writev'' EPERM (\<lambda>t. map_option (\<lambda>f i. f i iov) (op_writev t))
       (\<lambda>fd. sys (n_writev N fd iov)) fd"

definition preadv_shim :: "'k kernel \<Rightarrow> 'k ops_table \<Rightarrow> 'k libc_io \<Rightarrow> int \<Rightarrow> nat list \<Rightarrow> int \<Rightarrow> ('k, bytes) call" where
  "preadv_shim K OPS N fd iov offset =
     synth_shim_e K OPS ''preadv'' EPERM (\<lambda>t. map_option (\<lambda>f i. f i iov offset) (op_preadv t))
       (\<lambda>fd. sys (n_preadv N fd iov offset)) fd"

definition pwritev_shim :: "'k kernel \<Rightarrow> 'k ops_table \<Rightarrow> 'k libc_io \<Rightarrow> int \<Rightarrow> bytes list \<Rightarrow> int \<Rightarrow> ('k, int) call" where
  "pwritev_shim K OPS N fd iov offset =
     synth_shim_e K OPS ''pwritev'' EPERM (\<lambda>t. map_option (\<lambda>f i. f i iov offset) (op_pwritev t))
       (\<lambda>fd. sys (n_pwritev N fd iov offset)) fd"

definition fsync_shim :: "'k kernel \<Rightarrow> 'k ops_table \<Rightarrow> 'k libc_io \<Rightarrow> int \<Rightarrow> ('k, int) call" where
  "fsync_shim K OPS N fd = synth_shim_e K OPS ''fsync'' EBADF op_fsync (\<lambda>fd. sys (n_fsync N fd)) fd"

definition fdatasync_shim :: "'k kernel \<Rightarrow> 'k ops_table \<Rightarrow> 'k libc_io \<Rightarrow> int \<Rightarrow> ('k, int) call" where
  "fdatasync_shim K OPS N fd =
     synth_shim_e K OPS ''fdatasync'' EBADF op_fdatasync (\<lambda>fd. sys (n_fdatasync N fd)) fd"

definition ftruncate_shim :: "'k kernel \<Rightarrow> 'k ops_table \<Rightarrow> 'k libc_io \<Rightarrow> int \<Rightarrow> int \<Rightarrow> ('k, int) call" where
  "ftruncate_shim K OPS N fd len =
     synth_shim_e K OPS ''ftruncate'' EINVAL (\<lambda>t. map_option (\<lambda>f i. f i len) (op_ftruncate t))
       (\<lambda>fd. sys (n_ftruncate N fd len)) fd"

definition fchmod_shim :: "'k kernel \<Rightarrow> 'k ops_table \<Rightarrow> 'k libc_io \<Rightarrow> int \<Rightarrow> int \<Rightarrow> ('k, int) call" where
  "fchmod_shim K OPS N fd mode =
     synth_shim_e K OPS ''fchmod'' EBADF (\<lambda>t. map_option (\<lambda>f i. f i mode) (op_fchmod t))
       (\<lambda>fd. sys (n_fchmod N fd mode)) fd"

definition fchown_shim :: "'k kernel \<Rightarrow> 'k ops_table \<Rightarrow> 'k libc_io \<Rightarrow> int \<Rightarrow> int \<Rightarrow> int \<Rightarrow> ('k, int) call" where
  "fchown_shim K OPS N fd owner grp =
     synth_shim_e K OPS ''fchown'' EBADF (\<lambda>t. map_option (\<lambda>f i. f i owner grp) (op_fchown t))
       (\<lambda>fd. sys (n_fchown N fd owner grp)) fd"

definition fallocate_shim :: "'k kernel \<Rightarrow> 'k ops_table \<Rightarrow> 'k libc_io \<Rightarrow> int \<Rightarrow> int \<Rightarrow> int \<Rightarrow> int \<Rightarrow> ('k, int) call" where
  "fallocate_shim K OPS N fd mode offset len =
     synth_shim_e K OPS ''fallocate'' EOPNOTSUPP (\<lambda>t. map_option (\<lambda>f i. f i mode offset len) (op_fallocate t))
       (\<lambda>fd. sys (n_fallocate N fd mode offset len)) fd"

definition fgetxattr_shim :: "'k kernel \<Rightarrow> 'k ops_table \<Rightarrow> 'k libc_io \<Rightarrow> int \<Rightarrow> cstring \<Rightarrow> nat \<Rightarrow> ('k, bytes) call" where
  "fgetxattr_shim K OPS N fd name sz =
     synth_shim_e K OPS ''fgetxattr'' EBADF (\<lambda>t. map_option (\<lambda>f i. f i name sz) (op_fgetxattr t))
       (\<lambda>fd. sys (n_fgetxattr N fd name sz)) fd"

definition fsetxattr_shim :: "'k kernel \<Rightarrow> 'k ops_table \<Rightarrow> 'k libc_io \<Rightarrow> int \<Rightarrow> cstring \<Rightarrow> bytes \<Rightarrow> int \<Rightarrow> ('k, int) call" where
  "fsetxattr_shim K OPS N fd name val flags =
     synth_shim_e K OPS ''fsetxattr'' EBADF (\<lambda>t. map_option (\<lambda>f i. f i name val flags) (op_fsetxattr t))
       (\<lambda>fd. sys (n_fsetxattr N fd name val flags)) fd"

definition flistxattr_shim :: "'k kernel \<Rightarrow> 'k ops_table \<Rightarrow> 'k libc_io \<Rightarrow> int \<Rightarrow> nat \<Rightarrow> ('k, bytes) call" where
  "flistxattr_shim K OPS N fd sz =
     synth_shim_e K OPS ''flistxattr'' EBADF (\<lambda>t. map_option (\<lambda>f i. f i sz) (op_flistxattr t))
       (\<lambda>fd. sys (n_flistxattr N fd sz)) fd"

definition fremovexattr_shim :: "'k kernel \<Rightarrow> 'k ops_table \<Rightarrow> 'k libc_io \<Rightarrow> int \<Rightarrow> cstring \<Rightarrow> ('k, int) call" where
  "fremovexattr_shim K OPS N fd name =
     synth_shim_e K OPS ''fremovexattr'' EBADF (\<lambda>t. map_option (\<lambda>f i. f i name) (op_fremovexattr t))
       (\<lambda>fd. sys (n_fremovexattr N fd name)) fd"

section \<open>What dispatching does\<close>

text \<open>An entry up to its file position and probe view: what I/O through it may not change.\<close>

definition entry_frame :: "synth_entry \<Rightarrow> synth_entry" where
  "entry_frame e = (entry_core e)\<lparr>se_pos := 0\<rparr>"

definition same_frames :: "'k world \<Rightarrow> 'k world \<Rightarrow> bool" where
  "same_frames w w' \<longleftrightarrow> map entry_frame (synth_table w') = map entry_frame (synth_table w)
     \<and> synth_live_entries w' = synth_live_entries w"

lemma same_frames_refl [simp]: "same_frames w w"
  by (simp add: same_frames_def)

lemma same_frames_trans: "same_frames u v \<Longrightarrow> same_frames v w \<Longrightarrow> same_frames u w"
  by (simp add: same_frames_def)

lemma same_frames_same_lib: "same_lib w w' \<Longrightarrow> same_frames w w'"
  by (simp add: same_frames_def same_libD)

lemma same_frames_keeps: "keeps_synth w w' \<Longrightarrow> same_frames w w'"
  by (simp add: same_frames_def keeps_synth_def)

lemma same_frames_sys [simp]: "same_frames w (snd (sys f v)) = same_frames w v"
  by (simp add: same_frames_def)

lemma same_frames_restore [simp]: "same_frames w (restore_errno w0 v) = same_frames w v"
  by (simp add: same_frames_def)

lemma same_frames_length: "same_frames w w' \<Longrightarrow> length (synth_table w') = length (synth_table w)"
  unfolding same_frames_def by (metis length_map)

lemma same_frames_nth:
  assumes "same_frames w w'" and "i < length (synth_table w)"
  shows "entry_frame (synth_table w' ! i) = entry_frame (synth_table w ! i)"
  using assms same_frames_length [OF assms(1)] unfolding same_frames_def by (metis nth_map)

lemma entry_frame_refcount: "refcount (entry_frame e) = refcount e"
  by (simp add: entry_frame_def)

lemma entry_frame_upd: "entry_frame (e\<lparr>refcount := c\<rparr>) = (entry_frame e)\<lparr>refcount := c\<rparr>"
  by (simp add: entry_frame_def)

lemma entry_frame_self: "(entry_frame e)\<lparr>refcount := refcount e\<rparr> = entry_frame e"
  by (simp add: entry_frame_def entry_core_def)

lemma same_frames_upd:
  assumes "entry_frame (f (synth_table w ! i)) = entry_frame (synth_table w ! i)"
  shows "same_frames w (upd_entry i f w)"
proof (cases "i < length (synth_table w)")
  case True
  then have "map entry_frame ((synth_table w)[i := f (synth_table w ! i)]) = map entry_frame (synth_table w)"
    using assms by (metis list_update_id map_update nth_map)
  then show ?thesis by (simp add: same_frames_def synth_table_upd_entry)
next
  case False
  then show ?thesis by (simp add: same_frames_def synth_table_upd_entry list_update_beyond)
qed

text \<open>Unpinning after work that kept the frames restores them.\<close>

lemma unpin_same_frames:
  assumes "same_frames (upd_entry i (\<lambda>e. e\<lparr>refcount := refcount e + 1\<rparr>) w) w2"
    and "i < length (synth_table w)" and "refcount (synth_table w ! i) > 0"
  shows "same_frames w (wslcompat_synth_unpin K OPS i w2)"
proof -
  let ?u = "upd_entry i (\<lambda>e. e\<lparr>refcount := refcount e + 1\<rparr>) w"
  have i: "i < length (synth_table ?u)" using assms(2) by simp
  have fr: "entry_frame (synth_table w2 ! i) = (entry_frame (synth_table w ! i))\<lparr>refcount := refcount (synth_table w ! i) + 1\<rparr>"
    using same_frames_nth [OF assms(1) i] assms(2)
    by (simp add: synth_table_upd_entry entry_frame_def)
  have c: "refcount (synth_table w2 ! i) = refcount (synth_table w ! i) + 1"
    using arg_cong [OF fr, of refcount] by (simp add: entry_frame_refcount)
  have un: "wslcompat_synth_unpin K OPS i w2 = upd_entry i (\<lambda>e. e\<lparr>refcount := refcount (synth_table w ! i)\<rparr>) w2"
    using assms(3) by (simp add: wslcompat_synth_unpin_def c)
  have frw: "entry_frame ((synth_table w2 ! i)\<lparr>refcount := refcount (synth_table w ! i)\<rparr>) = entry_frame (synth_table w ! i)"
    by (simp add: entry_frame_upd fr entry_frame_self)
  have "map entry_frame (synth_table w2) = (map entry_frame (synth_table w))
      [i := (entry_frame (synth_table w ! i))\<lparr>refcount := refcount (synth_table w ! i) + 1\<rparr>]"
    using assms(1) by (simp add: same_frames_def synth_table_upd_entry map_update entry_frame_upd)
  then have "map entry_frame (synth_table (upd_entry i (\<lambda>e. e\<lparr>refcount := refcount (synth_table w ! i)\<rparr>) w2))
      = (map entry_frame (synth_table w))[i := entry_frame (synth_table w ! i)]"
    by (simp add: synth_table_upd_entry map_update frw)
  then show ?thesis
    using assms(1,2) by (simp add: un same_frames_def map_update [symmetric])
qed

lemma unpin_errno:
  assumes "refcount (synth_table w ! i) \<noteq> 1"
  shows "errno (wslcompat_synth_unpin K OPS i w) = errno w"
  using assms by (simp add: wslcompat_synth_unpin_def Let_def)

context synth_handlers
begin

text \<open>Dispatching never changes who holds a reference.\<close>

lemma dispatch_same_frames:
  assumes "\<And>x f i w. h (OPS x) = Some f \<Longrightarrow> same_frames w (snd (f i w))"
    and "\<And>fd w. same_frames w (snd (next fd w))"
  shows "same_frames w (snd (synth_dispatch K OPS h next fd w))"
proof (cases rule: pin_fd_cases [of K OPS fd w])
  case (none w1)
  then show ?thesis by (simp add: synth_dispatch_def same_frames_same_lib)
next
  case (pinned i st w1)
  let ?u = "upd_entry i (\<lambda>e. e\<lparr>refcount := refcount e + 1\<rparr>) w1"
  have fin: "same_frames w (wslcompat_synth_unpin K OPS i v)" if "same_frames ?u v" for v
    using unpin_same_frames [OF that] pinned
    by (auto simp: same_libD intro: same_frames_trans [OF same_frames_same_lib])
  have p: "same_frames ?u (snd (passthru_fd OPS i SYNTH_OP_IO ?u))"
    by (rule same_frames_keeps [OF passthru_fd_keeps])
  then have n: "same_frames ?u (snd (next r (snd (passthru_fd OPS i SYNTH_OP_IO ?u))))" for r
    by (rule same_frames_trans [OF _ assms(2)])
  show ?thesis
  proof (cases "h (entry_ops OPS i ?u)")
    case None
    with pinned(1) fin [OF n] fin [of "restore_errno w (snd (passthru_fd OPS i SYNTH_OP_IO ?u))"] p show ?thesis
      by (simp add: synth_dispatch_def case_prod_beta Let_def)
  next
    case (Some f)
    with pinned(1) fin [OF assms(1) [OF Some]] show ?thesis
      by (simp add: synth_dispatch_def case_prod_beta Let_def)
  qed
qed

lemma shim_same_frames:
  assumes "\<And>x f i w. h (OPS x) = Some f \<Longrightarrow> same_frames w (snd (f i w))"
    and "\<And>fd w. same_frames w (snd (next fd w))"
  shows "same_frames w (snd (synth_shim_e K OPS name canary h next fd w))"
proof -
  have "same_frames w (snd (synth_dispatch K OPS h next fd (snd (next fd w))))"
    by (rule same_frames_trans [OF assms(2) dispatch_same_frames [of h "next"]]; (erule assms(1) | rule assms(2)))
  with assms(2) show ?thesis
    by (simp add: synth_shim_e_def case_prod_beta Let_def split: option.split)
qed

end

section \<open>Descriptors that are synthetic, and ones that are not\<close>

text \<open>The slot a descriptor with the given stat belongs to, and the state while it is pinned.\<close>

definition synth_slot :: "'k world \<Rightarrow> stat \<Rightarrow> nat option" where
  "synth_slot w st = find_index (\<lambda>e. refcount e > 0 \<and> same_inode (se_stat e) st) (synth_table w)"

abbreviation pinned :: "nat \<Rightarrow> 'k world \<Rightarrow> 'k world" where
  "pinned i w \<equiv> upd_entry i (\<lambda>e. e\<lparr>refcount := refcount e + 1\<rparr>) w"

lemma synth_slotD:
  assumes "synth_slot w st = Some i"
  shows "i < length (synth_table w)" and "refcount (synth_table w ! i) > 0" and "same_inode (se_stat (synth_table w ! i)) st"
  using find_index_SomeD [OF assms [unfolded synth_slot_def]] by simp_all

lemma pin_fd_slot:
  assumes "k_fstat K fd (kst w) = (Inr st, kst w)"
  shows "wslcompat_synth_pin_fd K OPS fd w =
     (case synth_slot w st of None \<Rightarrow> (None, w) | Some i \<Rightarrow> (Some i, pinned i w))"
  by (simp add: wslcompat_synth_pin_fd_def sys_ok [where f = "k_fstat K fd", OF assms] pin_lookup_spec synth_slot_def)

lemma pinned_ops: "i < length (synth_table w) \<Longrightarrow> se_ops (synth_table (pinned i w) ! i) = se_ops (synth_table w ! i)"
  by (simp add: upd_entry_def)

lemma unpin_slot:
  assumes "synth_slot w st = Some i" and "synth_table v = synth_table (pinned i w)"
  shows "wslcompat_synth_unpin K OPS i v = v\<lparr>synth_table := synth_table w\<rparr>"
  using unpin_pinned [OF assms(2)] synth_slotD [OF assms(1)] by simp

lemma dispatch_plain:
  assumes "k_fstat K fd (kst w) = (Inr st, kst w)" and "synth_slot w st = None"
  shows "synth_dispatch K OPS h next fd w = (None, w)"
  using assms by (simp add: synth_dispatch_def pin_fd_slot restore_errno_def)

lemma dispatch_handler:
  assumes "k_fstat K fd (kst w) = (Inr st, kst w)" and "synth_slot w st = Some i"
    and "h (OPS (se_ops (synth_table w ! i))) = Some f"
    and "f i (pinned i w) = (r, v)" and "keeps_synth (pinned i w) v"
  shows "synth_dispatch K OPS h next fd w = (Some r, v\<lparr>synth_table := synth_table w\<rparr>)"
  using assms synth_slotD [OF assms(2)]
  by (simp add: synth_dispatch_def pin_fd_slot pinned_ops unpin_slot [OF assms(2)] keeps_synth_def)

lemma dispatch_forward:
  assumes "k_fstat K fd (kst w) = (Inr st, kst w)" and "synth_slot w st = Some i"
    and "h (OPS (se_ops (synth_table w ! i))) = None"
    and "passthru_fd OPS i SYNTH_OP_IO (pinned i w) = (real, v)" and "keeps_synth (pinned i w) v" and "real \<ge> 0"
    and "next real v = (r, v')" and "keeps_synth v v'"
  shows "synth_dispatch K OPS h next fd w = (Some r, v'\<lparr>synth_table := synth_table w\<rparr>)"
  using assms synth_slotD [OF assms(2)]
  by (simp add: synth_dispatch_def pin_fd_slot pinned_ops unpin_slot [OF assms(2)] keeps_synth_def)

lemma dispatch_neither:
  assumes "k_fstat K fd (kst w) = (Inr st, kst w)" and "synth_slot w st = Some i"
    and "h (OPS (se_ops (synth_table w ! i))) = None" and "op_passthru (OPS (se_ops (synth_table w ! i))) = None"
  shows "synth_dispatch K OPS h next fd w = (None, w)"
proof -
  have "passthru_fd OPS i SYNTH_OP_IO (pinned i w) = (-1, pinned i w)"
    using assms(4) synth_slotD [OF assms(2)] by (simp add: passthru_fd_def pinned_ops)
  then show ?thesis using assms synth_slotD [OF assms(2)]
    by (simp add: synth_dispatch_def pin_fd_slot pinned_ops unpin_slot [OF assms(2)] restore_errno_def pin_unpin)
qed

lemma passthru_slot:
  assumes "k_fstat K fd (kst w) = (Inr st, kst w)"
  shows "synth_slot w st = None \<Longrightarrow> wslcompat_synth_passthru K OPS fd kind w = (-1, w)"
    and "synth_slot w st = Some i \<Longrightarrow> passthru_fd OPS i kind (pinned i w) = (real, v) \<Longrightarrow> keeps_synth (pinned i w) v
      \<Longrightarrow> wslcompat_synth_passthru K OPS fd kind w = (real, v\<lparr>synth_table := synth_table w\<rparr>)"
  using assms by (simp_all add: wslcompat_synth_passthru_def pin_fd_slot unpin_slot keeps_synth_def)

end
