(* ===== verification/Proc.thy ===== *)
theory Proc
  imports Dispatch
begin

text \<open>
  proc.c: the synthetic files \<^verbatim>\<open>/proc/sys/vm/mmap_min_addr\<close>, whose text is rendered from a
  tunable on every read, and \<^verbatim>\<open>/proc/pid/mem\<close>, which reads and writes another process's
  memory with the file position as the address.
\<close>

section \<open>mmap_min_addr\<close>

abbreviation (input) SEEK_SET :: int where "SEEK_SET \<equiv> 0"
abbreviation (input) SEEK_CUR :: int where "SEEK_CUR \<equiv> 1"
abbreviation (input) SEEK_END :: int where "SEEK_END \<equiv> 2"

text \<open>\<^verbatim>\<open>__builtin_add_overflow\<close> on \<^verbatim>\<open>off_t\<close>: the sum, if it is representable.\<close>

definition add_off :: "int \<Rightarrow> int \<Rightarrow> int option" where
  "add_off a b = (if - (2 ^ 63) \<le> a + b \<and> a + b < 2 ^ 63 then Some (a + b) else None)"

definition mmap_min_addr_text :: "'k world \<Rightarrow> cstring" where
  "mmap_min_addr_text w =
     snprintf_str 32 (show_int (wslcompat_tunable_int (options w) ''mmap_min_addr'' 4096) @ [CHR 0x0A])"

definition mmap_min_addr_read :: "nat \<Rightarrow> nat \<Rightarrow> ('k, bytes) call" where
  "mmap_min_addr_read i count w =
     (let text = mmap_min_addr_text w;
          pos = se_pos (synth_table w ! i)
      in if pos \<ge> int (length text) then (Some [], w)
         else
           (let n = min count (nat (int (length text) - pos))
            in (Some (take n (drop (nat pos) text)), upd_entry i (\<lambda>e. e\<lparr>se_pos := pos + int n\<rparr>) w)))"

text \<open>The part both lseek handlers share: reject a negative position, else store it.\<close>

definition seek_to :: "nat \<Rightarrow> int option \<Rightarrow> ('k, int) call" where
  "seek_to i new_pos w =
     (case new_pos of
        None \<Rightarrow> fail_with EINVAL w
      | Some p \<Rightarrow> if p < 0 then fail_with EINVAL w else (Some p, upd_entry i (\<lambda>e. e\<lparr>se_pos := p\<rparr>) w))"

definition mmap_min_addr_lseek :: "nat \<Rightarrow> int \<Rightarrow> int \<Rightarrow> ('k, int) call" where
  "mmap_min_addr_lseek i offset whence w =
     (if whence = SEEK_SET \<or> whence = SEEK_END then seek_to i (Some offset) w
      else if whence = SEEK_CUR then seek_to i (add_off (se_pos (synth_table w ! i)) offset) w
      else fail_with EINVAL w)"

definition mmap_min_addr_pread :: "nat \<Rightarrow> nat \<Rightarrow> int \<Rightarrow> ('k, bytes) call" where
  "mmap_min_addr_pread i count offset w =
     (if offset < 0 then fail_with EINVAL w
      else
        (let text = mmap_min_addr_text w
         in if offset \<ge> int (length text) then (Some [], w)
            else (Some (take (min count (nat (int (length text) - offset))) (drop (nat offset) text)), w)))"

definition mmap_min_addr_describe :: "nat \<Rightarrow> nat \<Rightarrow> 'k world \<Rightarrow> cstring \<times> 'k world" where
  "mmap_min_addr_describe i sz w = (snprintf_str sz ''/proc/sys/vm/mmap_min_addr polyfill'', w)"

definition mmap_min_addr_ops :: "'k synth_ops" where
  "mmap_min_addr_ops = no_ops\<lparr>op_read := Some mmap_min_addr_read, op_pread := Some mmap_min_addr_pread,
     op_lseek := Some mmap_min_addr_lseek, op_describe := Some mmap_min_addr_describe\<rparr>"

section \<open>/proc/pid/mem\<close>

text \<open>
  \<^verbatim>\<open>process_vm_readv\<close> and \<^verbatim>\<open>process_vm_writev\<close> with one remote range: the pid, the local
  buffers (their lengths, or their contents), the remote address and length.
\<close>

record 'k vm_kernel =
  vm_readv :: "int \<Rightarrow> nat list \<Rightarrow> 64 word \<Rightarrow> nat \<Rightarrow> 'k \<Rightarrow> (int + bytes) \<times> 'k"
  vm_writev :: "int \<Rightarrow> bytes list \<Rightarrow> 64 word \<Rightarrow> nat \<Rightarrow> 'k \<Rightarrow> (int + int) \<times> 'k"

definition null_vm :: "'k vm_kernel" where
  "null_vm = \<lparr>vm_readv = (\<lambda>_ _ _ _ k. (Inl ENOSYS, k)), vm_writev = (\<lambda>_ _ _ _ k. (Inl ENOSYS, k))\<rparr>"

definition entry_pid :: "nat \<Rightarrow> 'k world \<Rightarrow> int" where
  "entry_pid i w = (case se_userptr (synth_table w ! i) of Pid_ptr p \<Rightarrow> p | _ \<Rightarrow> 0)"

text \<open>The position is an atomic \<^verbatim>\<open>off_t\<close>; adding to it wraps.\<close>

definition wrap_off :: "int \<Rightarrow> int" where
  "wrap_off x = sint (word_of_int x :: 64 word)"

definition advance_pos :: "nat \<Rightarrow> int \<Rightarrow> 'k world \<Rightarrow> 'k world" where
  "advance_pos i n w = (if n > 0 then upd_entry i (\<lambda>e. e\<lparr>se_pos := wrap_off (se_pos e + n)\<rparr>) w else w)"

definition proc_pid_mem_pread :: "'k vm_kernel \<Rightarrow> nat \<Rightarrow> nat \<Rightarrow> int \<Rightarrow> ('k, bytes) call" where
  "proc_pid_mem_pread V i count offset w =
     sys (vm_readv V (entry_pid i w) [count] (word_of_int offset) count) w"

definition proc_pid_mem_pwrite :: "'k vm_kernel \<Rightarrow> nat \<Rightarrow> bytes \<Rightarrow> int \<Rightarrow> ('k, int) call" where
  "proc_pid_mem_pwrite V i buf offset w =
     sys (vm_writev V (entry_pid i w) [buf] (word_of_int offset) (length buf)) w"

definition proc_pid_mem_read :: "'k vm_kernel \<Rightarrow> nat \<Rightarrow> nat \<Rightarrow> ('k, bytes) call" where
  "proc_pid_mem_read V i count w =
     (let (r, w1) = sys (vm_readv V (entry_pid i w) [count] (word_of_int (se_pos (synth_table w ! i))) count) w
      in case r of None \<Rightarrow> (None, w1) | Some b \<Rightarrow> (Some b, advance_pos i (int (length b)) w1))"

definition proc_pid_mem_write :: "'k vm_kernel \<Rightarrow> nat \<Rightarrow> bytes \<Rightarrow> ('k, int) call" where
  "proc_pid_mem_write V i buf w =
     (let (r, w1) = sys (vm_writev V (entry_pid i w) [buf] (word_of_int (se_pos (synth_table w ! i))) (length buf)) w
      in case r of None \<Rightarrow> (None, w1) | Some n \<Rightarrow> (Some n, advance_pos i n w1))"

text \<open>The total of a vector; \<open>None\<close> when the sum overflows \<^verbatim>\<open>size_t\<close> or exceeds \<^verbatim>\<open>SSIZE_MAX\<close>.\<close>

fun iov_total :: "nat list \<Rightarrow> nat \<Rightarrow> nat option" where
  "iov_total [] acc = (if acc > 2 ^ 63 - 1 then None else Some acc)"
| "iov_total (n # ns) acc = (if acc + n \<ge> 2 ^ 64 then None else iov_total ns (acc + n))"

definition proc_pid_mem_preadv :: "'k vm_kernel \<Rightarrow> nat \<Rightarrow> nat list \<Rightarrow> int \<Rightarrow> ('k, bytes) call" where
  "proc_pid_mem_preadv V i iov offset w =
     (case iov_total iov 0 of
        None \<Rightarrow> fail_with EINVAL w
      | Some len \<Rightarrow> sys (vm_readv V (entry_pid i w) iov (word_of_int offset) len) w)"

definition proc_pid_mem_pwritev :: "'k vm_kernel \<Rightarrow> nat \<Rightarrow> bytes list \<Rightarrow> int \<Rightarrow> ('k, int) call" where
  "proc_pid_mem_pwritev V i iov offset w =
     (case iov_total (map length iov) 0 of
        None \<Rightarrow> fail_with EINVAL w
      | Some len \<Rightarrow> sys (vm_writev V (entry_pid i w) iov (word_of_int offset) len) w)"

definition proc_pid_mem_readv :: "'k vm_kernel \<Rightarrow> nat \<Rightarrow> nat list \<Rightarrow> ('k, bytes) call" where
  "proc_pid_mem_readv V i iov w =
     (let (r, w1) = proc_pid_mem_preadv V i iov (se_pos (synth_table w ! i)) w
      in case r of None \<Rightarrow> (None, w1) | Some b \<Rightarrow> (Some b, advance_pos i (int (length b)) w1))"

definition proc_pid_mem_writev :: "'k vm_kernel \<Rightarrow> nat \<Rightarrow> bytes list \<Rightarrow> ('k, int) call" where
  "proc_pid_mem_writev V i iov w =
     (let (r, w1) = proc_pid_mem_pwritev V i iov (se_pos (synth_table w ! i)) w
      in case r of None \<Rightarrow> (None, w1) | Some n \<Rightarrow> (Some n, advance_pos i n w1))"

definition proc_pid_mem_lseek :: "nat \<Rightarrow> int \<Rightarrow> int \<Rightarrow> ('k, int) call" where
  "proc_pid_mem_lseek i offset whence w =
     (if whence = SEEK_SET then seek_to i (Some offset) w
      else if whence = SEEK_CUR then seek_to i (add_off (se_pos (synth_table w ! i)) offset) w
      else fail_with EINVAL w)"

definition proc_pid_mem_describe :: "nat \<Rightarrow> nat \<Rightarrow> 'k world \<Rightarrow> cstring \<times> 'k world" where
  "proc_pid_mem_describe i sz w =
     (snprintf_str sz (''/proc/'' @ show_int (entry_pid i w) @ ''/mem polyfill''), w)"

definition proc_pid_mem_ops :: "'k vm_kernel \<Rightarrow> 'k synth_ops" where
  "proc_pid_mem_ops V = no_ops\<lparr>op_read := Some (proc_pid_mem_read V), op_write := Some (proc_pid_mem_write V),
     op_pread := Some (proc_pid_mem_pread V), op_pwrite := Some (proc_pid_mem_pwrite V),
     op_readv := Some (proc_pid_mem_readv V), op_writev := Some (proc_pid_mem_writev V),
     op_preadv := Some (proc_pid_mem_preadv V), op_pwritev := Some (proc_pid_mem_pwritev V),
     op_lseek := Some proc_pid_mem_lseek, op_describe := Some proc_pid_mem_describe\<rparr>"

abbreviation (input) INT_MAX :: int where "INT_MAX \<equiv> 2147483647"

definition proc_parse_pid :: "'k kernel \<Rightarrow> cstring \<Rightarrow> 'k world \<Rightarrow> int" where
  "proc_parse_pid K p w =
     (if strncmp_eq 5 p ''self/'' then k_getpid K (kst w)
      else
        (let (v, rest) = strtol p
         in if (case rest of c # _ \<Rightarrow> c \<noteq> CHR ''/'' | [] \<Rightarrow> True) \<or> v \<le> 0 \<or> v > INT_MAX then -1 else v))"

section \<open>The open handlers\<close>

text \<open>\<open>None\<close> declines; \<open>Some r\<close> claims the path with result \<open>r\<close> of the open.\<close>

definition handle_mmap_min_addr ::
  "'k kernel \<Rightarrow> 'k ops_table \<Rightarrow> int \<Rightarrow> 'k world \<Rightarrow> int option option \<times> 'k world" where
  "handle_mmap_min_addr K OPS flags w =
     (let (fd, w1) = wslcompat_synth_open K OPS flags Mmap_min_addr_ops Null_ptr w in (Some fd, w1))"

definition handle_proc_pid_mem ::
  "'k kernel \<Rightarrow> 'k ops_table \<Rightarrow> cstring \<Rightarrow> int \<Rightarrow> 'k world \<Rightarrow> int option option \<times> 'k world" where
  "handle_proc_pid_mem K OPS pathname flags w =
     (let pid = proc_parse_pid K (drop 6 pathname) w
      in if pid \<le> 0 then (None, w)
         else (let (fd, w1) = wslcompat_synth_open K OPS flags Proc_pid_mem_ops (Pid_ptr pid) w in (Some fd, w1)))"

section \<open>What the handlers change\<close>

lemma same_frames_pos: "same_frames w (upd_entry i (\<lambda>e. e\<lparr>se_pos := g e\<rparr>) w)"
  by (rule same_frames_upd) (simp add: entry_frame_def entry_core_def)

lemma same_frames_advance: "same_frames w v \<Longrightarrow> same_frames w (advance_pos i n v)"
  using same_frames_trans [OF _ same_frames_pos] by (auto simp: advance_pos_def)

lemma same_frames_errno [simp]: "same_frames w (v\<lparr>errno := x\<rparr>) = same_frames w v"
  by (simp add: same_frames_def)

lemma seek_to_frames: "same_frames w (snd (seek_to i p w))"
  by (simp add: seek_to_def fail_with_def same_frames_pos split: option.split)

lemma mmap_min_addr_frames:
  "same_frames w (snd (mmap_min_addr_read i count w))"
  "same_frames w (snd (mmap_min_addr_pread i count off w))"
  "same_frames w (snd (mmap_min_addr_lseek i off whence w))"
  by (simp_all add: mmap_min_addr_read_def mmap_min_addr_pread_def mmap_min_addr_lseek_def Let_def
      fail_with_def seek_to_frames same_frames_pos)

lemma proc_pid_mem_frames:
  "same_frames w (snd (proc_pid_mem_read V i count w))" "same_frames w (snd (proc_pid_mem_write V i buf w))"
  "same_frames w (snd (proc_pid_mem_pread V i count off w))" "same_frames w (snd (proc_pid_mem_pwrite V i buf off w))"
  "same_frames w (snd (proc_pid_mem_preadv V i lens off w))" "same_frames w (snd (proc_pid_mem_pwritev V i bufs off w))"
  "same_frames w (snd (proc_pid_mem_readv V i lens w))" "same_frames w (snd (proc_pid_mem_writev V i bufs w))"
  "same_frames w (snd (proc_pid_mem_lseek i off whence w))"
proof -
  show pv: "same_frames w (snd (proc_pid_mem_preadv V i lens off w))" for off
    by (simp add: proc_pid_mem_preadv_def fail_with_def split: option.split)
  show pwv: "same_frames w (snd (proc_pid_mem_pwritev V i bufs off w))" for off
    by (simp add: proc_pid_mem_pwritev_def fail_with_def split: option.split)
  show "same_frames w (snd (proc_pid_mem_readv V i lens w))" "same_frames w (snd (proc_pid_mem_writev V i bufs w))"
    using pv pwv by (simp_all add: proc_pid_mem_readv_def proc_pid_mem_writev_def case_prod_beta Let_def
        same_frames_advance split: option.split)
qed (simp_all add: proc_pid_mem_read_def proc_pid_mem_write_def proc_pid_mem_pread_def proc_pid_mem_pwrite_def
    proc_pid_mem_lseek_def case_prod_beta Let_def fail_with_def seek_to_frames same_frames_advance split: option.split)

section \<open>Reading the text in pieces\<close>

text \<open>Successive reads with the given sizes, and the bytes they returned in order.\<close>

fun read_pieces :: "nat \<Rightarrow> nat list \<Rightarrow> 'k world \<Rightarrow> bytes \<times> 'k world" where
  "read_pieces i [] w = ([], w)"
| "read_pieces i (n # ns) w =
     (let (r, w1) = mmap_min_addr_read i n w;
          (rest, w2) = read_pieces i ns w1
      in ((case r of Some b \<Rightarrow> b | None \<Rightarrow> []) @ rest, w2))"

lemma drop_min_length: "drop p xs = drop (min p (length xs)) xs"
  by (simp add: min_def)

lemma read_step:
  assumes "0 \<le> se_pos (synth_table w ! i)" and "i < length (synth_table w)"
  shows "fst (mmap_min_addr_read i n w) = Some (take n (drop (nat (se_pos (synth_table w ! i))) (mmap_min_addr_text w)))"
    and "min (nat (se_pos (synth_table (snd (mmap_min_addr_read i n w)) ! i))) (length (mmap_min_addr_text w))
       = min (nat (se_pos (synth_table w ! i)) + n) (length (mmap_min_addr_text w))"
    and "0 \<le> se_pos (synth_table (snd (mmap_min_addr_read i n w)) ! i)"
    and "mmap_min_addr_text (snd (mmap_min_addr_read i n w)) = mmap_min_addr_text w"
    and "length (synth_table (snd (mmap_min_addr_read i n w))) = length (synth_table w)"
proof -
  let ?t = "mmap_min_addr_text w" and ?p = "se_pos (synth_table w ! i)"
  have len: "nat (int (length ?t) - ?p) = length (drop (nat ?p) ?t)" using assms(1) by (simp add: nat_diff_distrib)
  have tk: "take (min n (length t - p)) (drop p t) = take n (drop p t)" for t :: "char list" and p
    by (simp add: min_def)
  show "fst (mmap_min_addr_read i n w) = Some (take n (drop (nat ?p) ?t))"
    using assms(1) by (auto simp: mmap_min_addr_read_def Let_def len tk)
  show "min (nat (se_pos (synth_table (snd (mmap_min_addr_read i n w)) ! i))) (length ?t) = min (nat ?p + n) (length ?t)"
    "0 \<le> se_pos (synth_table (snd (mmap_min_addr_read i n w)) ! i)"
    using assms by (auto simp: mmap_min_addr_read_def Let_def synth_table_upd_entry nat_add_distrib)
  show "mmap_min_addr_text (snd (mmap_min_addr_read i n w)) = ?t"
    "length (synth_table (snd (mmap_min_addr_read i n w))) = length (synth_table w)"
    by (simp_all add: mmap_min_addr_read_def Let_def mmap_min_addr_text_def)
qed

lemma read_pieces_spec:
  assumes "0 \<le> se_pos (synth_table w ! i)" and "i < length (synth_table w)"
  shows "fst (read_pieces i ns w) = take (sum_list ns) (drop (nat (se_pos (synth_table w ! i))) (mmap_min_addr_text w))"
  using assms
proof (induction ns arbitrary: w)
  case Nil
  then show ?case by simp
next
  case (Cons n ns)
  let ?w1 = "snd (mmap_min_addr_read i n w)" and ?t = "mmap_min_addr_text w"
  let ?p = "nat (se_pos (synth_table w ! i))" and ?p1 = "nat (se_pos (synth_table ?w1 ! i))"
  note r = read_step [OF Cons.prems, of n]
  have "fst (read_pieces i ns ?w1) = take (sum_list ns) (drop ?p1 ?t)"
    using Cons.IH [of ?w1] Cons.prems r by simp
  also have "drop ?p1 ?t = drop (?p + n) ?t"
    using drop_min_length [of ?p1 ?t] drop_min_length [of "?p + n" ?t] r(2) by simp
  finally have "fst (read_pieces i ns ?w1) = take (sum_list ns) (drop (?p + n) ?t)" .
  with r(1) show ?case
    by (simp add: case_prod_beta Let_def take_add add.commute)
qed

lemma iov_total_acc:
  assumes "acc < 2 ^ 64"
  shows "iov_total ns acc = (if acc + sum_list ns \<le> 2 ^ 63 - 1 then Some (acc + sum_list ns) else None)"
  using assms by (induction ns arbitrary: acc) auto

section \<open>Properties\<close>

text \<open>
  C31: However an application splits its reads of the synthetic \<^verbatim>\<open>mmap_min_addr\<close> file, the
  pieces put together are the text from the current position on, cut where the requested
  sizes end; a positioned read returns the same bytes as a read at that position.
\<close>

theorem mmap_min_addr_reads:
  assumes "0 \<le> se_pos (synth_table w ! i)" and "i < length (synth_table w)"
  shows "fst (read_pieces i ns w)
       = take (sum_list ns) (drop (nat (se_pos (synth_table w ! i))) (mmap_min_addr_text w))
    \<and> fst (mmap_min_addr_pread i n (se_pos (synth_table w ! i)) w) = fst (mmap_min_addr_read i n w)"
proof
  show "fst (read_pieces i ns w)
      = take (sum_list ns) (drop (nat (se_pos (synth_table w ! i))) (mmap_min_addr_text w))"
    using assms by (rule read_pieces_spec)
  show "fst (mmap_min_addr_pread i n (se_pos (synth_table w ! i)) w) = fst (mmap_min_addr_read i n w)"
    using assms(1) by (simp add: mmap_min_addr_pread_def mmap_min_addr_read_def Let_def)
qed

theorem mmap_min_addr_reads_witness:
  "fst (read_pieces 0 [2, 1] ((static_world ())\<lparr>synth_table := [zero_entry]\<rparr>))
     = take 3 (mmap_min_addr_text ((static_world ())\<lparr>synth_table := [zero_entry]\<rparr>))"
  using mmap_min_addr_reads [of "(static_world ())\<lparr>synth_table := [zero_entry]\<rparr>" 0 "[2, 1]"]
  by (simp add: zero_entry_def)

section \<open>Sizes and paths\<close>

lemma proc_parse_pid_show:
  assumes "no_digit rest" and "n \<le> 2 ^ 63 - 1"
  shows "proc_parse_pid K (show_nat n @ rest) w =
      (if (\<exists>r. rest = CHR ''/'' # r) \<and> 0 < n \<and> n \<le> 2147483647 then int n else -1)"
proof -
  obtain c cs where sn: "show_nat n = c # cs" "is_digit c" using show_nat_first [of n] by auto
  then have "\<not> strncmp_eq 5 (show_nat n @ rest) ''self/''"
    by (auto simp: strncmp_eq_def is_digit_def numeral_eq_Suc)
  moreover have "strtol (show_nat n @ rest) = (int n, rest)"
    using strtol_show_int [OF assms(1), of "int n"] assms(2)
    by (simp add: show_int_def LONG_MIN_def LONG_MAX_def)
  ultimately show ?thesis by (auto simp: proc_parse_pid_def split: list.splits)
qed

lemma proc_parse_pid_self: "proc_parse_pid K (''self/'' @ rest) w = k_getpid K (kst w)"
  by (simp add: proc_parse_pid_def strncmp_eq_def numeral_eq_Suc)




end
