(* ===== verification/Tty.thy ===== *)
theory Tty
  imports Proc
begin

text \<open>
  tty.c: a terminal whose settings the application changes is replaced by a synthetic
  descriptor that keeps the real terminal in \<^verbatim>\<open>real_fd\<close> and emulates the VMIN and VTIME
  rules of raw reads, which the WSL1 kernel does not implement.  The entry's user pointer
  is the index of a \<^verbatim>\<open>tty_state\<close>.
\<close>

section \<open>The terminal's calls\<close>

text \<open>
  poll on one descriptor for input, ioctl (which may write through its argument), and
  ttyname_r, which writes the name into a buffer of the given size.
\<close>

record 'k tty_kernel =
  t_poll :: "int \<Rightarrow> int \<Rightarrow> 'k \<Rightarrow> (int + int) \<times> 'k"
  t_ioctl :: "int \<Rightarrow> int \<Rightarrow> uarg \<Rightarrow> 'k \<Rightarrow> (int + int \<times> uarg) \<times> 'k"
  t_ttyname_r :: "int \<Rightarrow> nat \<Rightarrow> 'k \<Rightarrow> (int + cstring) \<times> 'k"

abbreviation (input) TCGETS :: int where "TCGETS \<equiv> 21505"
abbreviation (input) TCSETS :: int where "TCSETS \<equiv> 21506"
abbreviation (input) TCSETSW :: int where "TCSETSW \<equiv> 21507"
abbreviation (input) TCSETSF :: int where "TCSETSF \<equiv> 21508"
abbreviation (input) TCSETS2 :: int where "TCSETS2 \<equiv> 1076646955"
abbreviation (input) TCSETSW2 :: int where "TCSETSW2 \<equiv> 1076646956"
abbreviation (input) TCSETSF2 :: int where "TCSETSF2 \<equiv> 1076646957"

definition is_tcsets :: "int \<Rightarrow> bool" where
  "is_tcsets ioc \<longleftrightarrow> ioc \<in> {TCSETS, TCSETSW, TCSETSF, TCSETS2, TCSETSW2, TCSETSF2}"

definition tty_idx :: "nat \<Rightarrow> 'k world \<Rightarrow> nat" where
  "tty_idx i w = (case se_userptr (synth_table w ! i) of Tty_ptr j \<Rightarrow> j | _ \<Rightarrow> 0)"

definition tty_real_fd_load :: "'k kernel \<Rightarrow> nat \<Rightarrow> 'k world \<Rightarrow> int \<times> 'k world" where
  "tty_real_fd_load K i w = wslcompat_view_fd_load K i (real_view (tty_idx i w)) w"

definition tty_alloc :: "'k world \<Rightarrow> nat option \<times> 'k world" where
  "tty_alloc w =
     (case find_index (\<lambda>s. tt_claimed s = 0) (tty_table w) of
        None \<Rightarrow> (None, w)
      | Some j \<Rightarrow> (Some j, upd_tty j (\<lambda>s. s\<lparr>tt_claimed := 1\<rparr>) w))"

section \<open>Reading\<close>

definition tty_read_raw_wait :: "'k tty_kernel \<Rightarrow> int \<Rightarrow> 8 word \<Rightarrow> 8 word \<Rightarrow> ('k, int) call" where
  "tty_read_raw_wait T fd vmin vtime =
     sys (t_poll T fd (if vmin > 0 then -1 else uint vtime * 100))"

text \<open>The loop that waits for the rest of VMIN bytes; \<open>acc\<close> is what has been read.\<close>

function tty_read_more ::
  "'k libc_io \<Rightarrow> 'k tty_kernel \<Rightarrow> int \<Rightarrow> nat \<Rightarrow> int \<Rightarrow> nat \<Rightarrow> bytes \<Rightarrow> 'k world \<Rightarrow> bytes \<times> 'k world" where
  "tty_read_more N T fd vmin timeout count acc w =
     (if length acc < vmin \<and> length acc < count then
        (let (p, w1) = sys (t_poll T fd timeout) w
         in if p = None \<or> the p \<le> 0 then (acc, w1)
            else
              (let (r, w2) = sys (n_read N fd (count - length acc)) w1
               in case r of
                    None \<Rightarrow> (acc, w2)
                  | Some b \<Rightarrow>
                      (if b = [] then (acc, w2)
                       else tty_read_more N T fd vmin timeout count (acc @ b) w2)))
      else (acc, w))"
  by pat_completeness auto
termination
  by (relation "measure (\<lambda>(N, T, fd, vmin, timeout, count, acc, w). min vmin count - length acc)")
    (auto intro!: diff_less_mono2)

declare tty_read_more.simps [simp del]

definition tty_read :: "'k kernel \<Rightarrow> 'k libc_io \<Rightarrow> 'k tty_kernel \<Rightarrow> nat \<Rightarrow> nat \<Rightarrow> ('k, bytes) call" where
  "tty_read K N T i count w =
     (let (fd, w1) = tty_real_fd_load K i w;
          s = tty_table w1 ! tty_idx i w1
      in if passthru ''ioctl'' w1 \<or> tt_canon s \<or> tt_nonblock s then sys (n_read N fd count) w1
         else if count = 0 then (Some [], w1)
         else
           (let vmin = tt_vmin s; vtime = tt_vtime s;
                (res, w2) = tty_read_raw_wait T fd vmin vtime w1
            in case res of
                 None \<Rightarrow> (None, w2)
               | Some n \<Rightarrow>
                   (if n \<le> 0 then (Some [], w2)
                    else
                      (let (r, w3) = sys (n_read N fd count) w2
                       in case r of
                            None \<Rightarrow> (None, w3)
                          | Some b \<Rightarrow>
                              (if b = [] \<or> vmin = 0 \<or> length b \<ge> unat vmin \<or> length b \<ge> count then (Some b, w3)
                               else
                                 (let (out, w4) = tty_read_more N T fd (unat vmin)
                                        (if vtime \<noteq> 0 then uint vtime * 100 else -1) count b w3
                                  in (Some out, w4)))))))"

section \<open>Control\<close>

definition tty_observe :: "nat \<Rightarrow> uarg \<Rightarrow> 'k world \<Rightarrow> 'k world" where
  "tty_observe j arg w =
     (case arg of
        Arg_termios t \<Rightarrow> upd_tty j (\<lambda>s. s\<lparr>tt_canon := c_icanon t, tt_vmin := c_vmin t, tt_vtime := c_vtime t\<rparr>) w
      | _ \<Rightarrow> w)"

definition tty_ioctl :: "'k kernel \<Rightarrow> 'k tty_kernel \<Rightarrow> nat \<Rightarrow> int \<Rightarrow> uarg \<Rightarrow> ('k, int \<times> uarg) call" where
  "tty_ioctl K T i ioc arg w =
     (let (real, w1) = tty_real_fd_load K i w;
          (r, w2) = sys (t_ioctl T real ioc arg) w1
      in case r of
           None \<Rightarrow> (None, w2)
         | Some (v, out) \<Rightarrow>
             (Some (v, out), if v = 0 \<and> is_tcsets ioc then tty_observe (tty_idx i w) arg w2 else w2))"

definition tty_release :: "'k kernel \<Rightarrow> nat \<Rightarrow> 'k world \<Rightarrow> 'k world" where
  "tty_release K i w =
     (let j = tty_idx i w;
          (c, w1) = sys (k_close K (tt_real_fd (tty_table w ! j))) w
      in upd_tty j (\<lambda>s. s\<lparr>tt_real_fd := -1, tt_overrides := wslcompat_override_init (tt_overrides s),
           tt_claimed := 0\<rparr>) w1)"

definition tty_fcntl :: "'k kernel \<Rightarrow> nat \<Rightarrow> int \<Rightarrow> int \<Rightarrow> ('k, int) call" where
  "tty_fcntl K i cmd arg w =
     (let (real, w1) = tty_real_fd_load K i w;
          (r, w2) = sys (k_fcntl K real cmd arg) w1
      in if r = None then (r, w2)
         else (r, if cmd = F_SETFL
                  then upd_tty (tty_idx i w) (\<lambda>s. s\<lparr>tt_nonblock := has_flag arg O_NONBLOCK\<rparr>) w2 else w2))"

definition tty_passthru :: "'k kernel \<Rightarrow> nat \<Rightarrow> synth_op_kind \<Rightarrow> 'k world \<Rightarrow> int \<times> 'k world" where
  "tty_passthru K i kind w = tty_real_fd_load K i w"

definition tty_relocate :: "'k kernel \<Rightarrow> nat \<Rightarrow> int \<Rightarrow> 'k world \<Rightarrow> int \<times> 'k world" where
  "tty_relocate K i targetfd w =
     (let (new_fd, w1) = wslcompat_view_fd_relocate K i (real_view (tty_idx i w)) targetfd w
      in (if new_fd > 0 then 1 else 0, w1))"

definition tty_describe :: "'k kernel \<Rightarrow> 'k tty_kernel \<Rightarrow> nat \<Rightarrow> nat \<Rightarrow> 'k world \<Rightarrow> cstring \<times> 'k world" where
  "tty_describe K T i sz w =
     (let (real, w1) = tty_real_fd_load K i w;
          (name, w2) = (if real < 0 then (None, w1) else sys (t_ttyname_r T real 64) w1)
      in (snprintf_str sz (case name of
                             None \<Rightarrow> ''tty wrap (real_fd='' @ show_int real @ '')''
                           | Some s \<Rightarrow> ''tty wrap for '' @ s), w2))"

definition tty_ops :: "'k kernel \<Rightarrow> 'k libc_io \<Rightarrow> 'k tty_kernel \<Rightarrow> 'k synth_ops" where
  "tty_ops K N T = no_ops\<lparr>op_read := Some (tty_read K N T), op_ioctl := Some (tty_ioctl K T),
     op_fcntl := Some (tty_fcntl K), op_release := Some (tty_release K), op_passthru := Some (tty_passthru K),
     op_relocate := Some (tty_relocate K), op_describe := Some (tty_describe K T)\<rparr>"

section \<open>Wrapping a terminal\<close>

text \<open>The error exit: \<open>real\<close> and \<open>synth\<close> are -1 while not opened.\<close>

definition tty_install_fail :: "'k kernel \<Rightarrow> 'k ops_table \<Rightarrow> nat \<Rightarrow> int \<Rightarrow> int \<Rightarrow> ('k, unit) call" where
  "tty_install_fail K OPS j real synth w =
     (if synth \<ge> 0 then (None, snd (close_shim K OPS synth w))
      else
        (let w1 = (if real \<ge> 0 then snd (sys (k_close K real) w) else w)
         in (None, upd_tty j (\<lambda>s. s\<lparr>tt_claimed := 0\<rparr>) w1)))"

definition wslcompat_tty_install :: "'k kernel \<Rightarrow> 'k ops_table \<Rightarrow> int \<Rightarrow> termios \<Rightarrow> ('k, unit) call" where
  "wslcompat_tty_install K OPS fd initial w =
     (let (a, w0) = tty_alloc w
      in case a of
           None \<Rightarrow> (None, w0)
         | Some j \<Rightarrow>
     (let (r, w1) = sys (k_fcntl K fd F_DUPFD_CLOEXEC 3) w0
      in case r of
           None \<Rightarrow> tty_install_fail K OPS j (-1) (-1) w1
         | Some real \<Rightarrow>
     (let (fl, w2) = sys (k_fcntl K fd F_GETFL 0) w1
      in case fl of
           None \<Rightarrow> tty_install_fail K OPS j real (-1) w2
         | Some flags \<Rightarrow>
     (let (ff, w3) = sys (k_fcntl K fd F_GETFD 0) w2
      in case ff of
           None \<Rightarrow> tty_install_fail K OPS j real (-1) w3
         | Some fdflags \<Rightarrow>
     (let w4 = upd_tty j (\<lambda>s. s\<lparr>tt_real_fd := real, tt_overrides := wslcompat_override_init (tt_overrides s),
                 tt_canon := c_icanon initial, tt_vmin := c_vmin initial, tt_vtime := c_vtime initial,
                 tt_nonblock := has_flag flags O_NONBLOCK\<rparr>) w3;
          (sy, w5) = wslcompat_synth_open K OPS O_CLOEXEC Tty_ops (Tty_ptr j) w4
      in case sy of
           None \<Rightarrow> tty_install_fail K OPS j real (-1) w5
         | Some synth \<Rightarrow>
             (let (d, w6) = dup3_shim K OPS synth fd (if has_flag fdflags FD_CLOEXEC then O_CLOEXEC else 0) w5
              in if d = None then tty_install_fail K OPS j real synth w6
                 else (Some (), snd (close_shim K OPS synth w6))))))))"

section \<open>What the handlers change\<close>

lemma keeps_synth_upd_tty [simp]: "keeps_synth w (upd_tty j f v) = keeps_synth w v"
  by (simp add: keeps_synth_def)

lemma tty_load_quiet: "quiet w (snd (tty_real_fd_load K i w))"
  unfolding tty_real_fd_load_def by (rule view_load_quiet)

lemma tty_load_keeps: "keeps_synth w (snd (tty_real_fd_load K i w))"
  by (rule quiet_keeps_synth [OF tty_load_quiet])

lemma real_cas_keeps: "keeps_synth w (snd (wslcompat_view_fd_cas K e (real_view j) x y w))"
  by (rule view_cas_cases [of w K e "real_view j" x y])
    (auto simp: real_view_def quiet_keeps_synth)

lemma real_relocate_keeps: "keeps_synth w (snd (wslcompat_view_fd_relocate K e (real_view j) targetfd w))"
proof -
  let ?l = "wslcompat_view_fd_load K e (real_view j) w"
  have l: "keeps_synth w (snd ?l)" by (rule quiet_keeps_synth [OF view_load_quiet])
  have "keeps_synth w (snd (wslcompat_view_fd_cas K e (real_view j) x y (snd (sys f (snd ?l)))))"
    for x y and f :: "'a \<Rightarrow> (int + int) \<times> 'a"
    using l by (intro keeps_synth_trans [OF _ real_cas_keeps]) simp
  with l show ?thesis
    by (simp add: wslcompat_view_fd_relocate_def Let_def case_prod_beta split: option.split)
qed

lemma tty_keeps:
  "keeps_synth w (tty_release K i w)" "keeps_synth w (snd (tty_passthru K i kind w))"
  "keeps_synth w (snd (tty_relocate K i fd w))" "keeps_synth w (snd (tty_describe K T i n w))"
  by (simp_all add: tty_release_def tty_passthru_def tty_relocate_def tty_describe_def Let_def case_prod_beta
      tty_load_keeps real_relocate_keeps)

lemma tty_read_more_keeps: "keeps_synth w (snd (tty_read_more N T fd vmin timeout count acc w))"
proof (induction N T fd vmin timeout count acc w rule: tty_read_more.induct)
  case (1 N T fd vmin timeout count acc w)
  let ?w1 = "snd (sys (t_poll T fd timeout) w)"
  let ?w2 = "snd (sys (n_read N fd (count - length acc)) ?w1)"
  have k: "keeps_synth w ?w2" by simp
  have IH: "keeps_synth ?w2 (snd (tty_read_more N T fd vmin timeout count (acc @ b) ?w2))"
    if "length acc < vmin \<and> length acc < count"
      "\<not> (fst (sys (t_poll T fd timeout) w) = None \<or> the (fst (sys (t_poll T fd timeout) w)) \<le> 0)"
      "fst (sys (n_read N fd (count - length acc)) ?w1) = Some b" "b \<noteq> []" for b
    by (rule "1.IH" [OF that(1) refl prod.collapse that(2) refl prod.collapse that(3,4)])
  show ?case
    using keeps_synth_trans [OF k IH]
    by (subst tty_read_more.simps) (auto simp: Let_def case_prod_beta split: option.split)
qed

lemma tty_io_keeps:
  "keeps_synth w (snd (tty_read K N T i count w))"
  "keeps_synth w (snd (tty_ioctl K T i ioc arg w))"
  "keeps_synth w (snd (tty_fcntl K i cmd a w))"
proof -
  have l: "keeps_synth w (snd (tty_real_fd_load K i w))" by (rule tty_load_keeps)
  have "keeps_synth w v \<Longrightarrow> keeps_synth w (snd (tty_read_more N T fd vmin timeout count acc v))"
    for v fd vmin timeout acc
    by (rule keeps_synth_trans [OF _ tty_read_more_keeps])
  with l show "keeps_synth w (snd (tty_read K N T i count w))"
    by (simp add: tty_read_def tty_read_raw_wait_def Let_def case_prod_beta split: option.split)
  show "keeps_synth w (snd (tty_ioctl K T i ioc arg w))" "keeps_synth w (snd (tty_fcntl K i cmd a w))"
    using l by (simp_all add: tty_ioctl_def tty_observe_def tty_fcntl_def Let_def case_prod_beta
        split: option.split uarg.split)
qed

section \<open>VMIN\<close>

text \<open>
  Documented behaviour of the C library's read and poll: a read returns at most what was
  asked for; a terminal with input always ready polls readable and reads at least a byte.
\<close>

definition read_bounded :: "'k libc_io \<Rightarrow> int \<Rightarrow> bool" where
  "read_bounded N fd \<longleftrightarrow> (\<forall>n k b k'. n_read N fd n k = (Inr b, k') \<longrightarrow> length b \<le> n)"

definition input_ready :: "'k libc_io \<Rightarrow> 'k tty_kernel \<Rightarrow> int \<Rightarrow> bool" where
  "input_ready N T fd \<longleftrightarrow>
     (\<forall>timeout k. \<exists>n k'. t_poll T fd timeout k = (Inr n, k') \<and> n > 0)
     \<and> (\<forall>n k. n > 0 \<longrightarrow> (\<exists>b k'. n_read N fd n k = (Inr b, k') \<and> b \<noteq> []))"

lemma sys_read_bounded:
  assumes "read_bounded N fd" and "fst (sys (n_read N fd n) w) = Some b"
  shows "length b \<le> n"
  using assms by (fastforce simp: read_bounded_def sys_def split: prod.splits sum.splits)

lemma sys_ready:
  assumes "input_ready N T fd"
  shows "\<exists>n. fst (sys (t_poll T fd timeout) w) = Some n \<and> n > 0"
    and "0 < n \<Longrightarrow> \<exists>b. fst (sys (n_read N fd n) w) = Some b \<and> b \<noteq> []"
proof -
  obtain m k' where "t_poll T fd timeout (kst w) = (Inr m, k')" "m > 0"
    using assms unfolding input_ready_def by blast
  then show "\<exists>n. fst (sys (t_poll T fd timeout) w) = Some n \<and> n > 0" by (simp add: sys_def)
  assume "0 < n"
  then obtain b k'' where "n_read N fd n (kst w) = (Inr b, k'')" "b \<noteq> []"
    using assms unfolding input_ready_def by blast
  then show "\<exists>b. fst (sys (n_read N fd n) w) = Some b \<and> b \<noteq> []" by (simp add: sys_def)
qed

lemma tty_read_more_prefix: "\<exists>more. fst (tty_read_more N T fd vmin timeout count acc w) = acc @ more"
proof (induction N T fd vmin timeout count acc w rule: tty_read_more.induct)
  case (1 N T fd vmin timeout count acc w)
  let ?p = "sys (t_poll T fd timeout) w"
  let ?r = "sys (n_read N fd (count - length acc)) (snd ?p)"
  have IH: "\<exists>more. fst (tty_read_more N T fd vmin timeout count (acc @ b) (snd ?r)) = (acc @ b) @ more"
    if "length acc < vmin \<and> length acc < count" "\<not> (fst ?p = None \<or> the (fst ?p) \<le> 0)"
      "fst ?r = Some b" "b \<noteq> []" for b
    by (rule "1.IH" [OF that(1) refl prod.collapse that(2) refl prod.collapse that(3,4)])
  show ?case
    by (subst tty_read_more.simps) (use IH in \<open>auto simp: Let_def case_prod_beta split: option.split\<close>)
qed

lemma tty_read_more_bound:
  assumes "read_bounded N fd" and "length acc \<le> count"
  shows "length (fst (tty_read_more N T fd vmin timeout count acc w)) \<le> count"
  using assms
proof (induction N T fd vmin timeout count acc w rule: tty_read_more.induct)
  case (1 N T fd vmin timeout count acc w)
  let ?p = "sys (t_poll T fd timeout) w"
  let ?r = "sys (n_read N fd (count - length acc)) (snd ?p)"
  have IH: "length (fst (tty_read_more N T fd vmin timeout count (acc @ b) (snd ?r))) \<le> count"
    if "length acc < vmin \<and> length acc < count" "\<not> (fst ?p = None \<or> the (fst ?p) \<le> 0)"
      "fst ?r = Some b" "b \<noteq> []" for b
  proof (rule "1.IH" [OF that(1) refl prod.collapse that(2) refl prod.collapse that(3,4) "1.prems"(1)])
    from sys_read_bounded [OF "1.prems"(1) that(3)] that(1) show "length (acc @ b) \<le> count" by auto
  qed
  show ?case
    by (subst tty_read_more.simps) (use IH "1.prems" in \<open>auto simp: Let_def case_prod_beta split: option.split\<close>)
qed

lemma tty_read_more_complete:
  assumes "input_ready N T fd"
  shows "min vmin count \<le> length (fst (tty_read_more N T fd vmin timeout count acc w))"
  using assms
proof (induction N T fd vmin timeout count acc w rule: tty_read_more.induct)
  case (1 N T fd vmin timeout count acc w)
  let ?p = "sys (t_poll T fd timeout) w"
  let ?r = "sys (n_read N fd (count - length acc)) (snd ?p)"
  show ?case
  proof (cases "length acc < vmin \<and> length acc < count")
    case True
    obtain n where n: "fst ?p = Some n" "n > 0" using sys_ready(1) [OF "1.prems"] by blast
    have "0 < count - length acc" using True by simp
    from sys_ready(2) [OF "1.prems" this] obtain b where b: "fst ?r = Some b" "b \<noteq> []" by blast
    have "min vmin count \<le> length (fst (tty_read_more N T fd vmin timeout count (acc @ b) (snd ?r)))"
      by (rule "1.IH" [OF True refl prod.collapse _ refl prod.collapse b "1.prems"]) (use n in simp)
    moreover have "tty_read_more N T fd vmin timeout count acc w
        = tty_read_more N T fd vmin timeout count (acc @ b) (snd ?r)"
      using True n b by (simp add: tty_read_more.simps [of N T fd vmin timeout count acc w] Let_def case_prod_beta)
    ultimately show ?thesis by simp
  next
    case False
    then show ?thesis by (auto simp: tty_read_more.simps [of N T fd vmin timeout count acc w])
  qed
qed

section \<open>Properties\<close>


text \<open>A terminal with input always ready, one byte per read.\<close>

definition example_io :: "unit libc_io" where
  "example_io = null_io\<lparr>n_read := (\<lambda>_ n k. (Inr (take n ''x''), k))\<rparr>"

definition example_tty :: "unit tty_kernel" where
  "example_tty = \<lparr>t_poll = (\<lambda>_ _ k. (Inr 1, k)), t_ioctl = (\<lambda>_ _ arg k. (Inr (0, arg), k)),
     t_ttyname_r = (\<lambda>_ _ k. (Inr ''/dev/tty1'', k))\<rparr>"




end
