(* ===== verification/Handlers.thy ===== *)
theory Handlers
  imports Tty
begin

text \<open>
  The program's three handler tables put together, the proof that they meet the contract
  the synthetic descriptor table relies on, and the properties of that table with them.
\<close>

section \<open>The tables\<close>

definition wsl_ops :: "'k kernel \<Rightarrow> 'k vm_kernel \<Rightarrow> 'k libc_io \<Rightarrow> 'k tty_kernel \<Rightarrow> 'k ops_table" where
  "wsl_ops K V N T x =
     (case x of
        Mmap_min_addr_ops \<Rightarrow> mmap_min_addr_ops
      | Proc_pid_mem_ops \<Rightarrow> proc_pid_mem_ops V
      | Tty_ops \<Rightarrow> tty_ops K N T)"

lemma describe_keeps_simps:
  "keeps_synth w (snd (mmap_min_addr_describe i n w))" "keeps_synth w (snd (proc_pid_mem_describe i n w))"
  by (simp_all add: mmap_min_addr_describe_def proc_pid_mem_describe_def)

lemmas ops_simps = mmap_min_addr_ops_def proc_pid_mem_ops_def tty_ops_def no_ops_def

interpretation wsl: synth_handlers "wsl_ops K V N T" for K V N T
  by unfold_locales
    (auto simp: wsl_ops_def ops_simps tty_keeps describe_keeps_simps split: ops_id.splits)

section \<open>Registering and finding\<close>

lemma shrunk_no_match:
  assumes "shrunk es es'" and "\<forall>e\<in>set es. refcount e > 0 \<longrightarrow> \<not> same_inode (se_stat e) key"
  shows "\<forall>e\<in>set es'. refcount e > 0 \<longrightarrow> \<not> same_inode (se_stat e) key"
proof
  fix e' assume "e' \<in> set es'"
  then obtain i where i: "i < length es'" "e' = es' ! i" by (auto simp: in_set_conv_nth)
  with shrunk_length [OF assms(1)] have il: "i < length es" by simp
  from shrunk_nth [OF assms(1) il] i obtain c where "c \<le> refcount (es ! i)" "e' = (es ! i)\<lparr>refcount := c\<rparr>" by auto
  with assms(2) nth_mem [OF il] show "refcount e' > 0 \<longrightarrow> \<not> same_inode (se_stat e') key" by auto
qed

lemma find_index_cores:
  "find_index (\<lambda>e. refcount e > 0 \<and> same_inode (se_stat e) key) (synth_table w)
     = find_index (\<lambda>e. refcount e > 0 \<and> same_inode (se_stat e) key) (cores w)"
  by (rule find_index_map_cong) (simp_all add: nth_cores)

lemma find_index_only:
  assumes "\<forall>e\<in>set es. \<not> P e" and "i < length es" and "P x"
  shows "find_index P (es[i := x]) = Some i"
  using assms by (intro find_index_SomeI) (auto simp: nth_list_update)

text \<open>
  C9: A registered descriptor is found again.  If no live entry has the inode yet, then
  after registering, looking that inode up pins exactly the new entry, which carries the
  handler table, the flags, the user pointer, the probe and the caller's pid it was
  registered with; registering fails only when the table stays full.
\<close>

theorem register_then_lookup:
  assumes "live_inv w"
    and "\<forall>e\<in>set (synth_table w). refcount e > 0 \<longrightarrow> \<not> same_inode (se_stat e) st"
    and "synth_register K (wsl_ops K V N T) st ops probe uptr flags w = (Some i, w')"
  shows "synth_pin_lookup K' (wsl_ops K' V' N' T') st w'
       = (Some i, upd_entry i (\<lambda>e. e\<lparr>refcount := refcount e + 1\<rparr>) w')
    \<and> se_ops (synth_table w' ! i) = ops \<and> se_flags (synth_table w' ! i) = flags
    \<and> se_userptr (synth_table w' ! i) = uptr \<and> se_pos (synth_table w' ! i) = 0
    \<and> probe_fd (synth_table w' ! i) = probe \<and> (\<exists>k. install_pid (synth_table w' ! i) = k_getpid K k)"
  using assms(1,3)
proof (cases rule: wsl.register_cases)
  case full
  then show ?thesis by simp
next
  case (new j w1)
  then have i: "j = i" "i < length (synth_table w1)" by simp_all
  obtain sst where p: "cores w' = (cores w1)[i := published st ops uptr flags (k_getpid K (kst w1)) sst]"
    "probe_fd (synth_table w' ! i) = probe"
    using publish_spec [OF i(2), of K st ops probe uptr flags] new(7) i(1) by metis
  have "\<forall>e\<in>set (cores w). refcount e > 0 \<longrightarrow> \<not> same_inode (se_stat e) st"
    using assms(2) by (auto simp: cores_def)
  with new(3) have none: "\<forall>e\<in>set (cores w1). refcount e > 0 \<longrightarrow> \<not> same_inode (se_stat e) st"
    by (rule shrunk_no_match)
  have "find_index (\<lambda>e. refcount e > 0 \<and> same_inode (se_stat e) st) (synth_table w') = Some i"
    unfolding find_index_cores p(1)
    by (rule find_index_only) (use none i(2) in \<open>auto simp: published_def same_inode_def\<close>)
  moreover have "i < length (synth_table w')" using cores_length [OF p(1)] i(2) by simp
  then have "entry_core (synth_table w' ! i) = published st ops uptr flags (k_getpid K (kst w1)) sst"
    using arg_cong [OF p(1), of "\<lambda>es. es ! i"] i(2) by (simp add: nth_cores)
  then have "se_ops (entry_core (synth_table w' ! i)) = ops \<and> se_flags (entry_core (synth_table w' ! i)) = flags
      \<and> se_userptr (entry_core (synth_table w' ! i)) = uptr \<and> se_pos (entry_core (synth_table w' ! i)) = 0
      \<and> install_pid (entry_core (synth_table w' ! i)) = k_getpid K (kst w1)"
    by (simp add: published_def)
  ultimately show ?thesis using p(2) by (auto simp: pin_lookup_spec)
qed

theorem register_then_lookup_witness:
  "\<exists>i. fst (synth_pin_lookup (example_procs 7) (wsl_ops (example_procs 7) null_vm null_io example_tty)
        \<lparr>st_dev = 3, st_ino = 4, st_mode = 0\<rparr>
        (snd (synth_register (example_procs 5) (wsl_ops (example_procs 5) null_vm null_io example_tty)
           \<lparr>st_dev = 3, st_ino = 4, st_mode = 0\<rparr> Tty_ops 8 (Tty_ptr 0) 0
           ((static_world ())\<lparr>synth_table := [zero_entry]\<rparr>)))) = Some i"
proof -
  let ?w = "(static_world ())\<lparr>synth_table := [zero_entry]\<rparr>" and ?st = "\<lparr>st_dev = 3, st_ino = 4, st_mode = 0\<rparr>"
  let ?r = "synth_register (example_procs 5) (wsl_ops (example_procs 5) null_vm null_io example_tty) ?st Tty_ops 8
      (Tty_ptr 0) 0 ?w"
  have "live_inv ?w" by (simp add: live_inv_def live_count_def static_world_def zero_entry_def)
  moreover have "fst ?r = Some 0" by (simp add: synth_register_def numeral_2_eq_2 zero_entry_def)
  then have "?r = (Some 0, snd ?r)" by (simp add: prod_eq_iff)
  ultimately show ?thesis
    using register_then_lookup [of ?w ?st "example_procs 5" null_vm null_io example_tty Tty_ops 8 "Tty_ptr 0" 0 0
        "snd ?r" "example_procs 7" null_vm null_io example_tty]
    by (simp add: zero_entry_def)
qed

section \<open>Closing\<close>

text \<open>
  C11: A process that did not install a synthetic descriptor never releases it by closing:
  the post-close step of a vfork or fork child drops the one reference the pre-close step
  took and changes no other reference count, owner or handler state of any entry.
\<close>

theorem foreign_close_neutral:
  assumes "ident K pid st" and "cache_for pid st w" and "(pid, st) \<noteq> installer_of w i"
    and "i < length (synth_table w)" and "refcount (synth_table w ! i) > 0"
  shows "same_cores w (wslcompat_synth_post_close K (wsl_ops K V N T) (Some i) (snd (synth_pin i w)))
    \<and> tty_table (wslcompat_synth_post_close K (wsl_ops K V N T) (Some i) (snd (synth_pin i w))) = tty_table w"
proof -
  let ?u = "snd (synth_pin i w)"
  have u: "?u = upd_entry i (\<lambda>e. e\<lparr>refcount := refcount e + 1\<rparr>) w" using assms(5) by (simp add: synth_pin_def)
  have cu: "cache_for pid st ?u" using assms(2) by (simp add: u cache_for_def)
  obtain w1 where self: "wslcompat_self_starttime_pid K pid ?u = (st, w1)" "quiet ?u w1"
    using assms(1) cu by (rule self_starttimeE)
  have "installer_of ?u i = installer_of w i"
    by (simp add: u installer_of_def synth_table_upd_entry nth_update_installer)
  then have eq: "wslcompat_synth_post_close K (wsl_ops K V N T) (Some i) ?u = wslcompat_synth_unpin K (wsl_ops K V N T) i w1"
    using assms(3) self
    by (auto simp: wslcompat_synth_post_close_def wslcompat_self_starttime_def ident_getpid [OF assms(1)]
        installer_of_def quiet_fields [OF self(2)])
  have "synth_table w1 = synth_table ?u" "tty_table w1 = tty_table w" "synth_live_entries w1 = synth_live_entries w"
    by (simp_all add: quiet_fields [OF self(2)] u)
  then have "wslcompat_synth_unpin K (wsl_ops K V N T) i w1 = w1\<lparr>synth_table := synth_table w\<rparr>"
    using assms(4,5) u by (intro unpin_pinned) simp_all
  with eq \<open>tty_table w1 = tty_table w\<close> \<open>synth_live_entries w1 = synth_live_entries w\<close> show ?thesis
    by (simp add: same_cores_def cores_def)
qed

theorem foreign_close_neutral_witness:
  "let w = (static_world ())\<lparr>synth_table := [zero_entry\<lparr>refcount := 1, install_pid := 5, install_starttime := 50\<rparr>]\<rparr>
   in same_cores w (wslcompat_synth_post_close (example_procs 7)
        (wsl_ops (example_procs 7) null_vm null_io example_tty) (Some 0) (snd (synth_pin 0 w)))"
proof -
  let ?w = "(static_world ())\<lparr>synth_table := [zero_entry\<lparr>refcount := 1, install_pid := 5, install_starttime := 50\<rparr>]\<rparr>"
  have "cache_for 7 70 ?w" "(7, 70) \<noteq> installer_of ?w 0"
    by (simp_all add: cache_for_def static_world_def installer_of_def)
  with foreign_close_neutral [OF example_ident(2), of ?w 0] show ?thesis by (simp add: Let_def)
qed

text \<open>The reference counts after the installer's post-close step, by what it decided.\<close>

lemma drop_pinned:
  assumes "i < length es" and "refcount (es ! i) > 0"
  shows "drop_ref i (es[i := (es ! i)\<lparr>refcount := refcount (es ! i) + 1\<rparr>]) = es"
  using assms by (simp add: drop_ref_def)

lemma probe_store_tty: "tty_table (synth_probe_fd_store K i fd w) = tty_table w"
  unfolding synth_probe_fd_store_def
  by (rule view_store_cases [of w K i "probe_view i" fd]) (auto simp: probe_view_def quiet_fields)

lemma unpin_last_tty:
  assumes "refcount (synth_table w ! i) = 1" and "se_ops (synth_table w ! i) = Tty_ops" and "i < length (synth_table w)"
  shows "tty_table (wslcompat_synth_unpin K (wsl_ops K V N T) i w)
       = tty_table (tty_release K i (upd_entry i (\<lambda>e. e\<lparr>refcount := -1\<rparr>) w))"
proof -
  let ?v = "upd_entry i (\<lambda>e. e\<lparr>refcount := -1\<rparr>) w"
  have "op_release (wsl_ops K V N T (se_ops (synth_table ?v ! i))) = Some (tty_release K)"
    using assms(2,3) by (simp add: synth_table_upd_entry wsl_ops_def ops_simps)
  then have "tty_table (synth_cleanup K (wsl_ops K V N T) i ?v) = tty_table (tty_release K i ?v)"
    by (simp add: synth_cleanup_def Let_def case_prod_beta probe_store_tty quiet_fields [OF probe_load_quiet])
  with assms(1) show ?thesis by (simp add: wslcompat_synth_unpin_def Let_def)
qed

text \<open>The installer's post-close step when the probe's exclusive lock is granted.\<close>

lemma post_close_granted:
  assumes "ident K pid st" and "cache_for pid st w" and "(pid, st) = installer_of w i"
    and "i < length (synth_table w)" and "probe_fd (synth_table w ! i) \<noteq> -1"
    and "\<And>k. \<exists>k'. k_flock K (probe_fd (synth_table w ! i)) (LOCK_EX OR LOCK_NB) k = (Inr 0, k')"
  obtains w3 where "quiet w w3"
    and "wslcompat_synth_post_close K OPS (Some i) w = wslcompat_synth_unpin K OPS i (wslcompat_synth_unpin K OPS i w3)"
proof -
  let ?p = "probe_fd (synth_table w ! i)"
  obtain w1 where self: "wslcompat_self_starttime_pid K pid w = (st, w1)" "quiet w w1" "cache_for pid st w1"
    using assms(1,2) by (rule self_starttimeE)
  have ri: "view_read i (probe_view i) pid st w1 = ?p"
    using assms(3) by (simp add: view_read_def probe.is_installer_iff probe.quiet_installer [OF self(2)]
        probe_view_def quiet_fields [OF self(2)])
  obtain w2 where load: "wslcompat_view_fd_load K i (probe_view i) w1 = (?p, w2)" "quiet w1 w2"
    using probe.load_spec [OF assms(1) self(3), of i i] ri by metis
  obtain k' where fl: "k_flock K ?p (LOCK_EX OR LOCK_NB) (kst w2) = (Inr 0, k')" using assms(6) by blast
  let ?w3 = "w2\<lparr>kst := k'\<rparr>"
  have sr: "synth_should_release K i ?p w2 = (True, ?w3)"
    using assms(5) fl by (simp add: synth_should_release_def sys_def)
  have "quiet w2 ?w3" by (simp add: quiet_def)
  then have "quiet w ?w3" using quiet_trans [OF quiet_trans [OF self(2) load(2)]] by blast
  moreover have "wslcompat_synth_post_close K OPS (Some i) w = wslcompat_synth_unpin K OPS i (wslcompat_synth_unpin K OPS i ?w3)"
    using assms(3) self load sr
    by (simp add: wslcompat_synth_post_close_def wslcompat_self_starttime_def ident_getpid [OF assms(1)]
        installer_of_def quiet_fields [OF self(2)] synth_probe_fd_load_def)
  ultimately show thesis by (rule that)
qed

text \<open>
  C6: When the installer closes its last descriptor for a wrap and the liveness probe can
  be locked exclusively, which says that no process holds the wrap any more, the entry is
  torn down: the slot is free again, the live count drops by one, no other entry changes,
  and if the wrap was a terminal its state slot is free and its backing descriptor
  forgotten.
\<close>

theorem last_close_releases:
  assumes "ident K pid st" and "cache_for pid st w" and "(pid, st) = installer_of w i"
    and "i < length (synth_table w)" and "refcount (synth_table w ! i) = 1"
    and "probe_fd (synth_table w ! i) \<noteq> -1"
    and "\<And>k. \<exists>k'. k_flock K (probe_fd (synth_table w ! i)) (LOCK_EX OR LOCK_NB) k = (Inr 0, k')"
    and "w' = wslcompat_synth_post_close K (wsl_ops K V N T) (Some i) (snd (synth_pin i w))"
  shows "cores w' = (cores w)[i := (cores w ! i)\<lparr>refcount := 0\<rparr>]
    \<and> synth_live_entries w' = synth_live_entries w - 1
    \<and> (se_ops (synth_table w ! i) = Tty_ops \<and> tty_idx i w < length (tty_table w) \<longrightarrow>
        tt_claimed (tty_table w' ! tty_idx i w) = 0 \<and> tt_real_fd (tty_table w' ! tty_idx i w) = -1)"
proof -
  let ?O = "wsl_ops K V N T" and ?u = "snd (synth_pin i w)"
  have u: "?u = upd_entry i (\<lambda>e. e\<lparr>refcount := refcount e + 1\<rparr>) w" using assms(5) by (simp add: synth_pin_def)
  have "cache_for pid st ?u" "(pid, st) = installer_of ?u i" "i < length (synth_table ?u)"
    "probe_fd (synth_table ?u ! i) = probe_fd (synth_table w ! i)"
    using assms(2-4) by (simp_all add: u cache_for_def installer_of_def synth_table_upd_entry)
  with assms(1,6,7) obtain w3 where w3: "quiet ?u w3"
    "wslcompat_synth_post_close K ?O (Some i) ?u = wslcompat_synth_unpin K ?O i (wslcompat_synth_unpin K ?O i w3)"
    using post_close_granted [of K pid st ?u i ?O] by metis
  let ?w4 = "wslcompat_synth_unpin K ?O i w3"
  have t3: "synth_table w3 = synth_table ?u" by (simp add: quiet_fields [OF w3(1)])
  have w4: "?w4 = w3\<lparr>synth_table := synth_table w\<rparr>"
    using assms(4,5) t3 by (intro unpin_pinned [of w3 i w]) (simp_all add: u)
  have tab4: "synth_table ?w4 = synth_table w" and live4: "synth_live_entries ?w4 = synth_live_entries w"
    and tty4: "tty_table ?w4 = tty_table w"
    by (simp_all add: w4 quiet_fields [OF w3(1)] u)
  have c4: "cores ?w4 = cores w" by (simp add: cores_def tab4)
  have w': "w' = wslcompat_synth_unpin K ?O i ?w4" using assms(8) w3(2) by simp
  have i4: "i < length (synth_table ?w4)" using assms(4) by (simp add: tab4)
  have r: "refcount (cores w ! i) = 1" using assms(4,5) by (simp add: nth_cores)
  have "cores w' = (cores w)[i := (cores w ! i)\<lparr>refcount := 0\<rparr>]"
    "synth_live_entries w' = synth_live_entries w - 1"
    unfolding w' using r by (simp_all add: wsl.unpin_cores [OF i4] c4 live4)
  moreover have "tt_claimed (tty_table w' ! tty_idx i w) = 0 \<and> tt_real_fd (tty_table w' ! tty_idx i w) = -1"
    if t: "se_ops (synth_table w ! i) = Tty_ops" "tty_idx i w < length (tty_table w)"
  proof -
    let ?v = "upd_entry i (\<lambda>e. e\<lparr>refcount := -1\<rparr>) ?w4"
    have "tty_table w' = tty_table (tty_release K i ?v)"
      unfolding w' using assms(4,5) t(1) by (intro unpin_last_tty) (simp_all add: tab4)
    moreover have "tty_idx i ?v = tty_idx i w"
      using assms(4) by (simp add: tty_idx_def synth_table_upd_entry tab4)
    ultimately show ?thesis
      using t(2) by (simp add: tty_release_def Let_def case_prod_beta tty_table_upd_tty tty4)
  qed
  ultimately show ?thesis by blast
qed

theorem last_close_releases_witness:
  "let w = (static_world ())\<lparr>synth_table := [zero_entry\<lparr>refcount := 1, probe_fd := 9, se_ops := Tty_ops,
         se_userptr := Tty_ptr 0, install_pid := 5, install_starttime := 50\<rparr>], synth_live_entries := 1,
         tty_table := [zero_tty\<lparr>tt_claimed := 1, tt_real_fd := 6\<rparr>]\<rparr>;
       w' = wslcompat_synth_post_close (example_procs 5) (wsl_ops (example_procs 5) null_vm null_io example_tty) (Some 0) (snd (synth_pin 0 w))
   in synth_live_entries w' = 0 \<and> tt_claimed (tty_table w' ! 0) = 0"
proof -
  let ?w = "(static_world ())\<lparr>synth_table := [zero_entry\<lparr>refcount := 1, probe_fd := 9, se_ops := Tty_ops,
         se_userptr := Tty_ptr 0, install_pid := 5, install_starttime := 50\<rparr>], synth_live_entries := 1,
         tty_table := [zero_tty\<lparr>tt_claimed := 1, tt_real_fd := 6\<rparr>]\<rparr>"
  have c: "cache_for 5 50 ?w" "(5, 50) = installer_of ?w 0" "tty_idx 0 ?w = 0"
    by (simp_all add: cache_for_def static_world_def installer_of_def tty_idx_def)
  from last_close_releases [OF example_ident(1) c(1,2) _ _ _ _ refl, of null_vm null_io example_tty] c(3) show ?thesis
    by (simp add: Let_def example_procs_def)
qed

section \<open>Deciding that a wrap is dead\<close>

definition refers :: "(int \<Rightarrow> int + stat) \<Rightarrow> stat \<Rightarrow> int \<Rightarrow> int \<Rightarrow> bool" where
  "refers stat_of key probe fd \<longleftrightarrow> fd \<noteq> probe \<and> (\<exists>st. stat_of fd = Inr st \<and> same_inode st key)"

lemma post_close_visit_step:
  assumes "\<And>fd k. k_fstat K fd k = (stat_of fd, k)"
  shows "\<exists>x. post_close_visit K i probe fd found w =
     (if refers stat_of (se_stat (synth_table w ! i)) probe fd then (1, True, w\<lparr>errno := x\<rparr>)
      else (0, found, w\<lparr>errno := x\<rparr>))"
proof (cases "fd = probe")
  case True
  then show ?thesis by (intro exI [of _ "errno w"]) (simp add: post_close_visit_def refers_def)
next
  case False
  then show ?thesis
    by (cases "stat_of fd")
      (auto simp: post_close_visit_def refers_def sys_def assms intro: exI [of _ "errno w"])
qed

lemma visit_all_found:
  assumes "\<And>fd k. k_fstat K fd k = (stat_of fd, k)"
  shows "\<exists>x. visit_all (post_close_visit K i probe) fds False w =
     ((\<exists>fd\<in>set fds. refers stat_of (se_stat (synth_table w ! i)) probe fd),
      (\<exists>fd\<in>set fds. refers stat_of (se_stat (synth_table w ! i)) probe fd), w\<lparr>errno := x\<rparr>)"
proof (induction fds arbitrary: w)
  case Nil
  then show ?case by (intro exI [of _ "errno w"]) simp
next
  case (Cons fd fds)
  obtain x where x: "post_close_visit K i probe fd False w =
     (if refers stat_of (se_stat (synth_table w ! i)) probe fd then (1, True, w\<lparr>errno := x\<rparr>)
      else (0, False, w\<lparr>errno := x\<rparr>))"
    using post_close_visit_step [OF assms] by blast
  obtain y where "visit_all (post_close_visit K i probe) fds False (w\<lparr>errno := x\<rparr>) =
     ((\<exists>fd\<in>set fds. refers stat_of (se_stat (synth_table w ! i)) probe fd),
      (\<exists>fd\<in>set fds. refers stat_of (se_stat (synth_table w ! i)) probe fd), w\<lparr>errno := y\<rparr>)"
    using Cons.IH [of "w\<lparr>errno := x\<rparr>"] by auto
  with x show ?case by (cases "refers stat_of (se_stat (synth_table w ! i)) probe fd") auto
qed


text \<open>A directory of one batch: descriptors 4 (the wrap), 9 (its probe) and 10 (the scan).\<close>

definition example_dir :: "nat kernel" where
  "example_dir = null_kernel
     \<lparr>k_fstat := (\<lambda>fd k. (if fd \<in> {4, 9} then Inr \<lparr>st_dev = 3, st_ino = 8, st_mode = 0\<rparr> else Inl EBADF, k)),
      k_flock := (\<lambda>_ _ k. (Inl EWOULDBLOCK, k)), k_open := (\<lambda>_ _ k. (Inr 10, k)),
      k_getdents := (\<lambda>_ k. (Inr (if k = 0 then [''.'', ''4'', ''9'', ''10''] else []), k + 1)),
      k_dir_batches := 2\<rparr>"


section \<open>The installing process\<close>

text \<open>The process installed the entry and has its own start time cached.\<close>

definition owns :: "'k kernel \<Rightarrow> nat \<Rightarrow> 'k world \<Rightarrow> bool" where
  "owns K i w \<longleftrightarrow> install_pid (synth_table w ! i) = k_getpid K (kst w)
     \<and> fst (self_cache w) = word_of_int (k_getpid K (kst w))
     \<and> install_starttime (synth_table w ! i) = ucast (snd (self_cache w))"

lemma owner_load: "owns K i w \<Longrightarrow> wslcompat_view_fd_load K i V w = (v_base V w, w)"
  by (simp add: owns_def wslcompat_view_fd_load_def wslcompat_self_starttime_pid_def synth_is_installer_def)

lemma owns_pinned: "i < length (synth_table w) \<Longrightarrow> owns K i (pinned i w) = owns K i w"
  by (simp add: owns_def upd_entry_def)

lemma tty_idx_pinned: "i < length (synth_table w) \<Longrightarrow> tty_idx i (pinned i w) = tty_idx i w"
  by (simp add: tty_idx_def upd_entry_def)

lemma owner_real: "owns K i w \<Longrightarrow> tty_real_fd_load K i w = (tt_real_fd (tty_table w ! tty_idx i w), w)"
  by (simp add: tty_real_fd_load_def owner_load real_view_def)

lemma slot_pinned:
  assumes "synth_slot w st = Some i"
  shows "synth_slot (pinned i w) st = Some i"
proof -
  have "find_index (\<lambda>e. refcount e > 0 \<and> same_inode (se_stat e) st) (synth_table (pinned i w))
      = find_index (\<lambda>e. refcount e > 0 \<and> same_inode (se_stat e) st) (synth_table w)"
    by (rule find_index_map_cong) (use synth_slotD [OF assms] in \<open>auto simp: synth_table_upd_entry nth_list_update\<close>)
  with assms show ?thesis by (simp add: synth_slot_def)
qed

text \<open>Where a wrapped terminal's installer is sent for every kind of operation.\<close>

lemma owner_passthru:
  assumes "k_fstat K fd (kst w) = (Inr st, kst w)" and "synth_slot w st = Some i"
    and "se_ops (synth_table w ! i) = Tty_ops" and "owns K i w"
  shows "wslcompat_synth_passthru K (wsl_ops K V N T) fd kind w = (tt_real_fd (tty_table w ! tty_idx i w), w)"
proof -
  have i: "i < length (synth_table w)" by (rule synth_slotD(1) [OF assms(2)])
  have "passthru_fd (wsl_ops K V N T) i kind (pinned i w) = (tt_real_fd (tty_table w ! tty_idx i w), pinned i w)"
    using assms(3,4) i by (simp add: passthru_fd_def pinned_ops wsl_ops_def tty_ops_def tty_passthru_def
        owner_real owns_pinned tty_idx_pinned)
  from passthru_slot(2) [where OPS = "wsl_ops K V N T" and kind = kind, OF assms(1,2) this]
  show ?thesis by (simp add: upd_entry_def)
qed

text \<open>A synthetic /proc file has no descriptor behind it.\<close>

lemma proc_passthru:
  assumes "k_fstat K fd (kst w) = (Inr st, kst w)" and "synth_slot w st = Some i"
    and "se_ops (synth_table w ! i) \<noteq> Tty_ops"
  shows "wslcompat_synth_passthru K (wsl_ops K V N T) fd kind w = (-1, w)"
proof -
  have i: "i < length (synth_table w)" by (rule synth_slotD(1) [OF assms(2)])
  have "passthru_fd (wsl_ops K V N T) i kind (pinned i w) = (-1, pinned i w)"
    using assms(3) i by (cases "se_ops (synth_table w ! i)") (simp_all add: passthru_fd_def pinned_ops wsl_ops_def ops_simps)
  from passthru_slot(2) [where OPS = "wsl_ops K V N T" and kind = kind, OF assms(1,2) this]
  show ?thesis by (simp add: upd_entry_def)
qed

text \<open>
  A world with one live synthetic /proc file, and a kernel in which descriptors 4 and 5 refer
  to its inode and every other descriptor to another one.
\<close>

definition example_stat :: "int \<Rightarrow> int + stat" where
  "example_stat fd = Inr \<lparr>st_dev = 7, st_ino = (if fd = 4 \<or> fd = 5 then 2 else 3), st_mode = 0\<rparr>"

definition example_synth :: "unit kernel" where
  "example_synth = null_kernel\<lparr>k_fstat := (\<lambda>fd k. (example_stat fd, k))\<rparr>"

definition example_synth_world :: "unit world" where
  "example_synth_world = (static_world ())
     \<lparr>synth_table := [zero_entry\<lparr>refcount := 1, se_stat := \<lparr>st_dev = 7, st_ino = 2, st_mode = 0\<rparr>\<rparr>],
      synth_live_entries := 1\<rparr>"

text \<open>The same inode as a wrapped terminal of this process, with the real one at descriptor 20.\<close>

definition example_wrap_world :: "unit world" where
  "example_wrap_world = (static_world ())
     \<lparr>synth_table := [zero_entry\<lparr>refcount := 1, se_stat := \<lparr>st_dev = 7, st_ino = 2, st_mode = 0\<rparr>, se_ops := Tty_ops,
        se_userptr := Tty_ptr 0, install_pid := 1, install_starttime := 5\<rparr>],
      synth_live_entries := 1, tty_table := [zero_tty\<lparr>tt_claimed := 1, tt_real_fd := 20\<rparr>], self_cache := (1, 5)\<rparr>"

lemma example_wrap:
  "synth_slot example_wrap_world \<lparr>st_dev = 7, st_ino = 2, st_mode = 0\<rparr> = Some 0"
  "synth_slot example_wrap_world \<lparr>st_dev = 7, st_ino = 3, st_mode = 0\<rparr> = None"
  "owns example_synth 0 example_wrap_world" "tty_idx 0 example_wrap_world = 0"
  "tt_real_fd (tty_table example_wrap_world ! 0) = 20" "se_ops (synth_table example_wrap_world ! 0) = Tty_ops"
  "env_disable example_wrap_world = False" "options example_wrap_world = []"
  "k_fstat example_synth 4 k = (Inr \<lparr>st_dev = 7, st_ino = 2, st_mode = 0\<rparr>, k)"
  "k_fstat example_synth 3 k = (Inr \<lparr>st_dev = 7, st_ino = 3, st_mode = 0\<rparr>, k)"
  by (simp_all add: synth_slot_def example_wrap_world_def same_inode_def owns_def tty_idx_def example_synth_def example_stat_def
      null_kernel_def static_world_def)

end
