(* ===== verification/Ioctl.thy ===== *)
theory Ioctl
  imports Handlers
begin

text \<open>
  ioctl.c: a successful change of the terminal settings wraps the terminal in a synthetic
  descriptor, an ioctl on such a descriptor goes to the real terminal, and the termios functions,
  which bypass the ioctl shim inside the C library, are routed through it.
\<close>

section \<open>The shims\<close>

abbreviation (input) FIOCLEX :: int where "FIOCLEX \<equiv> 21585"
abbreviation (input) FIONCLEX :: int where "FIONCLEX \<equiv> 21584"
abbreviation (input) TIOCGPGRP :: int where "TIOCGPGRP \<equiv> 21519"
abbreviation (input) TIOCSPGRP :: int where "TIOCSPGRP \<equiv> 21520"
abbreviation (input) TIOCGSID :: int where "TIOCGSID \<equiv> 21545"
abbreviation (input) TCSBRK :: int where "TCSBRK \<equiv> 21513"
abbreviation (input) TCXONC :: int where "TCXONC \<equiv> 21514"
abbreviation (input) TCFLSH :: int where "TCFLSH \<equiv> 21515"

text \<open>The C library's own definitions of these functions.\<close>

record 'k libc_tc =
  n_tcsetattr :: "int \<Rightarrow> int \<Rightarrow> termios \<Rightarrow> 'k \<Rightarrow> (int + int) \<times> 'k"
  n_tcgetattr :: "int \<Rightarrow> 'k \<Rightarrow> (int + termios) \<times> 'k"
  n_isatty :: "int \<Rightarrow> 'k \<Rightarrow> (int + int) \<times> 'k"
  n_tcsetpgrp :: "int \<Rightarrow> int \<Rightarrow> 'k \<Rightarrow> (int + int) \<times> 'k"
  n_tcgetpgrp :: "int \<Rightarrow> 'k \<Rightarrow> (int + int) \<times> 'k"
  n_tcgetsid :: "int \<Rightarrow> 'k \<Rightarrow> (int + int) \<times> 'k"
  n_tcdrain :: "int \<Rightarrow> 'k \<Rightarrow> (int + int) \<times> 'k"
  n_tcsendbreak :: "int \<Rightarrow> int \<Rightarrow> 'k \<Rightarrow> (int + int) \<times> 'k"
  n_tcflush :: "int \<Rightarrow> int \<Rightarrow> 'k \<Rightarrow> (int + int) \<times> 'k"
  n_tcflow :: "int \<Rightarrow> int \<Rightarrow> 'k \<Rightarrow> (int + int) \<times> 'k"
  n_ttyname :: "int \<Rightarrow> 'k \<Rightarrow> (int + cstring) \<times> 'k"

text \<open>A library in which all of them fail.\<close>

definition null_tc :: "'k libc_tc" where
  "null_tc =
     \<lparr>n_tcsetattr = (\<lambda>_ _ _ k. (Inl ENOSYS, k)), n_tcgetattr = (\<lambda>_ k. (Inl ENOSYS, k)), n_isatty = (\<lambda>_ k. (Inl ENOSYS, k)),
      n_tcsetpgrp = (\<lambda>_ _ k. (Inl ENOSYS, k)), n_tcgetpgrp = (\<lambda>_ k. (Inl ENOSYS, k)), n_tcgetsid = (\<lambda>_ k. (Inl ENOSYS, k)),
      n_tcdrain = (\<lambda>_ k. (Inl ENOSYS, k)), n_tcsendbreak = (\<lambda>_ _ k. (Inl ENOSYS, k)), n_tcflush = (\<lambda>_ _ k. (Inl ENOSYS, k)),
      n_tcflow = (\<lambda>_ _ k. (Inl ENOSYS, k)), n_ttyname = (\<lambda>_ k. (Inl ENOSYS, k))\<rparr>"

text \<open>The close-on-exec ioctls on a synthetic descriptor: the flag of the descriptor itself.\<close>

definition ioctl_setfd :: "'k kernel \<Rightarrow> int \<Rightarrow> int \<Rightarrow> uarg \<Rightarrow> ('k, int \<times> uarg) call" where
  "ioctl_setfd K fd flag arg w =
     (let (r, w1) = sys (k_fcntl K fd F_SETFD flag) w in (map_option (\<lambda>v. (v, arg)) r, w1))"

definition ioctl_handler :: "int \<Rightarrow> uarg \<Rightarrow> 'k synth_ops \<Rightarrow> (nat \<Rightarrow> ('k, int \<times> uarg) call) option" where
  "ioctl_handler ioc arg t = map_option (\<lambda>f i. f i ioc arg) (op_ioctl t)"

definition ioctl_synth ::
  "'k kernel \<Rightarrow> 'k ops_table \<Rightarrow> 'k tty_kernel \<Rightarrow> int \<Rightarrow> int \<Rightarrow> uarg \<Rightarrow> ('k, int \<times> uarg) call" where
  "ioctl_synth K OPS T fd ioc arg w =
     (let (e, w1) = wslcompat_synth_pin_fd K OPS fd w
      in case e of
           None \<Rightarrow> (None, w1)
         | Some i \<Rightarrow>
             (let (r, w2) =
                (if ioc = FIOCLEX then ioctl_setfd K fd FD_CLOEXEC arg w1
                 else if ioc = FIONCLEX then ioctl_setfd K fd 0 arg w1
                 else
                   (let (d, v) = synth_dispatch K OPS (ioctl_handler ioc arg) (\<lambda>fd. sys (t_ioctl T fd ioc arg)) fd w1
                    in case d of Some r' \<Rightarrow> (r', v) | None \<Rightarrow> (None, v)))
              in (r, wslcompat_synth_unpin K OPS i w2)))"

definition ioctl_shim ::
  "'k kernel \<Rightarrow> 'k ops_table \<Rightarrow> 'k tty_kernel \<Rightarrow> int \<Rightarrow> int \<Rightarrow> uarg \<Rightarrow> ('k, int \<times> uarg) call" where
  "ioctl_shim K OPS T fd ioc arg w =
     (let (r, w1) = sys (t_ioctl T fd ioc arg) w
      in if passthru ''ioctl'' w1 then (r, w1)
         else
           (case r of
              None \<Rightarrow> (if errno w1 = EBADF then ioctl_synth K OPS T fd ioc arg w1 else (None, w1))
            | Some (v, out) \<Rightarrow>
                (if v = 0 \<and> is_tcsets ioc
                 then (case arg of
                         Arg_termios t \<Rightarrow> (r, snd (wslcompat_tty_install K OPS fd t w1))
                       | _ \<Rightarrow> (r, w1))
                 else (r, w1))))"

section \<open>The termios functions\<close>

text \<open>The result of a routed call: the value of ioctl without what it wrote.\<close>

definition ioctl_value :: "(int \<times> uarg) option \<times> 'k world \<Rightarrow> int option \<times> 'k world" where
  "ioctl_value = map_prod (map_option fst) id"

definition tcsetattr_cmd :: "int \<Rightarrow> int option" where
  "tcsetattr_cmd act = (if act = 0 then Some TCSETS else if act = 1 then Some TCSETSW else if act = 2 then Some TCSETSF else None)"

definition tcsetattr_shim ::
  "'k kernel \<Rightarrow> 'k ops_table \<Rightarrow> 'k tty_kernel \<Rightarrow> 'k libc_tc \<Rightarrow> int \<Rightarrow> int \<Rightarrow> termios \<Rightarrow> ('k, int) call" where
  "tcsetattr_shim K OPS T C fd act t w =
     (if passthru ''tcsetattr'' w then sys (n_tcsetattr C fd act t) w
      else
        (case tcsetattr_cmd act of
           None \<Rightarrow> fail_with EINVAL w
         | Some cmd \<Rightarrow> ioctl_value (ioctl_shim K OPS T fd cmd (Arg_termios t) w)))"

text \<open>\<open>t0\<close> is the content of the buffer before the call.\<close>

definition tcgetattr_shim ::
  "'k kernel \<Rightarrow> 'k ops_table \<Rightarrow> 'k tty_kernel \<Rightarrow> 'k libc_tc \<Rightarrow> int \<Rightarrow> termios \<Rightarrow> ('k, termios) call" where
  "tcgetattr_shim K OPS T C fd t0 w =
     (if passthru ''tcgetattr'' w then sys (n_tcgetattr C fd) w
      else
        (let (r, w1) = ioctl_shim K OPS T fd TCGETS (Arg_termios t0) w
         in (case r of Some (v, Arg_termios t) \<Rightarrow> Some t | Some (v, _) \<Rightarrow> Some t0 | None \<Rightarrow> None, w1)))"

definition isatty_shim ::
  "'k kernel \<Rightarrow> 'k ops_table \<Rightarrow> 'k tty_kernel \<Rightarrow> 'k libc_tc \<Rightarrow> int \<Rightarrow> termios \<Rightarrow> 'k world \<Rightarrow> int \<times> 'k world" where
  "isatty_shim K OPS T C fd t0 w =
     (if passthru ''isatty'' w
      then (let (r, w1) = sys (n_isatty C fd) w in (case r of Some v \<Rightarrow> v | None \<Rightarrow> 0, w1))
      else
        (let (r, w1) = ioctl_value (ioctl_shim K OPS T fd TCGETS (Arg_termios t0) w)
         in (if r = Some 0 then 1 else 0, w1)))"

definition tcsetpgrp_shim ::
  "'k kernel \<Rightarrow> 'k ops_table \<Rightarrow> 'k tty_kernel \<Rightarrow> 'k libc_tc \<Rightarrow> int \<Rightarrow> int \<Rightarrow> ('k, int) call" where
  "tcsetpgrp_shim K OPS T C fd pgrp w =
     (if passthru ''tcsetpgrp'' w then sys (n_tcsetpgrp C fd pgrp) w
      else ioctl_value (ioctl_shim K OPS T fd TIOCSPGRP (Arg_pid pgrp) w))"

text \<open>A call that returns the pid ioctl wrote; \<open>p0\<close> is the variable before the call.\<close>

definition ioctl_pid :: "int \<Rightarrow> (int \<times> uarg) option \<times> 'k world \<Rightarrow> int option \<times> 'k world" where
  "ioctl_pid p0 = map_prod (map_option (\<lambda>(v, out). case out of Arg_pid p \<Rightarrow> p | _ \<Rightarrow> p0)) id"

definition tcgetpgrp_shim ::
  "'k kernel \<Rightarrow> 'k ops_table \<Rightarrow> 'k tty_kernel \<Rightarrow> 'k libc_tc \<Rightarrow> int \<Rightarrow> int \<Rightarrow> ('k, int) call" where
  "tcgetpgrp_shim K OPS T C fd p0 w =
     (if passthru ''tcgetpgrp'' w then sys (n_tcgetpgrp C fd) w
      else ioctl_pid p0 (ioctl_shim K OPS T fd TIOCGPGRP (Arg_pid p0) w))"

definition tcgetsid_shim ::
  "'k kernel \<Rightarrow> 'k ops_table \<Rightarrow> 'k tty_kernel \<Rightarrow> 'k libc_tc \<Rightarrow> int \<Rightarrow> int \<Rightarrow> ('k, int) call" where
  "tcgetsid_shim K OPS T C fd p0 w =
     (if passthru ''tcgetsid'' w then sys (n_tcgetsid C fd) w
      else ioctl_pid p0 (ioctl_shim K OPS T fd TIOCGSID (Arg_pid p0) w))"

definition tcdrain_shim ::
  "'k kernel \<Rightarrow> 'k ops_table \<Rightarrow> 'k tty_kernel \<Rightarrow> 'k libc_tc \<Rightarrow> int \<Rightarrow> ('k, int) call" where
  "tcdrain_shim K OPS T C fd w =
     (if passthru ''tcdrain'' w then sys (n_tcdrain C fd) w
      else ioctl_value (ioctl_shim K OPS T fd TCSBRK (Arg_val 1) w))"

definition tcsendbreak_shim ::
  "'k kernel \<Rightarrow> 'k ops_table \<Rightarrow> 'k tty_kernel \<Rightarrow> 'k libc_tc \<Rightarrow> int \<Rightarrow> int \<Rightarrow> ('k, int) call" where
  "tcsendbreak_shim K OPS T C fd duration w =
     (if passthru ''tcsendbreak'' w then sys (n_tcsendbreak C fd duration) w
      else ioctl_value (ioctl_shim K OPS T fd TCSBRK (Arg_val 0) w))"

definition tcflush_shim ::
  "'k kernel \<Rightarrow> 'k ops_table \<Rightarrow> 'k tty_kernel \<Rightarrow> 'k libc_tc \<Rightarrow> int \<Rightarrow> int \<Rightarrow> ('k, int) call" where
  "tcflush_shim K OPS T C fd queue w =
     (if passthru ''tcflush'' w then sys (n_tcflush C fd queue) w
      else ioctl_value (ioctl_shim K OPS T fd TCFLSH (Arg_val queue) w))"

definition tcflow_shim ::
  "'k kernel \<Rightarrow> 'k ops_table \<Rightarrow> 'k tty_kernel \<Rightarrow> 'k libc_tc \<Rightarrow> int \<Rightarrow> int \<Rightarrow> ('k, int) call" where
  "tcflow_shim K OPS T C fd act w =
     (if passthru ''tcflow'' w then sys (n_tcflow C fd act) w
      else ioctl_value (ioctl_shim K OPS T fd TCXONC (Arg_val act) w))"

definition ttyname_shim :: "'k kernel \<Rightarrow> 'k ops_table \<Rightarrow> 'k libc_tc \<Rightarrow> int \<Rightarrow> ('k, cstring) call" where
  "ttyname_shim K OPS C fd w =
     (if passthru ''ttyname'' w then sys (n_ttyname C fd) w
      else
        (let (real, w1) = wslcompat_synth_passthru K OPS fd SYNTH_OP_IO w
         in sys (n_ttyname C (if real \<ge> 0 then real else fd)) w1))"

definition ttyname_r_shim :: "'k kernel \<Rightarrow> 'k ops_table \<Rightarrow> 'k tty_kernel \<Rightarrow> int \<Rightarrow> nat \<Rightarrow> ('k, cstring) call" where
  "ttyname_r_shim K OPS T fd buflen w =
     (if passthru ''ttyname_r'' w then sys (t_ttyname_r T fd buflen) w
      else
        (let (real, w1) = wslcompat_synth_passthru K OPS fd SYNTH_OP_IO w
         in sys (t_ttyname_r T (if real \<ge> 0 then real else fd) buflen) w1))"

section \<open>Properties\<close>

lemma passthru_world [simp]:
  "passthru name (w\<lparr>errno := e\<rparr>) = passthru name w" "passthru name (w\<lparr>kst := k\<rparr>) = passthru name w"
  by (simp_all add: passthru_def)

lemma ioctl_on_wrap:
  assumes "\<not> passthru ''ioctl'' w" and canary: "t_ioctl T fd ioc arg (kst w) = (Inl EBADF, kst w)"
    and st: "k_fstat K fd (kst w) = (Inr st, kst w)" and i: "synth_slot w st = Some i"
    and tty: "se_ops (synth_table w ! i) = Tty_ops" and "ioc \<noteq> FIOCLEX" and "ioc \<noteq> FIONCLEX"
    and run: "tty_ioctl K T i ioc arg (pinned i (pinned i (w\<lparr>errno := EBADF\<rparr>))) = (r, v)"
  shows "ioctl_shim K (wsl_ops K V N T) T fd ioc arg w = (r, v\<lparr>synth_table := synth_table w\<rparr>)"
proof -
  let ?w = "w\<lparr>errno := EBADF\<rparr>" and ?OPS = "wsl_ops K V N T"
  have i': "synth_slot ?w st = Some i" using i by (simp add: synth_slot_def)
  have len: "i < length (synth_table w)" by (rule synth_slotD(1) [OF i])
  have s: "sys (t_ioctl T fd ioc arg) w = (None, ?w)" using canary by (simp add: sys_def)
  have keeps: "keeps_synth (pinned i (pinned i ?w)) v"
    using tty_io_keeps(2) [of "pinned i (pinned i ?w)" K T i ioc arg] run by simp
  have "synth_dispatch K ?OPS (ioctl_handler ioc arg) (\<lambda>fd. sys (t_ioctl T fd ioc arg)) fd (pinned i ?w)
      = (Some r, v\<lparr>synth_table := synth_table (pinned i ?w)\<rparr>)"
    by (rule dispatch_handler [where f = "\<lambda>i. tty_ioctl K T i ioc arg" and st = st])
      (use st slot_pinned [OF i'] tty len run keeps in
        \<open>simp_all add: ioctl_handler_def wsl_ops_def tty_ops_def pinned_ops\<close>)
  then have "ioctl_synth K ?OPS T fd ioc arg ?w
      = (r, wslcompat_synth_unpin K ?OPS i (v\<lparr>synth_table := synth_table (pinned i ?w)\<rparr>))"
    using assms(6,7) pin_fd_slot [of K fd ?w st ?OPS] st i' by (simp add: ioctl_synth_def)
  also have "wslcompat_synth_unpin K ?OPS i (v\<lparr>synth_table := synth_table (pinned i ?w)\<rparr>) = v\<lparr>synth_table := synth_table w\<rparr>"
    by (subst unpin_slot [OF i']) simp_all
  finally show ?thesis using assms(1) s by (simp add: ioctl_shim_def)
qed

text \<open>
  C17: tcsetattr on a wrapped terminal reaches the real terminal and nothing else.  With the
  O_PATH placeholder refusing every ioctl with EBADF, the call applies the settings to the
  terminal kept behind the wrap.  When the terminal accepts them it returns 0 and the cached
  mode, which decides how reads behave, is exactly the new one; when it refuses, its errno is returned
  and the cache is as before.  The table of synthetic descriptors is unchanged either way.
\<close>

theorem tcsetattr_on_wrap:
  assumes "\<not> passthru ''ioctl'' w" and "\<not> passthru ''tcsetattr'' w" and "tcsetattr_cmd act = Some cmd"
    and "t_ioctl T fd cmd (Arg_termios t) (kst w) = (Inl EBADF, kst w)"
    and "k_fstat K fd (kst w) = (Inr st, kst w)" and "synth_slot w st = Some i"
    and "se_ops (synth_table w ! i) = Tty_ops" and "owns K i w" and "tty_idx i w = j"
    and real: "t_ioctl T (tt_real_fd (tty_table w ! j)) cmd (Arg_termios t) (kst w) = (res, k)"
  shows "case res of
      Inr (v, out) \<Rightarrow> \<exists>w'. tcsetattr_shim K (wsl_ops K V N T) T C fd act t w = (Some v, w') \<and> kst w' = k
        \<and> synth_table w' = synth_table w
        \<and> tty_table w' = (if v = 0 then (tty_table w)[j := (tty_table w ! j)\<lparr>tt_canon := c_icanon t, tt_vmin := c_vmin t, tt_vtime := c_vtime t\<rparr>]
             else tty_table w)
    | Inl e \<Rightarrow> \<exists>w'. tcsetattr_shim K (wsl_ops K V N T) T C fd act t w = (None, w') \<and> kst w' = k \<and> errno w' = e
        \<and> synth_table w' = synth_table w \<and> tty_table w' = tty_table w"
proof -
  let ?p = "pinned i (pinned i (w\<lparr>errno := EBADF\<rparr>))"
  have len: "i < length (synth_table w)" by (rule synth_slotD(1) [OF assms(6)])
  have cmd: "cmd \<noteq> FIOCLEX" "cmd \<noteq> FIONCLEX" "is_tcsets cmd"
    using assms(3) by (auto simp: tcsetattr_cmd_def is_tcsets_def split: if_splits)
  have idx: "tty_idx i ?p = j" using assms(9) len by (simp add: tty_idx_def upd_entry_def)
  have "owns K i ?p" using assms(8) len by (simp add: owns_def upd_entry_def)
  then have ld: "tty_real_fd_load K i ?p = (tt_real_fd (tty_table w ! j), ?p)" by (simp add: owner_real idx)
  obtain r v where run: "tty_ioctl K T i cmd (Arg_termios t) ?p = (r, v)" by fastforce
  have "tcsetattr_shim K (wsl_ops K V N T) T C fd act t w = ioctl_value (r, v\<lparr>synth_table := synth_table w\<rparr>)"
    using assms(2,3) ioctl_on_wrap [OF assms(1,4,5,6,7) cmd(1,2) run] by (simp add: tcsetattr_shim_def)
  then show ?thesis using run ld real cmd(3)
    by (auto simp: tty_ioctl_def idx sys_def tty_observe_def ioctl_value_def upd_tty_def split: sum.splits)
qed

definition example_term :: "unit tty_kernel" where
  "example_term = \<lparr>t_poll = (\<lambda>_ _ k. (Inr 1, k)), t_ioctl = (\<lambda>fd _ a k. (if fd = 20 then Inr (0, a) else Inl EBADF, k)),
     t_ttyname_r = (\<lambda>_ _ k. (Inl ENODEV, k))\<rparr>"

theorem tcsetattr_on_wrap_witness:
  "\<exists>w'. tcsetattr_shim example_synth (wsl_ops example_synth null_vm null_io example_term) example_term null_tc 4 0
      \<lparr>c_icanon = False, c_vmin = 3, c_vtime = 0\<rparr> example_wrap_world = (Some 0, w')
    \<and> tt_vmin (tty_table w' ! 0) = 3"
proof -
  have "\<not> passthru ''ioctl'' example_wrap_world" "\<not> passthru ''tcsetattr'' example_wrap_world"
    unfolding passthru_def example_wrap by code_simp+
  from tcsetattr_on_wrap [OF this _ _ _ example_wrap(1,6,3,4), where act = 0 and cmd = TCSETS and T = example_term
      and fd = 4 and t = "\<lparr>c_icanon = False, c_vmin = 3, c_vtime = 0\<rparr>" and k = "()" and C = null_tc and V = null_vm and N = null_io
      and res = "Inr (0, Arg_termios \<lparr>c_icanon = False, c_vmin = 3, c_vtime = 0\<rparr>)"]
  show ?thesis by (auto simp: example_term_def tcsetattr_cmd_def example_wrap) (auto simp: example_wrap_world_def)
qed

end
