(* ===== verification/Preexec.thy ===== *)
theory Preexec
  imports Handlers
begin

text \<open>
  The exec save and restore of synth.c.  The image an exec starts knows nothing of synthetic
  descriptors, so before the attempt every one of them that has a backing descriptor is
  parked on a high close-on-exec number and the backing descriptor is put in its place; after
  a failed attempt, or in the parent of a spawn, the parked descriptors are moved back.
\<close>

section \<open>Save and restore\<close>

abbreviation (input) SYNTH_PREEXEC_MAX :: nat where "SYNTH_PREEXEC_MAX \<equiv> 64"

record preexec_slot =
  user_fd :: int
  saved_fd :: int
  orig_cloexec :: bool

text \<open>\<^verbatim>\<open>struct synth_preexec_state\<close>: the slots up to its count.\<close>

type_synonym synth_preexec_state = "preexec_slot list"

text \<open>The first pass collects the synthetic descriptors without changing any.\<close>

definition preexec_collect_visit :: "'k kernel \<Rightarrow> 'k ops_table \<Rightarrow> ('k, int list) visitor" where
  "preexec_collect_visit K OPS fd c w =
     (if length c \<ge> SYNTH_PREEXEC_MAX then (1, c, w)
      else
        (let (e, w1) = wslcompat_synth_pin_fd K OPS fd w
         in case e of
              None \<Rightarrow> (0, c, w1)
            | Some i \<Rightarrow> (0, c @ [fd], wslcompat_synth_unpin K OPS i w1)))"

definition preexec_save_one ::
  "'k kernel \<Rightarrow> 'k ops_table \<Rightarrow> int \<Rightarrow> synth_preexec_state \<Rightarrow> 'k world \<Rightarrow> synth_preexec_state \<times> 'k world" where
  "preexec_save_one K OPS fd st w =
     (let (e, w1) = wslcompat_synth_pin_fd K OPS fd w
      in case e of
           None \<Rightarrow> (st, w1)
         | Some i \<Rightarrow>
             (let (real, w2) = passthru_fd OPS i SYNTH_OP_PREEXEC w1;
                  w3 = wslcompat_synth_unpin K OPS i w2
              in if real < 0 then (st, w3)
                 else
                   (let (fdflags, w4) = sys (k_fcntl K fd F_GETFD 0) w3;
                        cloexec = (case fdflags of None \<Rightarrow> False | Some f \<Rightarrow> f \<ge> 0 \<and> has_flag f FD_CLOEXEC);
                        (saved, w5) = sys (k_fcntl K fd F_DUPFD_CLOEXEC 64) w4
                    in case saved of
                         None \<Rightarrow> (st, w5)
                       | Some s \<Rightarrow>
                           (let (d, w6) = dup3_shim K OPS real fd (if cloexec then O_CLOEXEC else 0) w5
                            in case d of
                                 None \<Rightarrow> (st, snd (sys (k_close K s) w6))
                               | Some _ \<Rightarrow> (st @ [\<lparr>user_fd = fd, saved_fd = s, orig_cloexec = cloexec\<rparr>], w6)))))"

fun preexec_save_loop ::
  "'k kernel \<Rightarrow> 'k ops_table \<Rightarrow> int list \<Rightarrow> synth_preexec_state \<Rightarrow> 'k world \<Rightarrow> synth_preexec_state \<times> 'k world" where
  "preexec_save_loop K OPS [] st w = (st, w)"
| "preexec_save_loop K OPS (fd # fds) st w =
     (if length st \<ge> SYNTH_PREEXEC_MAX then (st, w)
      else (let (st1, w1) = preexec_save_one K OPS fd st w in preexec_save_loop K OPS fds st1 w1))"

definition wslcompat_synth_preexec_save ::
  "'k kernel \<Rightarrow> 'k ops_table \<Rightarrow> synth_preexec_state \<Rightarrow> 'k world \<Rightarrow> synth_preexec_state \<times> 'k world" where
  "wslcompat_synth_preexec_save K OPS st w =
     (let (c, w1) = wslcompat_walk_proc_self_fd K (preexec_collect_visit K OPS) [] w
      in preexec_save_loop K OPS c st w1)"

definition preexec_restore_one :: "'k kernel \<Rightarrow> 'k ops_table \<Rightarrow> preexec_slot \<Rightarrow> 'k world \<Rightarrow> 'k world" where
  "preexec_restore_one K OPS s w =
     (let (d, w1) = dup3_shim K OPS (saved_fd s) (user_fd s) (if orig_cloexec s then O_CLOEXEC else 0) w
      in snd (close_shim K OPS (saved_fd s) w1))"

definition wslcompat_synth_preexec_restore ::
  "'k kernel \<Rightarrow> 'k ops_table \<Rightarrow> synth_preexec_state \<Rightarrow> 'k world \<Rightarrow> synth_preexec_state \<times> 'k world" where
  "wslcompat_synth_preexec_restore K OPS st w = ([], fold (preexec_restore_one K OPS) st w)"

section \<open>The invariant of the table\<close>

lemma fold_inv: "(\<And>x w. I w \<Longrightarrow> I (f x w)) \<Longrightarrow> I w \<Longrightarrow> I (fold f xs w)"
  by (induction xs arbitrary: w) simp_all

context synth_handlers
begin

text \<open>Pinning a descriptor, working without touching the table and unpinning keeps the invariant.\<close>

lemma pin_work_unpin_live_inv:
  assumes "wslcompat_synth_pin_fd K OPS fd w = (Some i, w1)" and "keeps_synth w1 w2" and "live_inv w"
  shows "live_inv (wslcompat_synth_unpin K OPS i w2)"
proof (cases rule: pin_fd_cases [of K OPS fd w])
  case (pinned j st v)
  with assms(1) have w1: "j = i" "w1 = upd_entry i (\<lambda>e. e\<lparr>refcount := refcount e + 1\<rparr>) v" by auto
  then have "wslcompat_synth_unpin K OPS i w2 = w2\<lparr>synth_table := synth_table v\<rparr>"
    using assms(2) pinned by (intro unpin_pinned) (simp_all add: keeps_synth_def same_libD)
  with assms(2,3) pinned(2) w1 show ?thesis by (simp add: live_inv_def keeps_synth_def same_libD)
qed (use assms(1) in simp)

lemma pin_none_live_inv:
  assumes "wslcompat_synth_pin_fd K OPS fd w = (None, w1)" and "live_inv w"
  shows "live_inv w1"
  using assms by (cases rule: pin_fd_cases [of K OPS fd w]) (simp_all add: live_inv_same_lib)

lemma preexec_collect_live_inv: "live_inv w \<Longrightarrow> live_inv (snd (snd (preexec_collect_visit K OPS fd c w)))"
  using pin_work_unpin_live_inv [of K fd w] pin_none_live_inv [of K fd w]
  by (auto simp: preexec_collect_visit_def split: prod.split option.split)

lemma preexec_save_one_live_inv:
  assumes "live_inv w"
  shows "live_inv (snd (preexec_save_one K OPS fd st w))"
proof (cases "wslcompat_synth_pin_fd K OPS fd w")
  case (Pair e w1)
  show ?thesis
  proof (cases e)
    case None
    with Pair pin_none_live_inv [OF _ assms] show ?thesis by (simp add: preexec_save_one_def)
  next
    case (Some i)
    obtain real w2 where p: "passthru_fd OPS i SYNTH_OP_PREEXEC w1 = (real, w2)" by fastforce
    have "keeps_synth w1 w2" using passthru_fd_keeps [of w1 i SYNTH_OP_PREEXEC] p by simp
    then have inv: "live_inv (wslcompat_synth_unpin K OPS i w2)"
      using Pair Some assms by (intro pin_work_unpin_live_inv) simp_all
    with Pair Some p show ?thesis
      by (simp add: preexec_save_one_def case_prod_beta Let_def dup3_live_inv split: option.split)
  qed
qed

lemma preexec_save_loop_live_inv: "live_inv w \<Longrightarrow> live_inv (snd (preexec_save_loop K OPS fds st w))"
proof (induction fds arbitrary: st w)
  case (Cons fd fds)
  then show ?case using preexec_save_one_live_inv [of w K fd st] by (simp add: case_prod_beta)
qed simp

lemma preexec_save_live_inv:
  assumes "live_inv w"
  shows "live_inv (snd (wslcompat_synth_preexec_save K OPS st w))"
proof -
  have "live_inv (snd (wslcompat_walk_proc_self_fd K (preexec_collect_visit K OPS) [] w))"
    using assms by (rule walk_inv [where I = live_inv, rotated -1])
      (simp_all add: preexec_collect_live_inv live_inv_same_lib)
  then show ?thesis by (simp add: wslcompat_synth_preexec_save_def case_prod_beta preexec_save_loop_live_inv)
qed

lemma preexec_restore_live_inv: "live_inv w \<Longrightarrow> live_inv (snd (wslcompat_synth_preexec_restore K OPS st w))"
  unfolding wslcompat_synth_preexec_restore_def snd_conv
  by (rule fold_inv [where I = live_inv])
    (simp_all add: preexec_restore_one_def case_prod_beta close_live_inv dup3_live_inv)

end

section \<open>The arrays are large enough\<close>

lemma preexec_save_one_length: "length (fst (preexec_save_one K OPS fd st w)) \<le> Suc (length st)"
  by (simp add: preexec_save_one_def case_prod_beta Let_def split: option.split)

lemma preexec_save_loop_length:
  "length st \<le> SYNTH_PREEXEC_MAX \<Longrightarrow> length (fst (preexec_save_loop K OPS fds st w)) \<le> SYNTH_PREEXEC_MAX"
proof (induction fds arbitrary: st w)
  case (Cons fd fds)
  show ?case
  proof (cases "length st \<ge> SYNTH_PREEXEC_MAX")
    case False
    then have "length (fst (preexec_save_one K OPS fd st w)) \<le> SYNTH_PREEXEC_MAX"
      using preexec_save_one_length [of K OPS fd st w] by linarith
    with Cons.IH False show ?thesis by (simp add: case_prod_beta)
  qed (use Cons.prems in simp)
qed simp

lemma preexec_save_length: "length (fst (wslcompat_synth_preexec_save K OPS [] w)) \<le> SYNTH_PREEXEC_MAX"
  by (simp add: wslcompat_synth_preexec_save_def case_prod_beta preexec_save_loop_length)

text \<open>The user argument of a walk: what every visit keeps, the walk keeps.\<close>

lemma walk_batch_arg:
  "(\<And>fd u w. P u \<Longrightarrow> P (fst (snd (visit fd u w)))) \<Longrightarrow> P u \<Longrightarrow> P (fst (snd (walk_batch visit dirfd names u w)))"
  by (induction names arbitrary: u w) (simp_all add: case_prod_beta Let_def walk_batch.simps(2))

lemma walk_batches_arg:
  "(\<And>fd u w. P u \<Longrightarrow> P (fst (snd (visit fd u w)))) \<Longrightarrow> P u \<Longrightarrow> P (fst (walk_batches K visit dirfd n u w))"
proof (induction n arbitrary: u w)
  case (Suc n)
  have "P (fst (snd (walk_batch visit dirfd names u v)))" for names v
    by (rule walk_batch_arg) (fact Suc.prems)+
  with Suc show ?case by (simp add: case_prod_beta Let_def split: option.split list.split)
qed simp

lemma walk_arg:
  "(\<And>fd u w. P u \<Longrightarrow> P (fst (snd (visit fd u w)))) \<Longrightarrow> P u \<Longrightarrow> P (fst (wslcompat_walk_proc_self_fd K visit u w))"
  by (simp add: wslcompat_walk_proc_self_fd_def case_prod_beta Let_def walk_batches_arg split: option.split)

text \<open>Neither pass writes past its array.\<close>

lemma preexec_collect_length:
  "length (fst (wslcompat_walk_proc_self_fd K (preexec_collect_visit K OPS) [] w)) \<le> SYNTH_PREEXEC_MAX"
  by (rule walk_arg [where P = "\<lambda>c. length c \<le> SYNTH_PREEXEC_MAX"])
    (simp_all add: preexec_collect_visit_def case_prod_beta Let_def split: option.split)

section \<open>Without synthetic descriptors\<close>

text \<open>A process without live entries execs as if the library were not there: nothing is moved.\<close>

lemma pin_fd_empty:
  assumes "\<forall>e\<in>set (synth_table w). refcount e \<le> 0"
  obtains w1 where "wslcompat_synth_pin_fd K OPS fd w = (None, w1)" and "same_lib w w1"
proof (cases rule: pin_fd_cases [of K OPS fd w])
  case (pinned i st w1)
  with assms have False by (metis linorder_not_less nth_mem)
  then show ?thesis ..
qed

lemma preexec_collect_empty:
  assumes "\<forall>e\<in>set (synth_table w). refcount e \<le> 0"
  shows "fst (snd (preexec_collect_visit K OPS fd c w)) = c \<and> same_lib w (snd (snd (preexec_collect_visit K OPS fd c w)))"
  using assms by (rule pin_fd_empty [of w K OPS fd]) (simp add: preexec_collect_visit_def)

lemma preexec_save_empty:
  assumes "\<forall>e\<in>set (synth_table w). refcount e \<le> 0"
  shows "fst (wslcompat_synth_preexec_save K OPS [] w) = []"
    and "same_lib w (snd (wslcompat_synth_preexec_save K OPS [] w))"
proof -
  let ?visit = "preexec_collect_visit K OPS"
  have step: "fst (snd (?visit fd c v)) = c \<and> same_lib w (snd (snd (?visit fd c v)))" if "same_lib w v" for fd c v
    using preexec_collect_empty [of v K OPS fd c] that assms same_lib_trans [of w v] by (simp add: same_libD)
  have batch: "fst (snd (walk_batch ?visit d names c v)) = c \<and> same_lib w (snd (snd (walk_batch ?visit d names c v)))"
    if "same_lib w v" for d names c v
    using that step by (induction names arbitrary: v) (simp_all add: case_prod_beta Let_def walk_batch.simps(2))
  have "fst (walk_batches K ?visit d n c v) = c \<and> same_lib w (snd (walk_batches K ?visit d n c v))"
    if "same_lib w v" for d n c v
    using that
  proof (induction n arbitrary: v)
    case (Suc n)
    then show ?case using batch [of "snd (sys (k_getdents K d) v)" d _ c]
      by (simp add: case_prod_beta Let_def split: option.split list.split)
  qed simp
  then have "fst (wslcompat_walk_proc_self_fd K ?visit [] w) = []
      \<and> same_lib w (snd (wslcompat_walk_proc_self_fd K ?visit [] w))"
    by (simp add: wslcompat_walk_proc_self_fd_def case_prod_beta Let_def split: option.split)
  then show "fst (wslcompat_synth_preexec_save K OPS [] w) = []"
    and "same_lib w (snd (wslcompat_synth_preexec_save K OPS [] w))"
    by (simp_all add: wslcompat_synth_preexec_save_def case_prod_beta)
qed

section \<open>What is collected\<close>

text \<open>
  Every descriptor on the inode of a live entry is a candidate.  The probe of the entry is one: it
  is a second open of the same file.  The walk of \<^verbatim>\<open>post_close\<close> leaves it out; this one does not,
  so that the probe is parked and replaced like a descriptor of the program.
\<close>

lemma preexec_collects:
  assumes "k_fstat K fd (kst w) = (Inr st, kst w)" and "synth_slot w st = Some i" and "length c < SYNTH_PREEXEC_MAX"
  shows "preexec_collect_visit K OPS fd c w = (0, c @ [fd], w)"
  using assms unpin_slot [OF assms(2) refl] by (simp add: preexec_collect_visit_def pin_fd_slot upd_entry_def)

lemma preexec_collects_probe:
  assumes "k_fstat K (probe_fd (synth_table w ! i)) (kst w) = (Inr (se_stat (synth_table w ! i)), kst w)"
    and "i < length (synth_table w)" "refcount (synth_table w ! i) > 0" and "length c < SYNTH_PREEXEC_MAX"
  shows "preexec_collect_visit K OPS (probe_fd (synth_table w ! i)) c w = (0, c @ [probe_fd (synth_table w ! i)], w)"
proof -
  have "find_index (\<lambda>e. refcount e > 0 \<and> same_inode (se_stat e) (se_stat (synth_table w ! i))) (synth_table w) \<noteq> None"
    using nth_mem [OF assms(2)] assms(3) by (auto simp: find_index_None_iff same_inode_def)
  then obtain j where "synth_slot w (se_stat (synth_table w ! i)) = Some j" by (auto simp: synth_slot_def)
  with assms(1,4) show ?thesis by (intro preexec_collects)
qed

end
