(* ===== verification/Open.thy ===== *)
theory Open
  imports Handlers
begin

text \<open>
  open.c: the open family.  O_TMPFILE is emulated, a few missing /proc files are redirected
  to synthetic descriptors, and a creating open is tried with O_EXCL first so that the
  birth time of a new file can be recorded.
\<close>

section \<open>The shims\<close>

definition is_tmpfile :: "int \<Rightarrow> bool" where
  "is_tmpfile flags \<longleftrightarrow> flags AND O_TMPFILE = O_TMPFILE"

text \<open>The mode argument is fetched only when a file may be created.\<close>

definition open_mode :: "int \<Rightarrow> int \<Rightarrow> int" where
  "open_mode flags mode = (if has_flag flags O_CREAT \<or> is_tmpfile flags then mode else 0)"

datatype open_handler = Handle_mmap_min_addr | Handle_proc_pid_mem

definition redirects :: "(cstring \<times> open_handler) list" where
  "redirects =
     [(''/proc/sys/vm/mmap_min_addr'', Handle_mmap_min_addr),
      (''/proc/*/mem'', Handle_proc_pid_mem),
      (''/proc/*/task/*/mem'', Handle_proc_pid_mem)]"

definition call_handler ::
  "'k kernel \<Rightarrow> 'k ops_table \<Rightarrow> open_handler \<Rightarrow> cstring \<Rightarrow> int \<Rightarrow> 'k world \<Rightarrow> int option option \<times> 'k world" where
  "call_handler K OPS h pathname flags =
     (case h of
        Handle_mmap_min_addr \<Rightarrow> handle_mmap_min_addr K OPS flags
      | Handle_proc_pid_mem \<Rightarrow> handle_proc_pid_mem K OPS pathname flags)"

fun redirect_loop ::
  "'k kernel \<Rightarrow> 'k ops_table \<Rightarrow> (cstring \<times> open_handler) list \<Rightarrow> cstring \<Rightarrow> int \<Rightarrow> 'k world \<Rightarrow>
     int option option \<times> 'k world" where
  "redirect_loop K OPS [] pathname flags w = (None, w)"
| "redirect_loop K OPS ((pat, h) # rs) pathname flags w =
     (if \<not> fnmatch pat pathname then redirect_loop K OPS rs pathname flags w
      else
        (let (r, w1) = call_handler K OPS h pathname flags w
         in case r of Some fd \<Rightarrow> (Some fd, w1) | None \<Rightarrow> redirect_loop K OPS rs pathname flags w1))"

definition match_redirects_table ::
  "'k kernel \<Rightarrow> 'k ops_table \<Rightarrow> cstring \<Rightarrow> int \<Rightarrow> 'k world \<Rightarrow> int option option \<times> 'k world" where
  "match_redirects_table K OPS pathname flags w =
     (if \<not> wslcompat_tunable_bool (options w) ''redirect'' True then (None, w)
      else redirect_loop K OPS redirects pathname flags w)"

text \<open>
  A null path is \<open>None\<close>.  Every call the shims make with it fails, with the errno \<open>null_open\<close>
  says the kernel has for it.
\<close>

definition null_path :: "('k \<Rightarrow> int \<times> 'k) \<Rightarrow> ('k, int) call" where
  "null_path null_open = sys (\<lambda>k. map_prod Inl id (null_open k))"

definition openat_shim ::
  "'k kernel \<Rightarrow> 'k ops_table \<Rightarrow> ('k \<Rightarrow> int \<times> 'k) \<Rightarrow> int \<Rightarrow> cstring option \<Rightarrow> int \<Rightarrow> int \<Rightarrow> ('k, int) call" where
  "openat_shim K OPS null_open dirfd path flags mode0 w =
     (let mode = open_mode flags mode0;
          libc = (case path of None \<Rightarrow> null_path null_open | Some p \<Rightarrow> sys (k_openat K dirfd p flags mode))
      in if passthru ''openat'' w then libc w
         else if is_tmpfile flags \<and> \<not> has_flag flags O_PATH then
           (case path of
              None \<Rightarrow> null_path null_open w
            | Some p \<Rightarrow> handle_tmpfile_at K dirfd p flags mode w)
         else
           (case path of
              None \<Rightarrow> null_path null_open w
            | Some p \<Rightarrow>
                (let (m, w1) = match_redirects_table K OPS p flags w
                 in case m of
                      Some fd \<Rightarrow> (fd, w1)
                    | None \<Rightarrow>
                        (if \<not> has_flag flags O_CREAT \<or> has_flag flags O_PATH
                         then sys (k_openat K dirfd p flags mode) w1
                         else
                           (let (r, w2) = sys (k_openat K dirfd p (flags OR O_EXCL) mode) w1
                            in case r of
                                 Some fd \<Rightarrow> (Some fd, record_btime_now K fd w2)
                               | None \<Rightarrow>
                                   (if errno w2 \<noteq> EEXIST \<or> has_flag flags O_EXCL then (None, w2)
                                    else sys (k_openat K dirfd p flags mode) w2))))))"

definition open_shim ::
  "'k kernel \<Rightarrow> 'k ops_table \<Rightarrow> ('k \<Rightarrow> int \<times> 'k) \<Rightarrow> cstring option \<Rightarrow> int \<Rightarrow> int \<Rightarrow> ('k, int) call" where
  "open_shim K OPS null_open path flags mode0 w =
     (if passthru ''open'' w
      then (case path of
              None \<Rightarrow> null_path null_open w
            | Some p \<Rightarrow> sys (k_openat K AT_FDCWD p flags (open_mode flags mode0)) w)
      else openat_shim K OPS null_open AT_FDCWD path flags (open_mode flags mode0) w)"

text \<open>The FORTIFY entry points abort (\<open>None\<close>) when a mode would be needed.\<close>

definition open_2 ::
  "'k kernel \<Rightarrow> 'k ops_table \<Rightarrow> ('k \<Rightarrow> int \<times> 'k) \<Rightarrow> cstring option \<Rightarrow> int \<Rightarrow> 'k world \<Rightarrow>
     (int option \<times> 'k world) option" where
  "open_2 K OPS null_open path flags w =
     (if has_flag flags O_CREAT \<or> is_tmpfile flags then None else Some (open_shim K OPS null_open path flags 0 w))"

definition openat_2 ::
  "'k kernel \<Rightarrow> 'k ops_table \<Rightarrow> ('k \<Rightarrow> int \<times> 'k) \<Rightarrow> int \<Rightarrow> cstring option \<Rightarrow> int \<Rightarrow> 'k world \<Rightarrow>
     (int option \<times> 'k world) option" where
  "openat_2 K OPS null_open dirfd path flags w =
     (if has_flag flags O_CREAT \<or> is_tmpfile flags then None
      else Some (openat_shim K OPS null_open dirfd path flags 0 w))"

definition creat_shim ::
  "'k kernel \<Rightarrow> 'k ops_table \<Rightarrow> ('k \<Rightarrow> int \<times> 'k) \<Rightarrow> cstring option \<Rightarrow> int \<Rightarrow> ('k, int) call" where
  "creat_shim K OPS null_open path mode =
     open_shim K OPS null_open path (O_CREAT OR O_WRONLY OR O_TRUNC) mode"

section \<open>Which paths are redirected\<close>

definition plain :: "cstring \<Rightarrow> bool" where
  "plain x \<longleftrightarrow> CHR ''/'' \<notin> set x"

lemma match_mmap_min_addr: "fnmatch ''/proc/sys/vm/mmap_min_addr'' p \<longleftrightarrow> p = ''/proc/sys/vm/mmap_min_addr''"
  by (rule fnmatch_literal) (simp add: literal_pattern_def)

lemma match_proc_mem: "fnmatch ''/proc/*/mem'' p \<longleftrightarrow> (\<exists>x. plain x \<and> p = ''/proc/'' @ x @ ''/mem'')"
proof -
  have "fnmatch (''/proc/'' @ CHR ''*'' # ''/mem'') p \<longleftrightarrow> (\<exists>x. plain x \<and> p = ''/proc/'' @ x @ ''/mem'')"
    by (subst fnmatch_literal_append)
      (auto simp: literal_pattern_def fnmatch_star fnmatch_literal plain_def simp del: fnmatch.simps)
  then show ?thesis by simp
qed

lemma match_proc_task_mem:
  "fnmatch ''/proc/*/task/*/mem'' p \<longleftrightarrow> (\<exists>x y. plain x \<and> plain y \<and> p = ''/proc/'' @ x @ ''/task/'' @ y @ ''/mem'')"
proof -
  have tail: "fnmatch (''/task/'' @ CHR ''*'' # ''/mem'') t \<longleftrightarrow> (\<exists>y. plain y \<and> t = ''/task/'' @ y @ ''/mem'')" for t
    by (subst fnmatch_literal_append)
      (auto simp: literal_pattern_def fnmatch_star fnmatch_literal plain_def simp del: fnmatch.simps)
  have "fnmatch (''/proc/'' @ CHR ''*'' # (''/task/'' @ CHR ''*'' # ''/mem'')) p \<longleftrightarrow>
      (\<exists>x y. plain x \<and> plain y \<and> p = ''/proc/'' @ x @ ''/task/'' @ y @ ''/mem'')"
    by (subst fnmatch_literal_append, simp add: literal_pattern_def, unfold fnmatch_star tail)
      (auto simp: plain_def)
  then show ?thesis by simp
qed

lemma call_handler_pid_mem_decline:
  assumes "fst (handle_proc_pid_mem K OPS p flags w) = None"
  shows "handle_proc_pid_mem K OPS p flags w = (None, w)"
  using assms by (auto simp: handle_proc_pid_mem_def Let_def case_prod_beta split: if_splits)

definition mem_path :: "cstring \<Rightarrow> bool" where
  "mem_path p \<longleftrightarrow> fnmatch ''/proc/*/mem'' p \<or> fnmatch ''/proc/*/task/*/mem'' p"

lemma mem_path_iff:
  "mem_path p \<longleftrightarrow> (\<exists>x. plain x \<and> (p = ''/proc/'' @ x @ ''/mem''
      \<or> (\<exists>y. plain y \<and> p = ''/proc/'' @ x @ ''/task/'' @ y @ ''/mem'')))"
  unfolding mem_path_def match_proc_mem match_proc_task_mem by blast

lemma redirect_loop_redirects:
  "redirect_loop K OPS redirects p flags w =
     (if p = ''/proc/sys/vm/mmap_min_addr'' then handle_mmap_min_addr K OPS flags w
      else if mem_path p then handle_proc_pid_mem K OPS p flags w
      else (None, w))"
proof -
  have m: "\<not> fnmatch ''/proc/*/mem'' ''/proc/sys/vm/mmap_min_addr''"
    "\<not> fnmatch ''/proc/*/task/*/mem'' ''/proc/sys/vm/mmap_min_addr''"
    by code_simp+
  obtain r v where h: "handle_proc_pid_mem K OPS p flags w = (r, v)" by fastforce
  have d: "r = None \<Longrightarrow> v = w" using call_handler_pid_mem_decline [of K OPS p flags w] h by simp
  obtain r' v' where h': "handle_mmap_min_addr K OPS flags w = (Some r', v')"
    by (simp add: handle_mmap_min_addr_def case_prod_beta)
  show ?thesis using h h' d m
    by (cases r) (auto simp: redirects_def call_handler_def match_mmap_min_addr mem_path_def simp del: fnmatch.simps)
qed

lemma redirect_on:
  assumes "\<not> passthru ''openat'' w" and "\<not> (is_tmpfile flags \<and> \<not> has_flag flags O_PATH)"
    and "wslcompat_tunable_bool (options w) ''redirect'' True"
    and "redirect_loop K OPS redirects p flags w = (Some fd, w')"
  shows "openat_shim K OPS null_open dirfd (Some p) flags mode w = (fd, w')"
proof -
  have "match_redirects_table K OPS p flags w = (Some fd, w')"
    using assms(3,4) by (simp add: match_redirects_table_def)
  then show ?thesis using assms(1,2) by (auto simp: openat_shim_def Let_def)
qed

lemma show_nat_plain: "plain (show_nat n)"
  using show_nat_digits [of n] by (auto simp: plain_def is_digit_def)

lemma mem_path_I:
  assumes "plain x" and "plain y"
  shows "mem_path (''/proc/'' @ x @ ''/mem'')" and "mem_path (''/proc/'' @ x @ ''/task/'' @ y @ ''/mem'')"
  using assms mem_path_iff by blast+

lemma mem_path_not_mmap: "mem_path p \<Longrightarrow> p \<noteq> ''/proc/sys/vm/mmap_min_addr''"
proof -
  have "\<not> mem_path ''/proc/sys/vm/mmap_min_addr''" by code_simp
  then show "mem_path p \<Longrightarrow> p \<noteq> ''/proc/sys/vm/mmap_min_addr''" by blast
qed

lemma mem_path_shape: "mem_path p \<Longrightarrow> take 6 p = ''/proc/''"
  by (auto simp: mem_path_iff)

lemma handle_pid_mem_show:
  assumes "0 < n" and "n \<le> 2147483647"
  shows "handle_proc_pid_mem K OPS (''/proc/'' @ show_nat n @ CHR ''/'' # t) flags w =
     (let (fd, w1) = wslcompat_synth_open K OPS flags Proc_pid_mem_ops (Pid_ptr (int n)) w in (Some fd, w1))"
proof -
  have "proc_parse_pid K (show_nat n @ CHR ''/'' # t) w = int n"
    using proc_parse_pid_show [of "CHR ''/'' # t" n K w] assms by (simp add: is_digit_def)
  then show ?thesis using assms by (simp add: handle_proc_pid_mem_def Let_def)
qed

section \<open>Properties of the open family\<close>


lemma plain_digit: "plain ''7''"
  by (simp add: plain_def)


text \<open>
  C21: Trying O_EXCL first is invisible to the caller.  Take a kernel in which O_EXCL refuses
  an existing file with EEXIST and otherwise makes no difference.  A creating open then gives
  the same descriptor or errno as the plain call, on an existing file it leaves exactly the
  kernel state of the plain call, and on a new one that state with the birth time recorded.
\<close>

theorem open_excl_transparent:
  assumes "\<not> passthru ''openat'' w" and "\<not> is_tmpfile flags" and "has_flag flags O_CREAT" and "\<not> has_flag flags O_PATH"
    and "p \<noteq> ''/proc/sys/vm/mmap_min_addr''" and "\<not> mem_path p"
    and excl: "k_openat K dirfd p (flags OR O_EXCL) mode (kst w) =
      (if present (kst w) then (Inl EEXIST, kst w) else k_openat K dirfd p flags mode (kst w))"
    and new: "\<not> present (kst w) \<longrightarrow> fst (k_openat K dirfd p flags mode (kst w)) \<noteq> Inl EEXIST"
  shows "let (r, w1) = sys (k_openat K dirfd p flags mode) w;
             (r', w') = openat_shim K OPS null_open dirfd (Some p) flags mode w
         in r' = r
          \<and> (r = None \<longrightarrow> errno w' = errno w1)
          \<and> kst w' = (if present (kst w) \<or> r = None then kst w1 else kst (record_btime_now K (the r) w1))"
proof -
  have m: "match_redirects_table K OPS p flags w = (None, w)"
    using assms(5,6) by (simp add: match_redirects_table_def redirect_loop_redirects)
  have md: "open_mode flags mode = mode" using assms(3) by (simp add: open_mode_def)
  show ?thesis
  proof (cases "present (kst w)")
    case True
    then have e: "sys (k_openat K dirfd p (flags OR O_EXCL) mode) w = (None, w\<lparr>errno := EEXIST\<rparr>)"
      using excl by (simp add: sys_def)
    show ?thesis
    proof (cases "has_flag flags O_EXCL")
      case True
      with has_flag_or [of flags 7] e show ?thesis using assms(1-4) m md by (simp add: openat_shim_def Let_def)
    next
      case False
      with e True show ?thesis using assms(1-4) m md
        by (simp add: openat_shim_def Let_def) (auto simp: sys_def split: prod.splits sum.splits)
    qed
  next
    case False
    then have e: "sys (k_openat K dirfd p (flags OR O_EXCL) mode) w = sys (k_openat K dirfd p flags mode) w"
      using excl by (simp add: sys_def)
    obtain r w1 where o1: "sys (k_openat K dirfd p flags mode) w = (r, w1)" by fastforce
    have "r = None \<Longrightarrow> errno w1 \<noteq> EEXIST"
      using o1 new False by (auto simp: sys_def split: prod.splits sum.splits)
    then show ?thesis using assms(1-4) m md e o1 False
      by (cases r) (simp_all add: openat_shim_def Let_def)
  qed
qed

text \<open>A kernel whose state says whether the one file exists.\<close>

definition example_creat :: "bool kernel" where
  "example_creat = null_kernel
     \<lparr>k_openat := (\<lambda>_ _ flags _ k. if k \<and> has_flag flags O_EXCL then (Inl EEXIST, k) else (Inr 5, True))\<rparr>"

theorem open_excl_transparent_witness:
  "fst (openat_shim example_creat (\<lambda>_. no_ops) (\<lambda>k. (EFAULT, k)) AT_FDCWD (Some ''/etc/x'') 65 384 (static_world True)) = Some 5"
proof -
  let ?w = "static_world True"
  have h: "\<not> passthru ''openat'' ?w" "\<not> is_tmpfile 65" "has_flag 65 O_CREAT" "\<not> has_flag 65 O_PATH" "\<not> mem_path ''/etc/x''"
    "\<not> has_flag 65 O_EXCL" "has_flag (65 OR 128) 128"
    by code_simp+
  have k: "k_openat example_creat d q f m k = (if k \<and> has_flag f O_EXCL then (Inl EEXIST, k) else (Inr 5, True))" for d q f m k
    by (simp add: example_creat_def)
  have o: "sys (k_openat example_creat AT_FDCWD ''/etc/x'' 65 384) ?w = (Some 5, ?w)"
    using h(6) by (simp add: sys_def k static_world_def)
  show ?thesis
    using open_excl_transparent [of ?w 65 "''/etc/x''" example_creat AT_FDCWD 384 "\<lambda>k. k" "\<lambda>_. no_ops" "\<lambda>k. (EFAULT, k)"]
      h(1-6) h(7) by (simp only: o k) (auto simp: static_world_def case_prod_beta Let_def)
qed

text \<open>Opening the backing file of a synthetic descriptor is a call of the open shim.\<close>

lemma open_backing_is_open:
  "open_shim K OPS null_open (Some ''/tmp'') BACKING_FLAGS 384 w = open_backing K w"
proof -
  have "is_tmpfile BACKING_FLAGS" "\<not> has_flag BACKING_FLAGS O_PATH" by code_simp+
  then show ?thesis
    by (simp add: open_shim_def openat_shim_def open_backing_def open_mode_def)
qed

end
