(* ===== verification/Elf.thy ===== *)
theory Elf
  imports Dispatch
begin

text \<open>
  ELF headers: the examination of an executable the kernel refused (\<^verbatim>\<open>elf_needs_fixup\<close> of
  execve.c), and the tool that rewrites such an executable (tools/elfclamp.c).  The WSL1
  loader rejects files whose PT_LOAD headers do not all have the same \<^verbatim>\<open>p_align\<close>.  A file is its
  bytes; header fields are read in little-endian order at their ELF64 offsets.
\<close>

section \<open>Headers\<close>

abbreviation (input) PT_LOAD :: nat where "PT_LOAD \<equiv> 1"
abbreviation (input) PT_INTERP :: nat where "PT_INTERP \<equiv> 3"
abbreviation (input) ELFCLASS64 :: nat where "ELFCLASS64 \<equiv> 2"
abbreviation (input) SIZEOF_EHDR :: nat where "SIZEOF_EHDR \<equiv> 64"
abbreviation (input) SIZEOF_PHDR :: nat where "SIZEOF_PHDR \<equiv> 56"

definition ELFMAG :: bytes where
  "ELFMAG = [CHR 0x7F, CHR ''E'', CHR ''L'', CHR ''F'']"

fun le :: "bytes \<Rightarrow> nat" where
  "le [] = 0"
| "le (c # cs) = of_char c + 256 * le cs"

definition fld :: "nat \<Rightarrow> nat \<Rightarrow> bytes \<Rightarrow> nat" where
  "fld off n b = le (take n (drop off b))"

record Elf64_Ehdr =
  e_ident :: bytes
  e_phoff :: "64 word"
  e_phentsize :: nat
  e_phnum :: nat

record Elf64_Phdr =
  p_type :: nat
  p_align :: "64 word"

definition parse_ehdr :: "bytes \<Rightarrow> Elf64_Ehdr" where
  "parse_ehdr b =
     \<lparr>e_ident = take 16 b, e_phoff = of_nat (fld 32 8 b), e_phentsize = fld 54 2 b, e_phnum = fld 56 2 b\<rparr>"

definition parse_phdr :: "bytes \<Rightarrow> Elf64_Phdr" where
  "parse_phdr b = \<lparr>p_type = fld 0 4 b, p_align = of_nat (fld 48 8 b)\<rparr>"

definition elf64_ident :: "Elf64_Ehdr \<Rightarrow> bool" where
  "elf64_ident e \<longleftrightarrow> take 4 (e_ident e) = ELFMAG \<and> (of_char (e_ident e ! 4) :: nat) = ELFCLASS64"

section \<open>elf_needs_fixup\<close>

record elf_scan =
  es_mixed :: bool
  es_dynamic :: bool
  es_align :: "64 word"

text \<open>The body of the loop over the program headers.\<close>

definition scan_phdr :: "Elf64_Phdr \<Rightarrow> elf_scan \<Rightarrow> elf_scan" where
  "scan_phdr ph s =
     (let s1 = (if p_type ph = PT_LOAD
                then (let al = (if es_align s = 0 then p_align ph else es_align s)
                      in s\<lparr>es_align := al, es_mixed := es_mixed s \<or> p_align ph \<noteq> al\<rparr>)
                else s)
      in s1\<lparr>es_dynamic := es_dynamic s1 \<or> p_type ph = PT_INTERP\<rparr>)"

fun scan_phdrs ::
  "'k kernel \<Rightarrow> 'k ops_table \<Rightarrow> 'k libc_io \<Rightarrow> int \<Rightarrow> 64 word \<Rightarrow> nat list \<Rightarrow> elf_scan \<Rightarrow> 'k world \<Rightarrow> elf_scan option \<times> 'k world" where
  "scan_phdrs K OPS N fd phoff [] s w = (Some s, w)"
| "scan_phdrs K OPS N fd phoff (i # is) s w =
     (case pread_shim K OPS N fd SIZEOF_PHDR (sint (phoff + of_nat (i * SIZEOF_PHDR))) w of
        (None, w1) \<Rightarrow> (None, w1)
      | (Some b, w1) \<Rightarrow>
          (if length b \<noteq> SIZEOF_PHDR then (None, w1)
           else scan_phdrs K OPS N fd phoff is (scan_phdr (parse_phdr b) s) w1))"

definition elf_needs_fixup ::
  "'k kernel \<Rightarrow> 'k ops_table \<Rightarrow> 'k libc_io \<Rightarrow> int \<Rightarrow> 'k world \<Rightarrow> bool \<times> 'k world" where
  "elf_needs_fixup K OPS N fd w =
     (case pread_shim K OPS N fd SIZEOF_EHDR 0 w of
        (None, w1) \<Rightarrow> (False, w1)
      | (Some b, w1) \<Rightarrow>
          (let e = parse_ehdr b
           in if length b \<noteq> SIZEOF_EHDR then (False, w1)
              else if take 4 (e_ident e) \<noteq> ELFMAG then (False, w1)
              else if (of_char (e_ident e ! 4) :: nat) \<noteq> ELFCLASS64 then (False, w1)
              else if e_phnum e = 0 \<or> e_phentsize e \<noteq> SIZEOF_PHDR then (False, w1)
              else
                (let (s, w2) = scan_phdrs K OPS N fd (e_phoff e) [0..<e_phnum e]
                                 \<lparr>es_mixed = False, es_dynamic = False, es_align = 0\<rparr> w1
                 in case s of
                      None \<Rightarrow> (False, w2)
                    | Some s \<Rightarrow> (if es_mixed s \<and> \<not> es_dynamic s then (False, w2) else (es_mixed s, w2)))))"

section \<open>elfclamp\<close>

text \<open>
  The tool works on the mapped file; \<open>None\<close> is an access outside the mapping.  The headers
  are read from the mapping again and again, as the C expressions do.
\<close>

definition phdr_at :: "bytes \<Rightarrow> nat \<Rightarrow> nat \<Rightarrow> Elf64_Phdr option" where
  "phdr_at mem phoff i =
     (if phoff + (i + 1) * SIZEOF_PHDR \<le> length mem
      then Some (parse_phdr (take SIZEOF_PHDR (drop (phoff + i * SIZEOF_PHDR) mem))) else None)"

fun le_bytes :: "nat \<Rightarrow> nat \<Rightarrow> bytes" where
  "le_bytes 0 v = []"
| "le_bytes (Suc n) v = char_of (v mod 256) # le_bytes n (v div 256)"

definition put_align :: "bytes \<Rightarrow> nat \<Rightarrow> nat \<Rightarrow> 64 word \<Rightarrow> bytes" where
  "put_align mem phoff i v =
     (let off = phoff + i * SIZEOF_PHDR + 48 in take off mem @ le_bytes 8 (unat v) @ drop (off + 8) mem)"

function min_align_loop :: "bytes \<Rightarrow> nat \<Rightarrow> nat \<Rightarrow> 64 word \<Rightarrow> nat \<Rightarrow> (64 word \<times> nat) option" where
  "min_align_loop mem phoff i mn cnt =
     (if i < e_phnum (parse_ehdr mem)
      then (case phdr_at mem phoff i of
              None \<Rightarrow> None
            | Some ph \<Rightarrow>
                (if p_type ph \<noteq> PT_LOAD then min_align_loop mem phoff (i + 1) mn cnt
                 else min_align_loop mem phoff (i + 1) (if mn = 0 \<or> p_align ph < mn then p_align ph else mn) (cnt + 1)))
      else Some (mn, cnt))"
  by pat_completeness auto

termination
  by (relation "measure (\<lambda>(mem, _, i, _). e_phnum (parse_ehdr mem) - i)") auto

lemma le_less: "le b < 256 ^ length b"
proof (induction b)
  case (Cons c cs)
  have "(of_char c :: nat) < 256" by simp
  moreover have "le cs + 1 \<le> 256 ^ length cs" using Cons by simp
  then have "256 * le cs + 256 \<le> 256 * 256 ^ length cs" by simp
  ultimately have "of_char c + 256 * le cs < 256 * 256 ^ length cs" by linarith
  then show ?case by simp
qed simp

lemma e_phnum_less: "e_phnum (parse_ehdr b) < 65536"
proof -
  have "fld 56 2 b < 256 ^ length (take 2 (drop 56 b))" unfolding fld_def by (rule le_less)
  also have "\<dots> \<le> 256 ^ 2" by (rule power_increasing) simp_all
  finally show ?thesis by (simp add: parse_ehdr_def)
qed

function clamp_loop :: "bytes \<Rightarrow> nat \<Rightarrow> nat \<Rightarrow> 64 word \<Rightarrow> nat \<Rightarrow> (bytes \<times> nat) option" where
  "clamp_loop mem phoff i mn changed =
     (if i < e_phnum (parse_ehdr mem)
      then (case phdr_at mem phoff i of
              None \<Rightarrow> None
            | Some ph \<Rightarrow>
                (if p_type ph \<noteq> PT_LOAD \<or> p_align ph = mn then clamp_loop mem phoff (i + 1) mn changed
                 else clamp_loop (put_align mem phoff i mn) phoff (i + 1) mn (changed + 1)))
      else Some (mem, changed))"
  by pat_completeness auto

termination
  by (relation "measure (\<lambda>(mem, _, i, _). 65536 - i)") (auto dest!: less_trans [OF _ e_phnum_less])

declare min_align_loop.simps [simp del]
declare clamp_loop.simps [simp del]

text \<open>Everything between mmap and munmap: the file afterwards.\<close>

definition elfclamp_mem :: "bytes \<Rightarrow> bytes option" where
  "elfclamp_mem mem =
     (let e = parse_ehdr mem
      in if take 4 (e_ident e) \<noteq> ELFMAG then Some mem
         else if (of_char (e_ident e ! 4) :: nat) \<noteq> ELFCLASS64 then Some mem
         else if e_phoff e = 0 \<or> e_phnum e = 0 then Some mem
         else if e_phentsize e \<noteq> SIZEOF_PHDR then Some mem
         else if e_phoff e + of_nat (e_phnum e) * of_nat (e_phentsize e) > of_nat (length mem) then Some mem
         else case min_align_loop mem (unat (e_phoff e)) 0 0 0 of
                None \<Rightarrow> None
              | Some (mn, cnt) \<Rightarrow>
                  (if cnt = 0 then Some mem
                   else map_option fst (clamp_loop mem (unat (e_phoff e)) 0 mn 0)))"

text \<open>\<^verbatim>\<open>main\<close>: the exit code and the file, given what open, fstat and mmap return.\<close>

definition elfclamp_main :: "nat \<Rightarrow> bool \<Rightarrow> nat option \<Rightarrow> bytes option \<Rightarrow> (int \<times> bytes option) option" where
  "elfclamp_main argc opened st_size mapped =
     (if argc \<noteq> 2 then Some (1, None)
      else if \<not> opened then Some (1, None)
      else case st_size of
             None \<Rightarrow> Some (1, None)
           | Some sz \<Rightarrow>
               (if sz < SIZEOF_EHDR then Some (1, None)
                else case mapped of
                       None \<Rightarrow> Some (1, None)
                     | Some mem \<Rightarrow> map_option (\<lambda>m. (0, Some m)) (elfclamp_mem mem)))"

section \<open>Rewriting a header\<close>

lemma length_le_bytes [simp]: "length (le_bytes n v) = n"
  by (induction n arbitrary: v) simp_all

lemma le_le_bytes: "v < 256 ^ n \<Longrightarrow> le (le_bytes n v) = v"
proof (induction n arbitrary: v)
  case (Suc n)
  then have "v div 256 < 256 ^ n" by (simp add: less_mult_imp_div_less mult.commute)
  with Suc.IH show ?case by simp
qed simp

text \<open>What a store of \<open>b\<close> at \<open>off\<close> leaves of the other bytes.\<close>

lemma store_other:
  assumes "off + length b \<le> length mem" and "st + n \<le> off \<or> off + length b \<le> st"
  shows "take n (drop st (take off mem @ b @ drop (off + length b) mem)) = take n (drop st mem)"
proof -
  define s where "s = take off mem @ b @ drop (off + length b) mem"
  have len: "length s = length mem" using assms(1) by (simp add: s_def)
  have nth: "s ! k = mem ! k" if "k < off \<or> off + length b \<le> k" "k < length mem" for k
    using that assms(1) by (auto simp: s_def nth_append)
  have "take n (drop st s) = take n (drop st mem)"
  proof (rule nth_equalityI)
    fix k assume "k < length (take n (drop st s))"
    then have "k < n" "st + k < length mem" using len by auto
    with assms(2) nth [of "st + k"] len show "take n (drop st s) ! k = take n (drop st mem) ! k" by auto
  qed (simp add: len)
  then show ?thesis by (simp add: s_def)
qed

lemma fld_take: "off + n \<le> m \<Longrightarrow> fld off n (take m b) = fld off n b"
  by (simp add: fld_def drop_take min_def)

lemma parse_ehdr_cong: "take SIZEOF_EHDR a = take SIZEOF_EHDR b \<Longrightarrow> parse_ehdr a = parse_ehdr b"
proof -
  assume eq: "take SIZEOF_EHDR a = take SIZEOF_EHDR b"
  have "fld 32 8 a = fld 32 8 b" "fld 54 2 a = fld 54 2 b" "fld 56 2 a = fld 56 2 b"
    using arg_cong [OF eq, of "fld 32 8"] arg_cong [OF eq, of "fld 54 2"] arg_cong [OF eq, of "fld 56 2"]
    by (simp_all add: fld_take)
  moreover have "take 16 a = take 16 b" using arg_cong [OF eq, of "take 16"] by simp
  ultimately show ?thesis by (simp add: parse_ehdr_def)
qed

definition phdr :: "bytes \<Rightarrow> nat \<Rightarrow> nat \<Rightarrow> Elf64_Phdr" where
  "phdr mem phoff i = parse_phdr (take SIZEOF_PHDR (drop (phoff + i * SIZEOF_PHDR) mem))"

text \<open>A header table that lies in the file, after the ELF header.\<close>

definition table_in :: "bytes \<Rightarrow> nat \<Rightarrow> nat \<Rightarrow> bool" where
  "table_in mem phoff n \<longleftrightarrow> SIZEOF_EHDR \<le> phoff \<and> phoff + n * SIZEOF_PHDR \<le> length mem"

lemma phdr_at_in: "table_in mem phoff n \<Longrightarrow> i < n \<Longrightarrow> phdr_at mem phoff i = Some (phdr mem phoff i)"
proof -
  assume "table_in mem phoff n" "i < n"
  then have "(i + 1) * SIZEOF_PHDR \<le> n * SIZEOF_PHDR" "phoff + n * SIZEOF_PHDR \<le> length mem"
    by (auto simp: table_in_def)
  then have "phoff + (i + 1) * SIZEOF_PHDR \<le> length mem" by linarith
  then show ?thesis by (simp add: phdr_at_def phdr_def)
qed

lemma put_align_props:
  assumes "table_in mem phoff n" and "i < n"
  shows "length (put_align mem phoff i v) = length mem"
    and "take SIZEOF_EHDR (put_align mem phoff i v) = take SIZEOF_EHDR mem"
    and "j < n \<Longrightarrow> phdr (put_align mem phoff i v) phoff j
           = (if j = i then (phdr mem phoff i)\<lparr>p_align := v\<rparr> else phdr mem phoff j)"
proof -
  let ?off = "phoff + i * SIZEOF_PHDR + 48"
  have "(i + 1) * SIZEOF_PHDR \<le> n * SIZEOF_PHDR" using assms(2) by simp
  with assms(1) have fits: "?off + 8 \<le> length mem" and far: "SIZEOF_EHDR \<le> ?off"
    by (auto simp: table_in_def)
  have put: "put_align mem phoff i v = take ?off mem @ le_bytes 8 (unat v) @ drop (?off + length (le_bytes 8 (unat v))) mem"
    by (simp add: put_align_def)
  show "length (put_align mem phoff i v) = length mem" using fits by (simp add: put_align_def)
  have "take SIZEOF_EHDR (drop 0 (put_align mem phoff i v)) = take SIZEOF_EHDR (drop 0 mem)"
    unfolding put by (rule store_other) (use fits far in auto)
  then show "take SIZEOF_EHDR (put_align mem phoff i v) = take SIZEOF_EHDR mem" by simp
  show "phdr (put_align mem phoff i v) phoff j
           = (if j = i then (phdr mem phoff i)\<lparr>p_align := v\<rparr> else phdr mem phoff j)" if "j < n"
  proof (cases "j = i")
    case False
    then have "j + 1 \<le> i \<or> i + 1 \<le> j" by linarith
    then have "(j + 1) * SIZEOF_PHDR \<le> i * SIZEOF_PHDR \<or> (i + 1) * SIZEOF_PHDR \<le> j * SIZEOF_PHDR"
      using mult_le_mono1 by blast
    then have "phoff + j * SIZEOF_PHDR + SIZEOF_PHDR \<le> ?off \<or> ?off + 8 \<le> phoff + j * SIZEOF_PHDR" by auto
    then have "take SIZEOF_PHDR (drop (phoff + j * SIZEOF_PHDR) (put_align mem phoff i v))
        = take SIZEOF_PHDR (drop (phoff + j * SIZEOF_PHDR) mem)"
      unfolding put by (intro store_other) (use fits in auto)
    with False show ?thesis by (simp add: phdr_def)
  next
    case True
    let ?b = "take 48 (drop (phoff + i * SIZEOF_PHDR) mem)"
    have new: "take SIZEOF_PHDR (drop (phoff + i * SIZEOF_PHDR) (put_align mem phoff i v)) = ?b @ le_bytes 8 (unat v)"
      using fits by (simp add: put_align_def drop_take)
    have lb: "length ?b = 48" using fits by simp
    have "fld 0 4 (?b @ le_bytes 8 (unat v)) = fld 0 4 (drop (phoff + i * SIZEOF_PHDR) mem)"
      using lb by (simp add: fld_def)
    moreover have "fld 48 8 (?b @ le_bytes 8 (unat v)) = unat v"
    proof -
      have "unat v < 256 ^ 8" using unsigned_less [of v, where 'a = nat] by simp
      then show ?thesis using lb by (simp add: fld_def le_le_bytes)
    qed
    ultimately show ?thesis using True new by (simp add: phdr_def parse_phdr_def fld_take)
  qed
qed

section \<open>A clamped file\<close>

text \<open>What the tool does to one header.\<close>

definition clamp_phdr :: "64 word \<Rightarrow> Elf64_Phdr \<Rightarrow> Elf64_Phdr" where
  "clamp_phdr mn ph = (if p_type ph = PT_LOAD then ph\<lparr>p_align := mn\<rparr> else ph)"

lemma min_align_loop_Some:
  assumes "table_in mem phoff (e_phnum (parse_ehdr mem))"
  shows "\<exists>mn c. min_align_loop mem phoff i m0 cnt = Some (mn, cnt + c)
           \<and> (c = 0 \<longrightarrow> (\<forall>j. i \<le> j \<and> j < e_phnum (parse_ehdr mem) \<longrightarrow> p_type (phdr mem phoff j) \<noteq> PT_LOAD))"
proof (induction "e_phnum (parse_ehdr mem) - i" arbitrary: i m0 cnt)
  case 0
  then show ?case by (simp add: min_align_loop.simps)
next
  case (Suc d)
  then have i: "i < e_phnum (parse_ehdr mem)" by simp
  let ?ph = "phdr mem phoff i"
  have at: "phdr_at mem phoff i = Some ?ph" using phdr_at_in [OF assms i] .
  have d: "d = e_phnum (parse_ehdr mem) - (i + 1)" using Suc.hyps(2) by simp
  show ?case
  proof (cases "p_type ?ph = PT_LOAD")
    case True
    let ?m = "if m0 = 0 \<or> p_align ?ph < m0 then p_align ?ph else m0"
    obtain mn c where "min_align_loop mem phoff (i + 1) ?m (cnt + 1) = Some (mn, cnt + 1 + c)"
      using Suc.hyps(1) [OF d, of ?m "cnt + 1"] by blast
    then have "min_align_loop mem phoff i m0 cnt = Some (mn, cnt + (1 + c))"
      using i at True by (subst min_align_loop.simps) (simp del: One_nat_def)
    then show ?thesis by auto
  next
    case False
    obtain mn c where mn: "min_align_loop mem phoff (i + 1) m0 cnt = Some (mn, cnt + c)"
      "c = 0 \<longrightarrow> (\<forall>j. i + 1 \<le> j \<and> j < e_phnum (parse_ehdr mem) \<longrightarrow> p_type (phdr mem phoff j) \<noteq> PT_LOAD)"
      using Suc.hyps(1) [OF d, of m0 cnt] by blast
    have "min_align_loop mem phoff i m0 cnt = Some (mn, cnt + c)"
      using i at False mn(1) by (subst min_align_loop.simps) simp
    moreover have "\<forall>j. i \<le> j \<and> j < e_phnum (parse_ehdr mem) \<longrightarrow> p_type (phdr mem phoff j) \<noteq> PT_LOAD" if "c = 0"
    proof (intro allI impI)
      fix j assume j: "i \<le> j \<and> j < e_phnum (parse_ehdr mem)"
      show "p_type (phdr mem phoff j) \<noteq> PT_LOAD" using mn(2) that False j by (cases "j = i") auto
    qed
    ultimately show ?thesis by blast
  qed
qed

lemma clamp_loop_Some:
  assumes "table_in mem phoff n" and "e_phnum (parse_ehdr mem) = n"
  shows "\<exists>mem' ch'. clamp_loop mem phoff i mn ch = Some (mem', ch') \<and> length mem' = length mem
           \<and> take SIZEOF_EHDR mem' = take SIZEOF_EHDR mem
           \<and> (\<forall>j<n. phdr mem' phoff j = (if j < i then phdr mem phoff j else clamp_phdr mn (phdr mem phoff j)))"
  using assms
proof (induction "n - i" arbitrary: i mem ch)
  case 0
  then show ?case by (simp add: clamp_loop.simps)
next
  case (Suc d)
  then have i: "i < n" by simp
  let ?ph = "phdr mem phoff i"
  have at: "phdr_at mem phoff i = Some ?ph" using phdr_at_in [OF Suc.prems(1) i] .
  have d: "d = n - (i + 1)" using Suc.hyps(2) by simp
  let ?skip = "p_type ?ph \<noteq> PT_LOAD \<or> p_align ?ph = mn"
  define m where "m = (if ?skip then mem else put_align mem phoff i mn)"
  define ch1 where "ch1 = (if ?skip then ch else ch + 1)"
  have step: "clamp_loop mem phoff i mn ch = clamp_loop m phoff (i + 1) mn ch1"
    using i at Suc.prems(2) by (subst clamp_loop.simps) (simp add: m_def ch1_def)
  have len: "length m = length mem" "take SIZEOF_EHDR m = take SIZEOF_EHDR mem"
    using put_align_props(1,2) [OF Suc.prems(1) i] by (simp_all add: m_def)
  have ph: "phdr m phoff j = (if j = i then clamp_phdr mn ?ph else phdr mem phoff j)" if "j < n" for j
    using put_align_props(3) [OF Suc.prems(1) i that] by (auto simp: m_def clamp_phdr_def)
  have "table_in m phoff n" "e_phnum (parse_ehdr m) = n"
    using Suc.prems len parse_ehdr_cong [OF len(2)] by (simp_all add: table_in_def)
  from Suc.hyps(1) [OF d this, of ch1] obtain mem' ch' where
    r: "clamp_loop m phoff (i + 1) mn ch1 = Some (mem', ch')" "length mem' = length m"
      "take SIZEOF_EHDR mem' = take SIZEOF_EHDR m"
      "\<forall>j<n. phdr mem' phoff j = (if j < i + 1 then phdr m phoff j else clamp_phdr mn (phdr m phoff j))" by blast
  have "\<forall>j<n. phdr mem' phoff j = (if j < i then phdr mem phoff j else clamp_phdr mn (phdr mem phoff j))"
    using r(4) ph i by (auto simp: less_Suc_eq)
  with r(1-3) step len show ?case by auto
qed

lemma scan_uniform:
  assumes "\<forall>ph\<in>set phs. p_type ph = PT_LOAD \<longrightarrow> p_align ph = al"
    and "\<not> es_mixed s" and "es_align s = 0 \<or> es_align s = al"
  shows "\<not> es_mixed (fold scan_phdr phs s)"
  using assms
proof (induction phs arbitrary: s)
  case (Cons ph phs)
  have "\<not> es_mixed (scan_phdr ph s)" "es_align (scan_phdr ph s) = 0 \<or> es_align (scan_phdr ph s) = al"
    using Cons.prems by (auto simp: scan_phdr_def Let_def)
  with Cons show ?case by simp
qed simp

text \<open>A kernel that reads the file \<open>mem\<close> through \<open>fd\<close>.\<close>

definition reads_file :: "'k libc_io \<Rightarrow> int \<Rightarrow> bytes \<Rightarrow> bool" where
  "reads_file N fd mem \<longleftrightarrow> (\<forall>n off k. 0 \<le> off \<longrightarrow> n_pread N fd n off k = (Inr (take n (drop (nat off) mem)), k))"

lemma reads_file_pread:
  "reads_file N fd mem \<Longrightarrow> 0 \<le> off \<Longrightarrow> pread_shim K OPS N fd n off w = (Some (take n (drop (nat off) mem)), w)"
  by (simp add: reads_file_def pread_shim_def synth_shim_e_def sys_def)

lemma phdr_offset:
  fixes phoff :: "64 word"
  assumes "unat phoff + i * SIZEOF_PHDR < 2 ^ 63"
  shows "sint (phoff + of_nat (i * SIZEOF_PHDR)) = int (unat phoff + i * SIZEOF_PHDR)"
proof -
  have "phoff + of_nat (i * SIZEOF_PHDR) = word_of_nat (unat phoff + i * SIZEOF_PHDR)" by simp
  moreover have "sint (word_of_nat (unat phoff + i * SIZEOF_PHDR) :: 64 word) = int (unat phoff + i * SIZEOF_PHDR)"
    using assms by (simp add: signed_of_nat signed_take_bit_int_eq_self del: of_nat_add of_nat_mult)
  ultimately show ?thesis by (simp only:)
qed

lemma scan_phdrs_file:
  assumes "reads_file N fd mem" and "table_in mem (unat phoff) n" and "length mem < 2 ^ 63" and "\<forall>i\<in>set is. i < n"
  shows "scan_phdrs K OPS N fd phoff is s w = (Some (fold scan_phdr (map (phdr mem (unat phoff)) is) s), w)"
  using assms(4)
proof (induction "is" arbitrary: s)
  case (Cons i "is")
  have "(i + 1) * SIZEOF_PHDR \<le> n * SIZEOF_PHDR" using Cons.prems by (intro mult_le_mono1) simp
  with assms(2) have fits: "unat phoff + i * SIZEOF_PHDR + SIZEOF_PHDR \<le> length mem" by (simp add: table_in_def)
  then have off: "sint (phoff + of_nat (i * SIZEOF_PHDR)) = int (unat phoff + i * SIZEOF_PHDR)"
    using assms(3) by (intro phdr_offset) simp
  have "pread_shim K OPS N fd SIZEOF_PHDR (sint (phoff + of_nat (i * SIZEOF_PHDR))) w
      = (Some (take SIZEOF_PHDR (drop (unat phoff + i * SIZEOF_PHDR) mem)), w)"
    unfolding off by (subst reads_file_pread [OF assms(1)]) (simp_all only: nat_int of_nat_0_le_iff)
  with Cons fits show ?case by (simp add: phdr_def del: of_nat_mult)
qed simp

definition scan_file :: "bytes \<Rightarrow> elf_scan" where
  "scan_file mem =
     fold scan_phdr (map (phdr mem (unat (e_phoff (parse_ehdr mem)))) [0..<e_phnum (parse_ehdr mem)])
       \<lparr>es_mixed = False, es_dynamic = False, es_align = 0\<rparr>"

text \<open>What the examination finds in a file whose header table lies in the file.\<close>

lemma elf_needs_fixup_file:
  assumes "reads_file N fd mem" and "elf64_ident (parse_ehdr mem)" and "e_phentsize (parse_ehdr mem) = SIZEOF_PHDR"
    and "e_phnum (parse_ehdr mem) \<noteq> 0"
    and "table_in mem (unat (e_phoff (parse_ehdr mem))) (e_phnum (parse_ehdr mem))" and "length mem < 2 ^ 63"
  shows "elf_needs_fixup K OPS N fd w = (es_mixed (scan_file mem) \<and> es_dynamic (scan_file mem), w)"
proof -
  let ?e = "parse_ehdr mem"
  have "pread_shim K OPS N fd SIZEOF_EHDR 0 w = (Some (take SIZEOF_EHDR mem), w)"
    using reads_file_pread [OF assms(1), of 0 K OPS SIZEOF_EHDR w] by simp
  moreover have "parse_ehdr (take SIZEOF_EHDR mem) = ?e" by (simp add: parse_ehdr_cong [of "take _ mem" mem])
  moreover have "length (take SIZEOF_EHDR mem) = 64" using assms(5) by (simp add: table_in_def)
  moreover have "scan_phdrs K OPS N fd (e_phoff ?e) [0..<e_phnum ?e]
      \<lparr>es_mixed = False, es_dynamic = False, es_align = 0\<rparr> w = (Some (scan_file mem), w)"
    using scan_phdrs_file [OF assms(1,5,6)] by (simp add: scan_file_def)
  ultimately show ?thesis
    using assms(2-4) by (auto simp: elf_needs_fixup_def elf64_ident_def)
qed


text \<open>A file with two PT_LOAD headers, aligned to 4096 and to 65536.\<close>

definition example_elf :: bytes where
  "example_elf =
     ELFMAG @ [CHR 0x02] @ replicate 27 NUL @ le_bytes 8 64 @ replicate 14 NUL @ le_bytes 2 56 @ le_bytes 2 2
     @ replicate 6 NUL @ le_bytes 4 1 @ replicate 44 NUL @ le_bytes 8 65536 @ le_bytes 4 1 @ replicate 44 NUL @ le_bytes 8 4096"

lemma length_ELFMAG [simp]: "length ELFMAG = 4"
  by (simp add: ELFMAG_def)

lemma example_elf_facts:
  "length example_elf = 176" "take 4 example_elf = ELFMAG" "example_elf ! 4 = CHR 0x02"
  "fld 32 8 example_elf = 64" "fld 54 2 example_elf = 56" "fld 56 2 example_elf = 2"
  by (simp_all add: example_elf_def fld_def le_le_bytes nth_append)


text \<open>
  The bounds check of the tool adds without looking for overflow: a table offset near the
  top of the address space passes it, and the tool then reads outside the mapping.
\<close>

definition example_bad_elf :: bytes where
  "example_bad_elf =
     ELFMAG @ [CHR 0x02] @ replicate 27 NUL @ le_bytes 8 (2 ^ 64 - 56) @ replicate 14 NUL @ le_bytes 2 56 @ le_bytes 2 1
     @ replicate 6 NUL"

lemma elfclamp_out_of_bounds: "elfclamp_mem example_bad_elf = None"
proof -
  have f: "length example_bad_elf = 64" "take 4 example_bad_elf = ELFMAG" "example_bad_elf ! 4 = CHR 0x02"
    "fld 32 8 example_bad_elf = 2 ^ 64 - 56" "fld 54 2 example_bad_elf = 56" "fld 56 2 example_bad_elf = 1"
    by (simp_all add: example_bad_elf_def fld_def le_le_bytes nth_append)
  have "min_align_loop example_bad_elf (2 ^ 64 - 56) 0 0 0 = None"
    by (subst min_align_loop.simps) (simp add: parse_ehdr_def f phdr_at_def)
  then show ?thesis by (simp add: elfclamp_mem_def parse_ehdr_def f)
qed

end
