(* ===== verification/Fcntl.thy ===== *)
theory Fcntl
  imports Handlers
begin

text \<open>
  fcntl.c: POSIX and open-file-description record locks are enforced with \<^verbatim>\<open>flock\<close> on the whole
  file, lock queries probe with a second open file, and F_GETFL and F_SETFL are kept away from
  the O_PATH descriptor behind a synthetic descriptor.
\<close>

section \<open>Requests\<close>

abbreviation (input) F_RDLCK :: int where "F_RDLCK \<equiv> 0"
abbreviation (input) F_WRLCK :: int where "F_WRLCK \<equiv> 1"
abbreviation (input) F_UNLCK :: int where "F_UNLCK \<equiv> 2"

record flock =
  l_type :: int
  l_whence :: int
  l_start :: int
  l_len :: int
  l_pid :: int

text \<open>
  A request is a command with its argument: for the six lock commands a \<^verbatim>\<open>struct flock\<close>, for every
  other command the machine word.
\<close>

datatype lock_cmd = GETLK | SETLK | SETLKW | OFD_GETLK | OFD_SETLK | OFD_SETLKW

datatype fcntl_req = Lock_req lock_cmd flock | Val_req int int

text \<open>The C library's fcntl with a \<^verbatim>\<open>struct flock\<close>, which it may fill in.\<close>

record 'k lock_kernel =
  lk_fcntl :: "int \<Rightarrow> lock_cmd \<Rightarrow> flock \<Rightarrow> 'k \<Rightarrow> (int + int \<times> flock) \<times> 'k"

section \<open>Locks\<close>

definition fcntl_translate_type :: "int \<Rightarrow> int" where
  "fcntl_translate_type t =
     (if t = F_RDLCK then LOCK_SH else if t = F_WRLCK then LOCK_EX else if t = F_UNLCK then LOCK_UN else -1)"

text \<open>The answer to a query: a lock type on the whole file, with an unknown holder.\<close>

definition whole_file :: "int \<Rightarrow> flock \<Rightarrow> flock" where
  "whole_file t fl = fl\<lparr>l_type := t, l_whence := SEEK_SET, l_start := 0, l_len := 0, l_pid := -1\<rparr>"

definition flock_status_query ::
  "'k kernel \<Rightarrow> int \<Rightarrow> flock \<Rightarrow> 'k world \<Rightarrow> (int option \<times> flock) \<times> 'k world" where
  "flock_status_query K fd fl w =
     (let proposed = l_type fl;
          (t, w1) = sys (k_open K (proc_fd_path fd) O_RDONLY) w
      in case t of
           None \<Rightarrow> ((None, fl), w1)
         | Some test_fd \<Rightarrow>
             (let (ex, w2) = sys (k_flock K test_fd (LOCK_EX OR LOCK_NB)) w1;
                  (result, w3) =
                    (if ex = Some 0 then ((Some 0, whole_file F_UNLCK fl), w2)
                     else if errno w2 \<noteq> EWOULDBLOCK then ((None, fl), w2)
                     else
                       (let (sh, v) = sys (k_flock K test_fd (LOCK_SH OR LOCK_NB)) w2
                        in if sh = Some 0
                           then ((Some 0, whole_file (if proposed \<noteq> F_WRLCK then F_UNLCK else F_RDLCK) fl), v)
                           else if errno v \<noteq> EWOULDBLOCK then ((None, fl), v)
                           else ((Some 0, whole_file F_WRLCK fl), v)));
                  (c, w4) = sys (k_close K test_fd) w3
              in (result, w4)))"

definition lock_operation :: "lock_cmd \<Rightarrow> flock \<Rightarrow> int" where
  "lock_operation cmd fl =
     (if (cmd = SETLK \<or> cmd = OFD_SETLK) \<and> l_type fl \<noteq> F_UNLCK
      then fcntl_translate_type (l_type fl) OR LOCK_NB
      else fcntl_translate_type (l_type fl))"

definition fcntl_lock_shim ::
  "'k kernel \<Rightarrow> 'k ops_table \<Rightarrow> 'k lock_kernel \<Rightarrow> int \<Rightarrow> lock_cmd \<Rightarrow> flock \<Rightarrow> 'k world \<Rightarrow> (int option \<times> flock) \<times> 'k world" where
  "fcntl_lock_shim K OPS L fd0 cmd fl w =
     (let hybrid = \<lparr>l_type = l_type fl, l_whence = SEEK_SET, l_start = 0, l_len = 0, l_pid = 0\<rparr>;
          (p, w1) = wslcompat_synth_passthru K OPS fd0 SYNTH_OP_IO w;
          fd = (if p \<ge> 0 then p else fd0)
      in if cmd = GETLK \<or> cmd = OFD_GETLK then flock_status_query K fd fl w1
         else if fcntl_translate_type (l_type fl) < 0 then ((None, fl), w1)
         else
           (let (r, w2) = sys (k_flock K fd (lock_operation cmd fl)) w1
            in if r = None then ((None, fl), w2)
               else (let (h, w3) = sys (lk_fcntl L fd SETLK hybrid) w2 in ((Some 0, fl), w3))))"

section \<open>The shim\<close>

text \<open>The handler's fcntl member, applied to a command and argument.\<close>

definition fcntl_handler :: "int \<Rightarrow> int \<Rightarrow> 'k synth_ops \<Rightarrow> (nat \<Rightarrow> ('k, int) call) option" where
  "fcntl_handler cmd arg t = map_option (\<lambda>f i. f i cmd arg) (op_fcntl t)"

definition fcntl_val :: "'k kernel \<Rightarrow> 'k ops_table \<Rightarrow> int \<Rightarrow> int \<Rightarrow> int \<Rightarrow> ('k, int) call" where
  "fcntl_val K OPS fd cmd arg w =
     (let libc = (\<lambda>fd. sys (k_fcntl K fd cmd arg));
          (d, w1) = (if cmd = F_GETFL \<or> cmd = F_SETFL
                     then synth_dispatch_excl K OPS (fcntl_handler cmd arg) libc fd w else (None, w))
      in case d of
           Some r \<Rightarrow> (r, w1)
         | None \<Rightarrow>
             (let (r, w2) = libc fd w1
              in if r = None \<and> errno w2 = EBADF then
                   (let (d', w3) = synth_dispatch K OPS (fcntl_handler cmd arg) libc fd w2
                    in case d' of Some r' \<Rightarrow> (r', w3) | None \<Rightarrow> (r, w3))
                 else (r, w2)))"

definition fcntl_shim ::
  "'k kernel \<Rightarrow> 'k ops_table \<Rightarrow> 'k lock_kernel \<Rightarrow> int \<Rightarrow> fcntl_req \<Rightarrow> 'k world \<Rightarrow> (int option \<times> fcntl_req) \<times> 'k world" where
  "fcntl_shim K OPS L fd req w =
     (case req of
        Lock_req cmd fl \<Rightarrow>
          (if passthru ''fcntl'' w then
             (let (r, w1) = sys (lk_fcntl L fd cmd fl) w
              in case r of None \<Rightarrow> ((None, req), w1) | Some (v, fl') \<Rightarrow> ((Some v, Lock_req cmd fl'), w1))
           else (let ((r, fl'), w1) = fcntl_lock_shim K OPS L fd cmd fl w in ((r, Lock_req cmd fl'), w1)))
      | Val_req cmd arg \<Rightarrow>
          (let (r, w1) = (if passthru ''fcntl'' w then sys (k_fcntl K fd cmd arg) w else fcntl_val K OPS fd cmd arg w)
           in ((r, req), w1)))"

section \<open>Properties\<close>

text \<open>What is held on the file by others, and what a query for a lock of type \<open>t\<close> must report.\<close>

datatype held = Unlocked | Read_locked | Write_locked

definition held_type :: "held \<Rightarrow> int" where
  "held_type h = (case h of Unlocked \<Rightarrow> F_UNLCK | Read_locked \<Rightarrow> F_RDLCK | Write_locked \<Rightarrow> F_WRLCK)"

definition conflicts :: "int \<Rightarrow> held \<Rightarrow> bool" where
  "conflicts t h \<longleftrightarrow> h = Write_locked \<or> h = Read_locked \<and> t = F_WRLCK"

text \<open>\<^verbatim>\<open>flock(2)\<close> on an open file of its own: granted unless it conflicts, else EWOULDBLOCK.\<close>

definition flock_obeys :: "'k kernel \<Rightarrow> int \<Rightarrow> held \<Rightarrow> 'k \<Rightarrow> bool" where
  "flock_obeys K fd h k \<longleftrightarrow>
     k_flock K fd (LOCK_EX OR LOCK_NB) k = (if h = Unlocked then Inr 0 else Inl EWOULDBLOCK, k)
     \<and> k_flock K fd (LOCK_SH OR LOCK_NB) k = (if h = Write_locked then Inl EWOULDBLOCK else Inr 0, k)"


text \<open>A kernel in which another process holds a shared lock on every file.\<close>

definition example_lock :: "unit kernel" where
  "example_lock = null_kernel
     \<lparr>k_open := (\<lambda>_ _ k. (Inr 9, k)), k_close := (\<lambda>_ k. (Inr 0, k)),
      k_flock := (\<lambda>_ lop k. (if lop = 6 then Inl EWOULDBLOCK else Inr 0, k))\<rparr>"


text \<open>
  C27: Setting a lock is exactly one \<^verbatim>\<open>flock\<close> on the descriptor behind the caller's: shared for a
  read lock, exclusive for a write lock, unlock for an unlock, not waiting only for the two
  commands that may not wait.  The call fails exactly when the type is unknown or \<^verbatim>\<open>flock\<close> refuses,
  then with the errno of \<^verbatim>\<open>flock\<close>; an unknown type makes no system call and sets no errno.  The
  best-effort POSIX mirror never decides the result.
\<close>

theorem setlk_is_flock:
  assumes "cmd \<notin> {GETLK, OFD_GETLK}" and "wslcompat_synth_passthru K OPS fd0 SYNTH_OP_IO w = (p, w1)"
    and "fd = (if p \<ge> 0 then p else fd0)"
    and "lop = (if l_type fl = F_UNLCK then LOCK_UN
           else (if l_type fl = F_RDLCK then LOCK_SH else LOCK_EX) OR (if cmd \<in> {SETLK, OFD_SETLK} then LOCK_NB else 0))"
    and "fcntl_lock_shim K OPS L fd0 cmd fl w = ((r, fl'), w')"
  shows "r = (if l_type fl \<in> {F_RDLCK, F_WRLCK, F_UNLCK} \<and> (\<exists>v. fst (k_flock K fd lop (kst w1)) = Inr v)
       then Some 0 else None)
    \<and> (\<forall>e. l_type fl \<in> {F_RDLCK, F_WRLCK, F_UNLCK} \<and> fst (k_flock K fd lop (kst w1)) = Inl e \<longrightarrow> errno w' = e)
    \<and> (l_type fl \<notin> {F_RDLCK, F_WRLCK, F_UNLCK} \<longrightarrow> w' = w1)
    \<and> fl' = fl"
proof -
  have g: "cmd \<noteq> GETLK" "cmd \<noteq> OFD_GETLK" using assms(1) by auto
  show ?thesis
  proof (cases "l_type fl \<in> {F_RDLCK, F_WRLCK, F_UNLCK}")
    case False
    then have "fcntl_translate_type (l_type fl) < 0" by (auto simp: fcntl_translate_type_def)
    with g assms(2,5) False show ?thesis by (auto simp: fcntl_lock_shim_def Let_def)
  next
    case t: True
    then have nn: "\<not> fcntl_translate_type (l_type fl) < 0" and op: "lock_operation cmd fl = lop"
      using g assms(4) by (auto simp: fcntl_translate_type_def lock_operation_def)
    define hybrid where "hybrid = \<lparr>l_type = l_type fl, l_whence = SEEK_SET, l_start = 0, l_len = 0, l_pid = 0\<rparr>"
    have eq: "fcntl_lock_shim K OPS L fd0 cmd fl w =
        (case sys (k_flock K fd lop) w1 of
           (None, w2) \<Rightarrow> ((None, fl), w2)
         | (Some _, w2) \<Rightarrow> ((Some 0, fl), snd (sys (lk_fcntl L fd SETLK hybrid) w2)))"
      unfolding fcntl_lock_shim_def assms(2,3) using g nn op
      by (cases "0 \<le> p") (simp_all add: hybrid_def Let_def split: prod.split option.split)
    show ?thesis
      by (cases rule: sys_cases [of "k_flock K fd lop" w1]) (use t eq assms(5) in auto)
  qed
qed

theorem setlk_is_flock_witness:
  "fst (fst (fcntl_lock_shim example_lock (\<lambda>_. no_ops) \<lparr>lk_fcntl = (\<lambda>_ _ fl k. (Inl EINVAL, k))\<rparr> 4 SETLK
      \<lparr>l_type = F_WRLCK, l_whence = 0, l_start = 0, l_len = 0, l_pid = 0\<rparr> (static_world ()))) = None"
proof -
  have "wslcompat_synth_passthru example_lock (\<lambda>_. no_ops) 4 SYNTH_OP_IO (static_world ())
      = (-1, (static_world ())\<lparr>errno := ENOSYS\<rparr>)"
    by (simp add: wslcompat_synth_passthru_def wslcompat_synth_pin_fd_def sys_def example_lock_def null_kernel_def)
  from setlk_is_flock [OF _ this refl refl, of SETLK "\<lparr>lk_fcntl = (\<lambda>_ _ fl k. (Inl EINVAL, k))\<rparr>"
      "\<lparr>l_type = F_WRLCK, l_whence = 0, l_start = 0, l_len = 0, l_pid = 0\<rparr>"]
  show ?thesis by (auto simp: example_lock_def prod_eq_iff)
qed

text \<open>
  C25: F_GETFL and F_SETFL never reach the O_PATH descriptor behind a synthetic one, which
  WSL1 would turn into an ordinary descriptor.  On a wrapped terminal the handler applies them to the
  real terminal; on a synthetic /proc file they fail with EOPNOTSUPP and change nothing else.
\<close>

theorem setfl_keeps_off:
  assumes "cmd \<in> {F_GETFL, F_SETFL}" and st: "k_fstat K fd (kst w) = (Inr st, kst w)" and i: "synth_slot w st = Some i"
  shows "fcntl_val K (wsl_ops K V N T) fd cmd arg w =
     (if se_ops (synth_table w ! i) = Tty_ops
      then (let (r, v) = tty_fcntl K i cmd arg (pinned i w) in (r, v\<lparr>synth_table := synth_table w\<rparr>))
      else (None, w\<lparr>errno := EOPNOTSUPP\<rparr>))"
proof (cases "se_ops (synth_table w ! i) = Tty_ops")
  case True
  obtain r v where r: "tty_fcntl K i cmd arg (pinned i w) = (r, v)" by fastforce
  have "synth_dispatch K (wsl_ops K V N T) (fcntl_handler cmd arg) (\<lambda>fd. sys (k_fcntl K fd cmd arg)) fd w
      = (Some r, v\<lparr>synth_table := synth_table w\<rparr>)"
    by (rule dispatch_handler [where f = "\<lambda>i. tty_fcntl K i cmd arg", OF st i])
      (use r tty_io_keeps(3) [of "pinned i w" K i cmd arg] True in \<open>simp_all add: fcntl_handler_def wsl_ops_def tty_ops_def\<close>)
  with True r assms(1) show ?thesis
    by (auto simp: fcntl_val_def synth_dispatch_excl_def Let_def)
next
  case False
  then have "op_fcntl (wsl_ops K V N T (se_ops (synth_table w ! i))) = None"
    "op_passthru (wsl_ops K V N T (se_ops (synth_table w ! i))) = None"
    by (auto simp: wsl_ops_def ops_simps split: ops_id.splits)
  then have "synth_dispatch K (wsl_ops K V N T) (fcntl_handler cmd arg) (\<lambda>fd. sys (k_fcntl K fd cmd arg)) fd w = (None, w)"
    by (intro dispatch_neither [OF st i]) (simp_all add: fcntl_handler_def)
  moreover have "wslcompat_synth_unpin K (wsl_ops K V N T) i ((pinned i w)\<lparr>errno := EOPNOTSUPP\<rparr>) = w\<lparr>errno := EOPNOTSUPP\<rparr>"
    by (subst unpin_slot [OF i]) (simp_all add: upd_entry_def)
  ultimately show ?thesis using False assms(1)
    by (auto simp: fcntl_val_def synth_dispatch_excl_def pin_fd_slot [OF st] i Let_def)
qed

theorem setfl_keeps_off_witness:
  "fcntl_val example_synth (wsl_ops example_synth null_vm null_io example_tty) 4 F_SETFL O_NONBLOCK example_synth_world
    = (None, example_synth_world\<lparr>errno := EOPNOTSUPP\<rparr>)"
proof -
  have "synth_slot example_synth_world \<lparr>st_dev = 7, st_ino = 2, st_mode = 0\<rparr> = Some 0"
    by (simp add: synth_slot_def example_synth_world_def same_inode_def)
  from setfl_keeps_off [OF _ _ this, of F_SETFL example_synth 4 null_vm null_io example_tty O_NONBLOCK]
  show ?thesis by (simp add: example_synth_def example_stat_def example_synth_world_def zero_entry_def)
qed

end
