(* ===== verification/Exec.thy ===== *)
theory Exec
  imports Preexec Open Elf Fcntl
begin

text \<open>
  execve.c and execveat.c: starting programs.  Every wrapper saves the synthetic descriptors
  before the attempt and restores them after a failed one, or in the parent.  \<^verbatim>\<open>execve\<close>
  itself also starts an ELF file the WSL1 loader refuses through its interpreter.  A
  successful exec does not return; here its result is the image that was started.
\<close>

section \<open>Images\<close>

type_synonym argv = "cstring list option"

text \<open>The calls of the C library that replace the process, with their arguments.\<close>

datatype exec_call =
    Execve cstring argv argv
  | Fexecve int argv argv
  | Execv cstring argv
  | Execvp cstring argv
  | Execvpe cstring argv argv
  | Execveat int "cstring option" argv argv int

datatype 'k exec_result = Replaced exec_call 'k | Exec_failed "'k world"

record spawn_args =
  sp_path :: cstring
  sp_file_actions :: "nat option"
  sp_attr :: "nat option"
  sp_argv :: argv
  sp_envp :: argv

record 'k exec_kernel =
  n_exec :: "exec_call \<Rightarrow> 'k \<Rightarrow> (int + unit) \<times> 'k"
  n_fstatat :: "int \<Rightarrow> cstring \<Rightarrow> int \<Rightarrow> 'k \<Rightarrow> (int + stat) \<times> 'k"
  n_system :: "cstring option \<Rightarrow> 'k \<Rightarrow> (int + int) \<times> 'k"
  n_popen :: "cstring \<Rightarrow> cstring \<Rightarrow> 'k \<Rightarrow> (int + nat) \<times> 'k"
  n_posix_spawn :: "spawn_args \<Rightarrow> 'k \<Rightarrow> (int \<times> int option) \<times> 'k"
  n_posix_spawnp :: "spawn_args \<Rightarrow> 'k \<Rightarrow> (int \<times> int option) \<times> 'k"
  gnu_get_libc_version :: cstring

definition exec_next :: "'k exec_kernel \<Rightarrow> exec_call \<Rightarrow> 'k world \<Rightarrow> 'k exec_result" where
  "exec_next E c w =
     (case n_exec E c (kst w) of
        (Inr _, k) \<Rightarrow> Replaced c k
      | (Inl e, k) \<Rightarrow> Exec_failed (w\<lparr>kst := k, errno := e\<rparr>))"

text \<open>\<^verbatim>\<open>EXEC_REPLACE_SHIM\<close>.\<close>

definition exec_replace_shim ::
  "'k kernel \<Rightarrow> 'k ops_table \<Rightarrow> 'k exec_kernel \<Rightarrow> cstring \<Rightarrow> exec_call \<Rightarrow> 'k world \<Rightarrow> 'k exec_result" where
  "exec_replace_shim K OPS E name c w =
     (if passthru name w then exec_next E c w
      else
        (let (px, w1) = wslcompat_synth_preexec_save K OPS [] w
         in case exec_next E c w1 of
              Replaced c k \<Rightarrow> Replaced c k
            | Exec_failed w2 \<Rightarrow>
                Exec_failed (restore_errno w2 (snd (wslcompat_synth_preexec_restore K OPS px w2)))))"

section \<open>The version test\<close>

text \<open>
  \<^verbatim>\<open>strverscmp\<close> of the C library: the class of a character (2 for \<^verbatim>\<open>0\<close>, 1 for another digit), the
  state kept while the strings agree, and the verdict at the first difference.
\<close>

definition vers_class :: "char \<Rightarrow> nat" where
  "vers_class c = (if c = CHR ''0'' then 2 else if is_digit c then 1 else 0)"

datatype vers_state = S_N | S_I | S_F | S_Z

definition vers_next :: "vers_state \<Rightarrow> nat \<Rightarrow> vers_state" where
  "vers_next st cl =
     (if cl = 0 then S_N
      else case st of
             S_N \<Rightarrow> (if cl = 1 then S_I else S_Z)
           | S_I \<Rightarrow> S_I
           | S_F \<Rightarrow> S_F
           | S_Z \<Rightarrow> (if cl = 1 then S_F else S_Z))"

fun digits_longer :: "cstring \<Rightarrow> cstring \<Rightarrow> int \<Rightarrow> int" where
  "digits_longer (c # p) q diff =
     (if is_digit c
      then (case q of [] \<Rightarrow> 1 | d # q' \<Rightarrow> if is_digit d then digits_longer p q' diff else 1)
      else (case q of [] \<Rightarrow> diff | d # _ \<Rightarrow> if is_digit d then -1 else diff))"
| "digits_longer [] q diff = (case q of [] \<Rightarrow> diff | d # _ \<Rightarrow> if is_digit d then -1 else diff)"

definition char_diff :: "char \<Rightarrow> char \<Rightarrow> int" where
  "char_diff c d = int (of_char c) - int (of_char d)"

text \<open>The verdict in a state, at the first pair of different characters and the rests after them.\<close>

definition vers_verdict :: "vers_state \<Rightarrow> char \<Rightarrow> char \<Rightarrow> cstring \<Rightarrow> cstring \<Rightarrow> int" where
  "vers_verdict st c d p q =
     (let x = vers_class c; y = vers_class d; diff = char_diff c d
      in case st of
           S_N \<Rightarrow> (if x = 1 \<and> y = 1 then digits_longer p q diff else diff)
         | S_I \<Rightarrow> (if x = 0 \<and> y = 0 then diff else if x = 0 then -1 else if y = 0 then 1 else digits_longer p q diff)
         | S_F \<Rightarrow> diff
         | S_Z \<Rightarrow> (if x = 0 \<and> y = 0 then diff else if x = 0 then 1 else if y = 0 then -1 else diff))"

fun strverscmp_from :: "vers_state \<Rightarrow> cstring \<Rightarrow> cstring \<Rightarrow> int" where
  "strverscmp_from st [] [] = 0"
| "strverscmp_from st (c # p) [] = vers_verdict st c NUL p []"
| "strverscmp_from st [] (d # q) = vers_verdict st NUL d [] q"
| "strverscmp_from st (c # p) (d # q) =
     (if c = d then strverscmp_from (vers_next st (vers_class c)) p q else vers_verdict st c d p q)"

definition strverscmp :: "cstring \<Rightarrow> cstring \<Rightarrow> int" where
  "strverscmp a b = strverscmp_from S_N a b"

section \<open>execve\<close>

abbreviation (input) MAX_NEW_ARGV :: nat where "MAX_NEW_ARGV \<equiv> 1024"
abbreviation (input) S_ISUID_ISGID :: int where "S_ISUID_ISGID \<equiv> 0xC00"

definition PTINTERP_DEFAULT :: cstring where
  "PTINTERP_DEFAULT = ''/lib64/ld-linux-x86-64.so.2''"

definition ptinterp :: "'k world \<Rightarrow> cstring" where
  "ptinterp w = (case wslcompat_tunable_str (options w) ''ptinterp'' (Some PTINTERP_DEFAULT) of
                   Some s \<Rightarrow> s | None \<Rightarrow> PTINTERP_DEFAULT)"

text \<open>The arguments before the copied ones.\<close>

definition argv_prefix :: "'k exec_kernel \<Rightarrow> cstring \<Rightarrow> cstring list \<Rightarrow> 'k world \<Rightarrow> cstring list" where
  "argv_prefix E path args w =
     [ptinterp w]
     @ (if strverscmp (gnu_get_libc_version E) ''2.33'' \<ge> 0 \<and> wslcompat_tunable_bool (options w) ''argv0'' True
        then [''--argv0'', (case args of [] \<Rightarrow> path | a # _ \<Rightarrow> a)] else [])
     @ [path]"

text \<open>
  The copying loop; \<open>args\<close> is \<^verbatim>\<open>argv\<close> from index \<^verbatim>\<open>i\<close> on, \<open>acc\<close> the new vector up to \<^verbatim>\<open>pos\<close>, which
  also counts the null pointer stored at the end.  \<open>None\<close> is E2BIG.
\<close>

fun copy_argv :: "nat \<Rightarrow> cstring list \<Rightarrow> cstring list \<Rightarrow> cstring list option" where
  "copy_argv pos acc [] = Some acc"
| "copy_argv pos acc [_] = (if pos + 1 \<ge> MAX_NEW_ARGV then None else Some acc)"
| "copy_argv pos acc (_ # a # as) = (if pos + 1 \<ge> MAX_NEW_ARGV then None else copy_argv (pos + 1) (acc @ [a]) (a # as))"

text \<open>\<^verbatim>\<open>goto fail\<close>.\<close>

definition exec_fail ::
  "'k kernel \<Rightarrow> 'k ops_table \<Rightarrow> synth_preexec_state \<Rightarrow> int option \<Rightarrow> int \<Rightarrow> 'k world \<Rightarrow> 'k exec_result" where
  "exec_fail K OPS px fd saved_errno w =
     (let w1 = (case fd of None \<Rightarrow> w | Some f \<Rightarrow> snd (close_shim K OPS f w))
      in Exec_failed ((snd (wslcompat_synth_preexec_restore K OPS px w1))\<lparr>errno := saved_errno\<rparr>))"

text \<open>What follows ENOEXEC, on the file opened as \<open>fd\<close>.\<close>

definition exec_interp ::
  "'k kernel \<Rightarrow> 'k ops_table \<Rightarrow> 'k libc_io \<Rightarrow> 'k exec_kernel \<Rightarrow> synth_preexec_state \<Rightarrow> cstring \<Rightarrow> argv \<Rightarrow> argv \<Rightarrow> int
   \<Rightarrow> 'k world \<Rightarrow> 'k exec_result" where
  "exec_interp K OPS N E px path argv envp fd w =
     (let (st, w1) = fstat_shim K OPS fd w
      in if (case st of None \<Rightarrow> True | Some s \<Rightarrow> has_flag (st_mode s) S_ISUID_ISGID)
         then exec_fail K OPS px (Some fd) ENOEXEC w1
         else
           (let (fix_it, w2) = elf_needs_fixup K OPS N fd w1
            in if \<not> fix_it then exec_fail K OPS px (Some fd) ENOEXEC w2
               else
                 (let args = (case argv of None \<Rightarrow> [] | Some a \<Rightarrow> a);
                      pre = argv_prefix E path args w2
                  in case copy_argv (length pre) pre args of
                       None \<Rightarrow> exec_fail K OPS px (Some fd) E2BIG w2
                     | Some new_argv \<Rightarrow>
                         (case exec_next E (Execve (ptinterp w2) (Some new_argv) envp) w2 of
                            Replaced c k \<Rightarrow> Replaced c k
                          | Exec_failed w3 \<Rightarrow> exec_fail K OPS px (Some fd) (errno w3) w3))))"

definition execve_shim ::
  "'k kernel \<Rightarrow> 'k ops_table \<Rightarrow> 'k libc_io \<Rightarrow> ('k \<Rightarrow> int \<times> 'k) \<Rightarrow> 'k exec_kernel \<Rightarrow> cstring \<Rightarrow> argv \<Rightarrow> argv
   \<Rightarrow> 'k world \<Rightarrow> 'k exec_result" where
  "execve_shim K OPS N null_open E path argv envp w =
     (if passthru ''execve'' w then exec_next E (Execve path argv envp) w
      else
        (let (px, w1) = wslcompat_synth_preexec_save K OPS [] w
         in case exec_next E (Execve path argv envp) w1 of
              Replaced c k \<Rightarrow> Replaced c k
            | Exec_failed w2 \<Rightarrow>
                (if errno w2 \<noteq> ENOEXEC then exec_fail K OPS px None (errno w2) w2
                 else case open_shim K OPS null_open (Some path) (O_RDONLY OR O_CLOEXEC) 0 w2 of
                        (None, w3) \<Rightarrow> exec_fail K OPS px None ENOEXEC w3
                      | (Some fd, w3) \<Rightarrow> exec_interp K OPS N E px path argv envp fd w3)))"

section \<open>The exec family\<close>

definition fexecve_shim where
  "fexecve_shim K OPS E fd argv envp = exec_replace_shim K OPS E ''fexecve'' (Fexecve fd argv envp)"

definition execv_shim where
  "execv_shim K OPS E path argv = exec_replace_shim K OPS E ''execv'' (Execv path argv)"

definition execvp_shim where
  "execvp_shim K OPS E file argv = exec_replace_shim K OPS E ''execvp'' (Execvp file argv)"

definition execvpe_shim where
  "execvpe_shim K OPS E file argv envp = exec_replace_shim K OPS E ''execvpe'' (Execvpe file argv envp)"

text \<open>
  The variable arguments: strings, null pointers, and the environment vector of \<^verbatim>\<open>execle\<close>.
  Reading past them, or reading the vector as a string, is undefined (\<open>None\<close>).
\<close>

datatype va = Va_str cstring | Va_null | Va_env argv

fun va_collect :: "nat \<Rightarrow> va list \<Rightarrow> (cstring list \<times> va list) option" where
  "va_collect 0 ap = Some ([], ap)"
| "va_collect (Suc n) (Va_null # ap) = Some ([], ap)"
| "va_collect (Suc n) (Va_str s # ap) = map_option (\<lambda>(xs, r). (s # xs, r)) (va_collect n ap)"
| "va_collect (Suc n) (Va_env _ # ap) = None"
| "va_collect (Suc n) [] = None"

text \<open>The vector it fills, up to its null pointer, and the arguments left unread.\<close>

definition va_collect_argv :: "va list \<Rightarrow> cstring \<Rightarrow> nat \<Rightarrow> (cstring list \<times> va list) option" where
  "va_collect_argv ap arg0 cap = map_option (\<lambda>(xs, r). (arg0 # xs, r)) (va_collect (cap - 2) ap)"

definition execl_shim ::
  "'k kernel \<Rightarrow> 'k ops_table \<Rightarrow> 'k exec_kernel \<Rightarrow> cstring \<Rightarrow> cstring \<Rightarrow> va list \<Rightarrow> 'k world \<Rightarrow> 'k exec_result option" where
  "execl_shim K OPS E path arg0 ap w =
     map_option (\<lambda>(argv, _). execv_shim K OPS E path (Some argv) w) (va_collect_argv ap arg0 MAX_NEW_ARGV)"

definition execlp_shim ::
  "'k kernel \<Rightarrow> 'k ops_table \<Rightarrow> 'k exec_kernel \<Rightarrow> cstring \<Rightarrow> cstring \<Rightarrow> va list \<Rightarrow> 'k world \<Rightarrow> 'k exec_result option" where
  "execlp_shim K OPS E file arg0 ap w =
     map_option (\<lambda>(argv, _). execvp_shim K OPS E file (Some argv) w) (va_collect_argv ap arg0 MAX_NEW_ARGV)"

text \<open>\<^verbatim>\<open>va_arg(ap, char **)\<close>.\<close>

definition va_env :: "va list \<Rightarrow> argv option" where
  "va_env ap = (case ap of Va_env e # _ \<Rightarrow> Some e | Va_null # _ \<Rightarrow> Some None | _ \<Rightarrow> None)"

definition execle_shim ::
  "'k kernel \<Rightarrow> 'k ops_table \<Rightarrow> 'k libc_io \<Rightarrow> ('k \<Rightarrow> int \<times> 'k) \<Rightarrow> 'k exec_kernel \<Rightarrow> cstring \<Rightarrow> cstring \<Rightarrow> va list
   \<Rightarrow> 'k world \<Rightarrow> 'k exec_result option" where
  "execle_shim K OPS N null_open E path arg0 ap w =
     (case va_collect_argv ap arg0 MAX_NEW_ARGV of
        None \<Rightarrow> None
      | Some (argv, rest) \<Rightarrow>
          map_option (\<lambda>envp. execve_shim K OPS N null_open E path (Some argv) envp w) (va_env rest))"

section \<open>Spawning\<close>

text \<open>Save, run the call, restore, the errno of the call kept: \<^verbatim>\<open>system\<close> and \<^verbatim>\<open>popen\<close>.\<close>

definition around_exec :: "'k kernel \<Rightarrow> 'k ops_table \<Rightarrow> ('k world \<Rightarrow> 'r \<times> 'k world) \<Rightarrow> bool \<Rightarrow> 'k world \<Rightarrow> 'r \<times> 'k world" where
  "around_exec K OPS call keep_errno w =
     (let (px, w1) = wslcompat_synth_preexec_save K OPS [] w;
          (r, w2) = call w1;
          w3 = snd (wslcompat_synth_preexec_restore K OPS px w2)
      in (r, if keep_errno then restore_errno w2 w3 else w3))"

definition system_shim :: "'k kernel \<Rightarrow> 'k ops_table \<Rightarrow> 'k exec_kernel \<Rightarrow> cstring option \<Rightarrow> ('k, int) call" where
  "system_shim K OPS E cmd w =
     (if passthru ''system'' w then sys (n_system E cmd) w else around_exec K OPS (sys (n_system E cmd)) True w)"

definition popen_shim :: "'k kernel \<Rightarrow> 'k ops_table \<Rightarrow> 'k exec_kernel \<Rightarrow> cstring \<Rightarrow> cstring \<Rightarrow> ('k, nat) call" where
  "popen_shim K OPS E cmd mode w =
     (if passthru ''popen'' w then sys (n_popen E cmd mode) w else around_exec K OPS (sys (n_popen E cmd mode)) True w)"

text \<open>\<^verbatim>\<open>posix_spawn\<close> returns an error number and does not use errno.\<close>

definition spawn_next :: "('k \<Rightarrow> (int \<times> int option) \<times> 'k) \<Rightarrow> 'k world \<Rightarrow> (int \<times> int option) \<times> 'k world" where
  "spawn_next f w = (let (r, k) = f (kst w) in (r, w\<lparr>kst := k\<rparr>))"

definition posix_spawn_shim ::
  "'k kernel \<Rightarrow> 'k ops_table \<Rightarrow> 'k exec_kernel \<Rightarrow> spawn_args \<Rightarrow> 'k world \<Rightarrow> (int \<times> int option) \<times> 'k world" where
  "posix_spawn_shim K OPS E a w =
     (if passthru ''posix_spawn'' w then spawn_next (n_posix_spawn E a) w
      else around_exec K OPS (spawn_next (n_posix_spawn E a)) False w)"

definition posix_spawnp_shim ::
  "'k kernel \<Rightarrow> 'k ops_table \<Rightarrow> 'k exec_kernel \<Rightarrow> spawn_args \<Rightarrow> 'k world \<Rightarrow> (int \<times> int option) \<times> 'k world" where
  "posix_spawnp_shim K OPS E a w =
     (if passthru ''posix_spawnp'' w then spawn_next (n_posix_spawnp E a) w
      else around_exec K OPS (spawn_next (n_posix_spawnp E a)) False w)"

section \<open>execveat\<close>

abbreviation (input) AT_EMPTY_PATH :: int where "AT_EMPTY_PATH \<equiv> 0x1000"
abbreviation (input) AT_SYMLINK_NOFOLLOW :: int where "AT_SYMLINK_NOFOLLOW \<equiv> 0x100"
abbreviation (input) EXEC_PATH_MAX :: nat where "EXEC_PATH_MAX \<equiv> 4096"

text \<open>The path handed to \<^verbatim>\<open>execve\<close>, before the length check.\<close>

definition execveat_path :: "int \<Rightarrow> cstring \<Rightarrow> cstring" where
  "execveat_path dirfd p =
     (if p = [] then ''/proc/self/fd/'' @ show_int dirfd
      else if hd p = CHR ''/'' \<or> dirfd = AT_FDCWD then p
      else ''/proc/self/fd/'' @ show_int dirfd @ ''/'' @ p)"

definition exec_error :: "int \<Rightarrow> 'k world \<Rightarrow> 'k exec_result" where
  "exec_error e w = Exec_failed (w\<lparr>errno := e\<rparr>)"

definition execveat_shim ::
  "'k kernel \<Rightarrow> 'k ops_table \<Rightarrow> 'k libc_io \<Rightarrow> 'k lock_kernel \<Rightarrow> ('k \<Rightarrow> int \<times> 'k) \<Rightarrow> 'k exec_kernel \<Rightarrow> int
   \<Rightarrow> cstring option \<Rightarrow> argv \<Rightarrow> argv \<Rightarrow> int \<Rightarrow> 'k world \<Rightarrow> 'k exec_result" where
  "execveat_shim K OPS N L null_open E dirfd pathname argv envp flags w =
     (if passthru ''execveat'' w then exec_next E (Execveat dirfd pathname argv envp flags) w
      else if flags AND NOT (AT_EMPTY_PATH OR AT_SYMLINK_NOFOLLOW) \<noteq> 0 then exec_error EINVAL w
      else case pathname of
             None \<Rightarrow> exec_error EFAULT w
           | Some p \<Rightarrow>
               (if p = [] \<and> \<not> has_flag flags AT_EMPTY_PATH then exec_error ENOENT w
                else
                  (let ((r, _), w1) = (if dirfd \<noteq> AT_FDCWD \<and> (p = [] \<or> hd p \<noteq> CHR ''/'')
                                       then fcntl_shim K OPS L dirfd (Val_req F_GETFD 0) w
                                       else ((Some 0, Val_req F_GETFD 0), w))
                   in if r = None then Exec_failed w1
                      else
                        (let (st, w2) = (if has_flag flags AT_SYMLINK_NOFOLLOW
                                         then sys (n_fstatat E dirfd p AT_SYMLINK_NOFOLLOW) w1 else (None, w1))
                         in if (case st of None \<Rightarrow> False | Some s \<Rightarrow> st_mode s AND 0xF000 = 0xA000)
                            then exec_error ELOOP w2
                            else if length (execveat_path dirfd p) \<ge> EXEC_PATH_MAX then exec_error ENAMETOOLONG w2
                            else execve_shim K OPS N null_open E (execveat_path dirfd p) argv envp w2))))"

section \<open>What is started\<close>

lemma copy_argv_spec:
  "copy_argv pos acc args
     = (if args \<noteq> [] \<and> pos + length args \<ge> MAX_NEW_ARGV then None else Some (acc @ tl args))"
  by (induction pos acc args rule: copy_argv.induct) auto

lemma argv_prefix_length: "length (argv_prefix E path args w) \<le> 4"
  by (simp add: argv_prefix_def)

lemma exec_next_Replaced: "exec_next E c w = Replaced c' k \<Longrightarrow> c' = c"
  by (auto simp: exec_next_def split: prod.splits sum.splits)

lemma exec_fail_not_Replaced [simp]: "exec_fail K OPS px fd e w \<noteq> Replaced c k"
  by (simp add: exec_fail_def Let_def)

lemma exec_interp_Replaced:
  assumes "exec_interp K OPS N E px path argv envp fd w = Replaced c k"
  obtains st w1 w2 new_argv where "fstat_shim K OPS fd w = (Some st, w1)"
    and "st_mode st AND S_ISUID_ISGID = 0" and "elf_needs_fixup K OPS N fd w1 = (True, w2)"
    and "copy_argv (length (argv_prefix E path (case argv of None \<Rightarrow> [] | Some a \<Rightarrow> a) w2))
           (argv_prefix E path (case argv of None \<Rightarrow> [] | Some a \<Rightarrow> a) w2) (case argv of None \<Rightarrow> [] | Some a \<Rightarrow> a) = Some new_argv"
    and "c = Execve (ptinterp w2) (Some new_argv) envp"
proof -
  obtain st w1 where 1: "fstat_shim K OPS fd w = (st, w1)" by fastforce
  obtain b w2 where 2: "elf_needs_fixup K OPS N fd w1 = (b, w2)" by fastforce
  show ?thesis
    using assms that 1 2
    by (cases st; cases b)
      (auto simp: exec_interp_def has_flag_def Let_def dest: exec_next_Replaced
        split: if_splits option.splits exec_result.splits)
qed

text \<open>
  C5: What \<^verbatim>\<open>execve\<close> starts: the program asked for with the arguments given, or, only after
  the kernel has refused it with ENOEXEC, and only for a file that is neither set-user-ID nor
  set-group-ID and whose headers need the fix, the interpreter, with the program's path, its
  arguments from the second on unchanged and in order after a prefix of at most four, the
  environment unchanged, and a vector that fits the 1024 entries.
\<close>

theorem execve_image:
  assumes "execve_shim K OPS N null_open E path argv envp w = Replaced c k"
  shows "c = Execve path argv envp
    \<or> (\<exists>v fd v0 st v1 v2 args.
         exec_next E (Execve path argv envp) (snd (wslcompat_synth_preexec_save K OPS [] w)) = Exec_failed v
         \<and> errno v = ENOEXEC \<and> open_shim K OPS null_open (Some path) (O_RDONLY OR O_CLOEXEC) 0 v = (Some fd, v0)
         \<and> fstat_shim K OPS fd v0 = (Some st, v1) \<and> st_mode st AND S_ISUID_ISGID = 0
         \<and> elf_needs_fixup K OPS N fd v1 = (True, v2)
         \<and> args = (case argv of None \<Rightarrow> [] | Some a \<Rightarrow> a)
         \<and> c = Execve (ptinterp v2) (Some (argv_prefix E path args v2 @ tl args)) envp
         \<and> length (argv_prefix E path args v2 @ tl args) < MAX_NEW_ARGV)"
proof (cases "passthru ''execve'' w")
  case True
  with assms show ?thesis by (auto simp: execve_shim_def dest: exec_next_Replaced)
next
  case False
  obtain px w1 where s: "wslcompat_synth_preexec_save K OPS [] w = (px, w1)" by fastforce
  let ?args = "case argv of None \<Rightarrow> [] | Some a \<Rightarrow> a"
  show ?thesis
  proof (cases "exec_next E (Execve path argv envp) w1")
    case (Replaced c' k')
    with assms False s show ?thesis by (auto simp: execve_shim_def dest: exec_next_Replaced)
  next
    case (Exec_failed w2)
    have "errno w2 = ENOEXEC" and "\<exists>fd v0. open_shim K OPS null_open (Some path) (O_RDONLY OR O_CLOEXEC) 0 w2 = (Some fd, v0)
        \<and> exec_interp K OPS N E px path argv envp fd v0 = Replaced c k"
      using assms False s Exec_failed by (auto simp: execve_shim_def split: if_splits prod.splits option.splits)
    then obtain fd v0 where op: "open_shim K OPS null_open (Some path) (O_RDONLY OR O_CLOEXEC) 0 w2 = (Some fd, v0)"
      and "exec_interp K OPS N E px path argv envp fd v0 = Replaced c k" by blast
    from this(2) obtain st v1 v2 new where i: "fstat_shim K OPS fd v0 = (Some st, v1)" "st_mode st AND S_ISUID_ISGID = 0"
      "elf_needs_fixup K OPS N fd v1 = (True, v2)"
      "copy_argv (length (argv_prefix E path ?args v2)) (argv_prefix E path ?args v2) ?args = Some new"
      "c = Execve (ptinterp v2) (Some new) envp"
      by (rule exec_interp_Replaced)
    have new: "new = argv_prefix E path ?args v2 @ tl ?args"
      "\<not> (?args \<noteq> [] \<and> length (argv_prefix E path ?args v2) + length ?args \<ge> MAX_NEW_ARGV)"
      using i(4) by (auto simp only: copy_argv_spec split: if_splits)
    have "length (argv_prefix E path ?args v2 @ tl ?args) < MAX_NEW_ARGV"
      using new(2) argv_prefix_length [of E path ?args v2] by (cases ?args) auto
    moreover have "exec_next E (Execve path argv envp) (snd (wslcompat_synth_preexec_save K OPS [] w)) = Exec_failed w2"
      using s Exec_failed by simp
    ultimately show ?thesis using op i new(1) \<open>errno w2 = ENOEXEC\<close> by blast
  qed
qed

lemma open_plain:
  assumes "p \<noteq> ''/proc/sys/vm/mmap_min_addr''" and "\<not> mem_path p"
  shows "open_shim K OPS null_open (Some p) (O_RDONLY OR O_CLOEXEC) 0 w = sys (k_openat K AT_FDCWD p (O_RDONLY OR O_CLOEXEC) 0) w"
proof -
  have "match_redirects_table K OPS p (O_RDONLY OR O_CLOEXEC) w = (None, w)"
    using assms by (simp add: match_redirects_table_def redirect_loop_redirects)
  then show ?thesis
    by (simp add: open_shim_def openat_shim_def open_mode_def is_tmpfile_def has_flag_def)
qed

lemma fstat_plain:
  "synth_live_entries w = 0 \<Longrightarrow> k_fstat K fd (kst w) = (Inr st, k) \<Longrightarrow> fstat_shim K OPS fd w = (Some st, w\<lparr>kst := k\<rparr>)"
  by (simp add: fstat_shim_def sys_def wslcompat_synth_active_def)

lemma exec_interp_starts:
  assumes "synth_live_entries w = 0"
    and mode: "\<And>k. k_fstat K fd k = (Inr st, k)" "st_mode st AND S_ISUID_ISGID = 0"
    and elf: "reads_file N fd mem" "elf64_ident (parse_ehdr mem)" "e_phentsize (parse_ehdr mem) = SIZEOF_PHDR"
      "e_phnum (parse_ehdr mem) \<noteq> 0" "table_in mem (unat (e_phoff (parse_ehdr mem))) (e_phnum (parse_ehdr mem))"
      "length mem < 2 ^ 63" "es_mixed (scan_file mem)" "es_dynamic (scan_file mem)"
    and few: "length args \<le> 1019"
    and starts: "\<And>k. n_exec E (Execve (ptinterp w) (Some (argv_prefix E path args w @ tl args)) envp) k = (Inr (), k)"
  shows "exec_interp K OPS N E px path (Some args) envp fd w
      = Replaced (Execve (ptinterp w) (Some (argv_prefix E path args w @ tl args)) envp) (kst w)"
proof -
  have 3: "fstat_shim K OPS fd w = (Some st, w)" using fstat_plain [OF assms(1) mode(1)] by simp
  have 4: "elf_needs_fixup K OPS N fd w = (True, w)"
    using elf_needs_fixup_file [OF elf(1-6), of K OPS w] elf(7,8) by simp
  have "copy_argv (length (argv_prefix E path args w)) (argv_prefix E path args w) args
      = Some (argv_prefix E path args w @ tl args)"
    using argv_prefix_length [of E path args w] few by (simp add: copy_argv_spec)
  then show ?thesis
    using 3 4 mode(2) by (simp add: exec_interp_def has_flag_def exec_next_def starts)
qed


text \<open>A dynamic file with segments aligned to 4096 and 65536, and a kernel that refuses it.\<close>

definition example_dyn_elf :: bytes where
  "example_dyn_elf =
     ELFMAG @ [CHR 0x02] @ replicate 27 NUL @ le_bytes 8 64 @ replicate 14 NUL @ le_bytes 2 56 @ le_bytes 2 3
     @ replicate 6 NUL @ le_bytes 4 3 @ replicate 44 NUL @ le_bytes 8 1
     @ le_bytes 4 1 @ replicate 44 NUL @ le_bytes 8 65536 @ le_bytes 4 1 @ replicate 44 NUL @ le_bytes 8 4096"

definition example_exec_kernel :: "unit kernel" where
  "example_exec_kernel = null_kernel\<lparr>k_openat := (\<lambda>_ _ _ _ k. (Inr 5, k)),
     k_fstat := (\<lambda>_ k. (Inr \<lparr>st_dev = 8, st_ino = 9, st_mode = 0x81ed\<rparr>, k))\<rparr>"

definition example_exec :: "unit exec_kernel" where
  "example_exec = \<lparr>n_exec = (\<lambda>c k. (case c of Execve p _ _ \<Rightarrow> if p = ''/bin/x'' then Inl ENOEXEC else Inr () | _ \<Rightarrow> Inl ENOENT, k)),
     n_fstatat = (\<lambda>_ _ _ k. (Inl ENOENT, k)), n_system = (\<lambda>_ k. (Inl ENOSYS, k)), n_popen = (\<lambda>_ _ k. (Inl ENOSYS, k)),
     n_posix_spawn = (\<lambda>_ k. ((ENOSYS, None), k)), n_posix_spawnp = (\<lambda>_ k. ((ENOSYS, None), k)),
     gnu_get_libc_version = ''2.39''\<rparr>"

definition example_exec_io :: "unit libc_io" where
  "example_exec_io = null_io\<lparr>n_pread := (\<lambda>_ n off k. (Inr (take n (drop (nat off) example_dyn_elf)), k))\<rparr>"

lemma example_dyn_elf_facts:
  "length example_dyn_elf = 232" "take 4 example_dyn_elf = ELFMAG" "example_dyn_elf ! 4 = CHR 0x02"
  "fld 32 8 example_dyn_elf = 64" "fld 54 2 example_dyn_elf = 56" "fld 56 2 example_dyn_elf = 3"
  by (simp_all add: example_dyn_elf_def fld_def le_le_bytes nth_append)

lemma example_dyn_elf_phdrs:
  "phdr example_dyn_elf 64 0 = \<lparr>p_type = 3, p_align = 1\<rparr>"
  "phdr example_dyn_elf 64 1 = \<lparr>p_type = 1, p_align = 65536\<rparr>"
  "phdr example_dyn_elf 64 2 = \<lparr>p_type = 1, p_align = 4096\<rparr>"
  by (simp_all add: phdr_def parse_phdr_def example_dyn_elf_def fld_def le_le_bytes)

lemma example_dyn_elf_ok:
  "elf64_ident (parse_ehdr example_dyn_elf)" "e_phentsize (parse_ehdr example_dyn_elf) = SIZEOF_PHDR"
  "e_phnum (parse_ehdr example_dyn_elf) \<noteq> 0"
  "table_in example_dyn_elf (unat (e_phoff (parse_ehdr example_dyn_elf))) (e_phnum (parse_ehdr example_dyn_elf))"
  "length example_dyn_elf < 2 ^ 63" "es_mixed (scan_file example_dyn_elf)" "es_dynamic (scan_file example_dyn_elf)"
proof -
  have "[0..<3] = [0, 1, 2 :: nat]" by (simp add: upt_rec)
  then show "es_mixed (scan_file example_dyn_elf)" "es_dynamic (scan_file example_dyn_elf)"
    by (simp_all add: scan_file_def parse_ehdr_def example_dyn_elf_facts example_dyn_elf_phdrs scan_phdr_def del: One_nat_def)
qed (simp_all add: elf64_ident_def parse_ehdr_def table_in_def example_dyn_elf_facts)

lemma example_exec_image:
  "ptinterp (static_world ()) = PTINTERP_DEFAULT"
  "argv_prefix example_exec ''/bin/x'' [''x'', ''-v''] (static_world ()) = [PTINTERP_DEFAULT, ''--argv0'', ''x'', ''/bin/x'']"
  by code_simp+


text \<open>The same run, step by step.\<close>

lemma example_exec_run:
  "\<exists>k. execve_shim example_exec_kernel (\<lambda>_. no_ops) example_exec_io (\<lambda>k. (EFAULT, k)) example_exec ''/bin/x''
          (Some [''x'', ''-v'']) None (static_world ())
        = Replaced (Execve PTINTERP_DEFAULT (Some [PTINTERP_DEFAULT, ''--argv0'', ''x'', ''/bin/x'', ''-v'']) None) k"
proof -
  have m: "\<not> mem_path ''/bin/x''" by code_simp
  have np: "\<not> passthru ''execve'' (static_world ())" by code_simp
  have e: "\<forall>e\<in>set (synth_table (static_world ())). refcount e \<le> 0"
    by (simp add: static_world_def zero_entry_def)
  obtain w1 where s: "wslcompat_synth_preexec_save example_exec_kernel (\<lambda>_. no_ops) [] (static_world ()) = ([], w1)"
    and lib: "same_lib (static_world ()) w1"
    using preexec_save_empty [OF e, of example_exec_kernel "\<lambda>_. no_ops"] by (metis prod.collapse)
  have lv: "synth_live_entries (w1\<lparr>errno := ENOEXEC\<rparr>) = 0" "options (w1\<lparr>errno := ENOEXEC\<rparr>) = options (static_world ())"
    using lib by (simp_all add: same_libD static_world_def)
  have p: "ptinterp (w1\<lparr>errno := ENOEXEC\<rparr>) = PTINTERP_DEFAULT"
    "argv_prefix example_exec ''/bin/x'' [''x'', ''-v''] (w1\<lparr>errno := ENOEXEC\<rparr>) = [PTINTERP_DEFAULT, ''--argv0'', ''x'', ''/bin/x'']"
    using example_exec_image lv(2) by (simp_all add: ptinterp_def argv_prefix_def)
  have 2: "open_shim example_exec_kernel (\<lambda>_. no_ops) (\<lambda>k. (EFAULT, k)) (Some ''/bin/x'') (O_RDONLY OR O_CLOEXEC) 0 (w1\<lparr>errno := ENOEXEC\<rparr>)
      = (Some 5, w1\<lparr>errno := ENOEXEC\<rparr>)"
    by (subst open_plain [OF _ m]) (simp_all add: sys_def example_exec_kernel_def)
  have 1: "exec_next example_exec (Execve ''/bin/x'' (Some [''x'', ''-v'']) None) w1 = Exec_failed (w1\<lparr>errno := ENOEXEC\<rparr>)"
    by (simp add: exec_next_def example_exec_def)
  have "exec_interp example_exec_kernel (\<lambda>_. no_ops) example_exec_io example_exec [] ''/bin/x'' (Some [''x'', ''-v'']) None 5
      (w1\<lparr>errno := ENOEXEC\<rparr>)
    = Replaced (Execve PTINTERP_DEFAULT (Some [PTINTERP_DEFAULT, ''--argv0'', ''x'', ''/bin/x'', ''-v'']) None) ()"
    by (subst exec_interp_starts [where st = "\<lparr>st_dev = 8, st_ino = 9, st_mode = 0x81ed\<rparr>", OF lv(1) _ _ _ example_dyn_elf_ok])
      (simp_all add: p example_exec_kernel_def example_exec_io_def reads_file_def,
       simp_all add: example_exec_def PTINTERP_DEFAULT_def)
  with np s 1 2 show ?thesis by (simp add: execve_shim_def)
qed

theorem execve_image_witness:
  "\<exists>fd v0 st v1 v2. fstat_shim example_exec_kernel (\<lambda>_. no_ops) fd v0 = (Some st, v1) \<and> st_mode st AND S_ISUID_ISGID = 0
     \<and> elf_needs_fixup example_exec_kernel (\<lambda>_. no_ops) example_exec_io fd v1 = (True, v2)
     \<and> ptinterp v2 = PTINTERP_DEFAULT"
proof -
  obtain k where r: "execve_shim example_exec_kernel (\<lambda>_. no_ops) example_exec_io (\<lambda>k. (EFAULT, k)) example_exec ''/bin/x''
          (Some [''x'', ''-v'']) None (static_world ())
        = Replaced (Execve PTINTERP_DEFAULT (Some [PTINTERP_DEFAULT, ''--argv0'', ''x'', ''/bin/x'', ''-v'']) None) k"
    using example_exec_run by blast
  from execve_image [OF r] show ?thesis by (fastforce simp: PTINTERP_DEFAULT_def)
qed

section \<open>Variable arguments\<close>

lemma va_collect_strs: "length xs < n \<Longrightarrow> va_collect n (map Va_str xs @ Va_null # r) = Some (xs, r)"
proof (induction xs arbitrary: n)
  case Nil
  then show ?case by (cases n) simp_all
next
  case (Cons x xs)
  then obtain m where "n = Suc m" "length xs < m" by (cases n) auto
  with Cons.IH show ?case by simp
qed

text \<open>\<^verbatim>\<open>execl\<close> and \<^verbatim>\<open>execle\<close> are the vector forms for up to 1022 arguments.\<close>

lemma execl_is_execv:
  "length xs < 1022 \<Longrightarrow> execl_shim K OPS E path arg0 (map Va_str xs @ [Va_null]) w
     = Some (execv_shim K OPS E path (Some (arg0 # xs)) w)"
  by (simp add: execl_shim_def va_collect_argv_def va_collect_strs)

lemma execle_is_execve:
  "length xs < 1022 \<Longrightarrow> execle_shim K OPS N null_open E path arg0 (map Va_str xs @ [Va_null, Va_env env]) w
     = Some (execve_shim K OPS N null_open E path (Some (arg0 # xs)) env w)"
  by (simp add: execle_shim_def va_collect_argv_def va_collect_strs va_env_def)

text \<open>With one more argument the terminating null pointer is taken for the environment.\<close>

lemma va_collect_full: "va_collect (length xs) (map Va_str xs @ r) = Some (xs, r)"
  by (induction xs) simp_all

lemma execle_loses_environment:
  assumes "length xs = 1022"
  shows "execle_shim K OPS N null_open E path arg0 (map Va_str xs @ [Va_null, Va_env env]) w
     = Some (execve_shim K OPS N null_open E path (Some (arg0 # xs)) None w)"
  using va_collect_full [of xs "[Va_null, Va_env env]"] assms
  by (simp add: execle_shim_def va_collect_argv_def va_env_def)

end
