(* ===== verification/Balance.thy ===== *)
theory Balance
  imports Ioctl Exec
begin

text \<open>
  References are balanced: the well-formed state of the synthetic descriptor table between two
  calls, and that closing, opening, wrapping a terminal and saving across an exec keep it.
\<close>

section \<open>The state between two calls\<close>

text \<open>
  The table has its 64 slots, the count of live entries is exact, and every slot is free or
  holds the producer's reference alone: no call leaves a pin behind, and none takes away a
  reference it does not own.
\<close>

definition rc01 :: "synth_entry list \<Rightarrow> bool" where
  "rc01 es \<longleftrightarrow> (\<forall>e\<in>set es. refcount e = 0 \<or> refcount e = 1)"

definition table_ok :: "'k world \<Rightarrow> bool" where
  "table_ok w \<longleftrightarrow> length (synth_table w) = 64 \<and> rc01 (synth_table w) \<and> live_inv w"

lemma rc01_cores: "rc01 (synth_table w) \<longleftrightarrow> rc01 (cores w)"
  by (simp add: rc01_def cores_def)

lemma rc01_update: "rc01 es \<Longrightarrow> refcount e = 0 \<or> refcount e = 1 \<Longrightarrow> rc01 (es[i := e])"
  using set_update_subset_insert [of es i e] by (auto simp: rc01_def)

lemma rc01_nth: "rc01 es \<Longrightarrow> i < length es \<Longrightarrow> refcount (es ! i) = 0 \<or> refcount (es ! i) = 1"
  by (simp add: rc01_def)

lemma table_ok_cores: "same_cores w w' \<Longrightarrow> table_ok w' = table_ok w"
  by (simp add: table_ok_def rc01_cores same_cores_live_inv same_cores_length) (simp add: same_cores_def)

lemma table_ok_keeps: "keeps_synth w w' \<Longrightarrow> table_ok w' = table_ok w"
  by (rule table_ok_cores [OF keeps_same_cores])

lemma table_ok_same_lib: "same_lib w w' \<Longrightarrow> table_ok w' = table_ok w"
  by (rule table_ok_keeps) (simp add: keeps_synth_def same_libD)

lemma table_ok_frames:
  assumes "same_frames w w'"
  shows "table_ok w' = table_ok w"
proof -
  have m: "map entry_frame (synth_table w') = map entry_frame (synth_table w)" using assms by (simp add: same_frames_def)
  have r: "map refcount (synth_table w') = map refcount (synth_table w)"
    using arg_cong [OF m, of "map refcount"] by (simp add: comp_def entry_frame_refcount)
  have "live_count es = length (filter (\<lambda>c. c \<noteq> 0) (map refcount es))" for es :: "synth_entry list"
    by (induction es) (simp_all add: live_count_def)
  then have "live_count (synth_table w') = live_count (synth_table w)" by (simp only: r)
  then have "live_inv w' = live_inv w" using assms by (simp add: live_inv_def same_frames_def)
  moreover have "rc01 es \<longleftrightarrow> set (map refcount es) \<subseteq> {0, 1}" for es by (auto simp: rc01_def)
  then have "rc01 (synth_table w') = rc01 (synth_table w)" by (simp only: r)
  ultimately show ?thesis using same_frames_length [OF assms] by (simp add: table_ok_def)
qed

lemma table_ok_simps [simp]:
  "table_ok (snd (sys f w)) = table_ok w" "table_ok (w\<lparr>errno := x\<rparr>) = table_ok w"
  "table_ok (restore_errno w0 w) = table_ok w" "table_ok (upd_tty j g w) = table_ok w"
  "table_ok (close_if_open K fd w) = table_ok w"
  by (simp_all add: table_ok_def live_inv_def close_if_open_def)

lemma static_table_ok: "table_ok (static_world k)"
  by (simp add: table_ok_def rc01_def static_world_def live_inv_def live_count_def zero_entry_def)

section \<open>Closing\<close>

context synth_handlers
begin

text \<open>
  A pinned entry after the post-close step: the pin is gone, and the producer's reference with
  it or not.
\<close>

lemma drop_ref_rc01: "rc01 es \<Longrightarrow> rc01 (drop_ref i es)"
  by (cases "i < length es") (auto simp: drop_ref_def list_update_beyond intro!: rc01_update dest: rc01_nth)

lemma post_close_table_ok:
  assumes "pinned_as e w w3" and "same_cores w3 w4" and "table_ok w"
  shows "table_ok (wslcompat_synth_post_close K OPS e w4)"
proof -
  have p: "pinned_as e w w4" using assms(1,2) by (rule pinned_as_cores)
  have live: "live_inv (wslcompat_synth_post_close K OPS e w4)"
    using pinned_post_close_live_inv [OF assms(1,2)] assms(3) by (simp add: table_ok_def)
  have len: "length (synth_table w4) = 64" using pinned_as_length [OF p] assms(3) by (simp add: table_ok_def)
  have rc: "rc01 (cores w)" using assms(3) by (simp add: table_ok_def rc01_cores)
  have "rc01 (cores (wslcompat_synth_post_close K OPS e w4))"
  proof (cases e)
    case None
    with p rc show ?thesis by (simp add: wslcompat_synth_post_close_def pinned_as_def same_cores_def)
  next
    case (Some i)
    have i: "i < length (synth_table w)" "refcount (cores w ! i) > 0"
      "cores w4 = (cores w)[i := (cores w ! i)\<lparr>refcount := refcount (cores w ! i) + 1\<rparr>]"
      using p Some by (simp_all add: pinned_as_def)
    have i4: "i < length (synth_table w4)" using i(1) assms(3) len by (simp add: table_ok_def)
    have one: "drop_ref i (cores w4) = cores w" using i by (simp add: drop_ref_def)
    show ?thesis
      unfolding Some by (cases rule: post_close_cases [of w4 K i])
        (use i4 one rc in \<open>simp_all add: unpin_drop_ref cores_quiet quiet_fields drop_ref_rc01\<close>)
  qed
  with live len show ?thesis by (simp add: table_ok_def rc01_cores)
qed

lemma close_table_ok:
  assumes "table_ok w"
  shows "table_ok (snd (close_shim K OPS fd w))"
proof (cases "passthru ''close'' w")
  case True
  with assms show ?thesis by (simp add: close_shim_def)
next
  case False
  then obtain e w3 r w4 where "pinned_as e w w3" "sys (k_close K fd) w3 = (r, w4)"
    "close_shim K OPS fd w = (r, restore_errno w4 (wslcompat_synth_post_close K OPS e w4))"
    by (rule close_shim_stages)
  with post_close_table_ok [OF _ sys_same_cores assms] show ?thesis by simp
qed

lemma dup_common_table_ok:
  assumes "table_ok w"
  shows "table_ok (snd (dup_common K OPS oldfd newfd flags allow_self w))"
proof (cases "allow_self \<and> oldfd = newfd")
  case True
  with assms show ?thesis by (simp add: dup_common_def)
next
  case False
  then obtain e w1 w3 r w4 where s: "same_cores w w1" "pinned_as e w1 w3"
    "sys (k_dup3 K oldfd newfd flags) w3 = (r, w4)"
    "dup_common K OPS oldfd newfd flags allow_self w
       = (r, restore_errno w4 (wslcompat_synth_post_close K OPS e w4))"
    by (rule dup_common_stages)
  have "table_ok w1" using table_ok_cores [OF s(1)] assms by simp
  with s post_close_table_ok [OF s(2) sys_same_cores] show ?thesis by simp
qed

lemma dup_table_ok:
  "table_ok w \<Longrightarrow> table_ok (snd (dup2_shim K OPS oldfd newfd w))"
  "table_ok w \<Longrightarrow> table_ok (snd (dup3_shim K OPS oldfd newfd flags w))"
  by (simp_all add: dup2_shim_def dup3_shim_def dup_common_table_ok)

lemma close_range_table_ok:
  assumes "table_ok w"
  shows "table_ok (snd (close_range_shim K OPS lo hi flags w))"
proof -
  have "table_ok (snd (wslcompat_walk_proc_self_fd K (close_range_visit K OPS lo hi) () w))"
    using assms by (rule walk_inv [where I = table_ok, rotated -1])
      (simp_all add: close_range_visit_def close_table_ok table_ok_same_lib)
  with assms show ?thesis by (simp add: close_range_shim_def fail_with_def)
qed

section \<open>Opening\<close>

lemma pin_pinned_as:
  assumes "i < length (synth_table w)" and "refcount (synth_table w ! i) > 0"
  shows "pinned_as (Some i) w (snd (synth_pin i w))"
  using assms pin_cores [OF assms] by (simp add: pinned_as_def nth_cores)

lemma table_gc_table_ok:
  assumes "table_ok w" and "\<And>i. i \<in> set is \<Longrightarrow> i < 64"
  shows "table_ok (snd (table_gc_loop K OPS is w))"
  using assms
proof (induction "is" arbitrary: w)
  case (Cons i "is")
  show ?case
  proof (cases "refcount (synth_table w ! i) > 0")
    case False
    with Cons show ?thesis by (simp add: synth_pin_def)
  next
    case True
    have "i < length (synth_table w)" using Cons.prems by (simp add: table_ok_def)
    then have ok: "table_ok (wslcompat_synth_post_close K OPS (Some i) (snd (synth_pin i w)))"
      using post_close_table_ok [OF pin_pinned_as same_cores_refl Cons.prems(1)] True by blast
    with Cons True show ?thesis by (simp add: Let_def case_prod_beta synth_pin_def)
  qed
qed simp

lemma publish_table_ok:
  assumes "table_ok w" and "i < 64" and "refcount (synth_table w ! i) = 0"
  shows "table_ok (synth_publish K i st ops probe uptr flags w)"
proof -
  have i: "i < length (synth_table w)" using assms by (simp add: table_ok_def)
  obtain sst where p: "cores (synth_publish K i st ops probe uptr flags w)
      = (cores w)[i := published st ops uptr flags (k_getpid K (kst w)) sst]"
    using i by (rule publish_spec)
  have "rc01 (cores (synth_publish K i st ops probe uptr flags w))"
    unfolding p using assms(1) by (intro rc01_update) (simp_all add: table_ok_def rc01_cores published_def)
  moreover have "length (synth_table (synth_publish K i st ops probe uptr flags w)) = 64"
    using arg_cong [OF p, of length] assms(1) by (simp add: table_ok_def)
  ultimately show ?thesis
    using publish_live_inv [OF _ i assms(3)] assms(1) by (simp add: table_ok_def rc01_cores)
qed

lemma register_table_ok:
  assumes "table_ok w"
  shows "table_ok (snd (synth_register K OPS st ops probe uptr flags w))"
proof (cases "find_index (\<lambda>e. refcount e = 0) (synth_table w)")
  case (Some i)
  from find_index_SomeD [OF Some] assms have "i < 64" "refcount (synth_table w ! i) = 0" by (simp_all add: table_ok_def)
  from publish_table_ok [OF assms this] Some show ?thesis by (simp add: synth_register_def numeral_2_eq_2)
next
  case None
  obtain freed w1 where gc: "synth_table_gc K OPS w = (freed, w1)" by fastforce
  have "table_ok (snd (table_gc_loop K OPS [0..<length (synth_table w)] w))"
    using assms by (intro table_gc_table_ok) (simp_all add: table_ok_def)
  then have ok: "table_ok w1" using gc by (simp add: synth_table_gc_def)
  show ?thesis
  proof (cases freed)
    case False
    with None gc ok show ?thesis by (simp add: synth_register_def numeral_2_eq_2)
  next
    case True
    have "live_inv w" using assms by (simp add: table_ok_def)
    then obtain i where i: "find_index (\<lambda>e. refcount e = 0) (synth_table w1) = Some i"
      using gc_spec(3) [of w K] True gc
      by (cases "find_index (\<lambda>e. refcount e = 0) (synth_table w1)") (auto simp: find_index_None_iff)
    from find_index_SomeD [OF i] ok have "i < 64" "refcount (synth_table w1 ! i) = 0" by (simp_all add: table_ok_def)
    from publish_table_ok [OF ok this] True None gc i show ?thesis by (simp add: synth_register_def numeral_2_eq_2)
  qed
qed

lemma table_ok_open_parts [simp]:
  "table_ok (snd (open_backing K w)) = table_ok w" "table_ok (snd (synth_install_probe K fd w)) = table_ok w"
  "table_ok (snd (synth_banner OPS i w)) = table_ok w"
  by (simp_all add: table_ok_same_lib [OF install_probe_same_lib] table_ok_keeps [OF banner_keeps] table_ok_same_lib)

lemma synth_open_table_ok: "table_ok w \<Longrightarrow> table_ok (snd (wslcompat_synth_open K OPS flags ops uptr w))"
  by (simp add: wslcompat_synth_open_def synth_open_fail_def Let_def case_prod_beta register_table_ok
      split: option.split)

lemma redirect_table_ok: "table_ok w \<Longrightarrow> table_ok (snd (match_redirects_table K OPS p flags w))"
proof -
  have h: "table_ok v \<Longrightarrow> table_ok (snd (call_handler K OPS x p flags v))" for x v
    by (cases x) (simp_all add: call_handler_def handle_mmap_min_addr_def handle_proc_pid_mem_def case_prod_beta Let_def
        synth_open_table_ok)
  have "table_ok v \<Longrightarrow> table_ok (snd (redirect_loop K OPS rs p flags v))" for rs v
  proof (induction rs arbitrary: v)
    case (Cons r rs)
    obtain pat x where "r = (pat, x)" by fastforce
    with Cons h [of v x] show ?case by (simp add: case_prod_beta Let_def split: option.split)
  qed simp
  then show "table_ok w \<Longrightarrow> table_ok (snd (match_redirects_table K OPS p flags w))"
    by (simp add: match_redirects_table_def)
qed

lemma openat_table_ok:
  assumes "table_ok w"
  shows "table_ok (snd (openat_shim K OPS null_open dirfd path flags mode w))"
proof -
  have b: "table_ok (record_btime_now K fd v) = table_ok v" for fd v
    by (rule table_ok_same_lib) simp
  show ?thesis
    using assms redirect_table_ok [OF assms]
    by (simp add: openat_shim_def null_path_def Let_def case_prod_beta b table_ok_same_lib [OF handle_tmpfile_same_lib]
        split: option.split)
qed

lemma open_table_ok: "table_ok w \<Longrightarrow> table_ok (snd (open_shim K OPS null_open path flags mode w))"
  by (simp add: open_shim_def null_path_def openat_table_ok split: option.split)

section \<open>Wrapping a terminal\<close>

lemma tty_install_table_ok: "table_ok w \<Longrightarrow> table_ok (snd (wslcompat_tty_install K OPS fd t w))"
proof -
  have f: "table_ok v \<Longrightarrow> table_ok (snd (tty_install_fail K OPS j real synth v))" for j real synth v
    by (simp add: tty_install_fail_def Let_def close_table_ok)
  have a: "table_ok (snd (tty_alloc v)) = table_ok v" for v
    by (simp add: tty_alloc_def split: option.split)
  assume "table_ok w"
  then show ?thesis
    by (simp add: wslcompat_tty_install_def Let_def case_prod_beta f a synth_open_table_ok dup_table_ok close_table_ok
        split: option.split)
qed

lemma fstat_table_ok: "table_ok (snd (fstat_shim K OPS fd w)) = table_ok w"
  by (rule table_ok_keeps [OF fstat_shim_keeps])

section \<open>Exec and spawn\<close>

lemma pin_work_unpin_table_ok:
  assumes "wslcompat_synth_pin_fd K OPS fd w = (Some i, w1)" and "keeps_synth w1 w2" and "table_ok w"
  shows "table_ok (wslcompat_synth_unpin K OPS i w2)"
proof (cases rule: pin_fd_cases [of K OPS fd w])
  case (pinned j st v)
  with assms(1) have w1: "j = i" "w1 = upd_entry i (\<lambda>e. e\<lparr>refcount := refcount e + 1\<rparr>) v" by auto
  then have "wslcompat_synth_unpin K OPS i w2 = w2\<lparr>synth_table := synth_table v\<rparr>"
    using assms(2) pinned by (intro unpin_pinned) (simp_all add: keeps_synth_def same_libD)
  moreover have "keeps_synth w (w2\<lparr>synth_table := synth_table v\<rparr>)"
    using assms(2) pinned(2) w1 by (simp add: keeps_synth_def same_libD)
  ultimately show ?thesis using assms(3) by (simp add: table_ok_keeps)
qed (use assms(1) in simp)

lemma pin_none_table_ok:
  assumes "wslcompat_synth_pin_fd K OPS fd w = (None, w1)" and "table_ok w"
  shows "table_ok w1"
  using assms by (cases rule: pin_fd_cases [of K OPS fd w]) (simp_all add: table_ok_same_lib)

lemma preexec_save_one_table_ok:
  assumes "table_ok w"
  shows "table_ok (snd (preexec_save_one K OPS fd st w))"
proof (cases "wslcompat_synth_pin_fd K OPS fd w")
  case (Pair e w1)
  show ?thesis
  proof (cases e)
    case None
    with Pair pin_none_table_ok [OF _ assms] show ?thesis by (simp add: preexec_save_one_def)
  next
    case (Some i)
    obtain real w2 where p: "passthru_fd OPS i SYNTH_OP_PREEXEC w1 = (real, w2)" by fastforce
    have "keeps_synth w1 w2" using passthru_fd_keeps [of w1 i SYNTH_OP_PREEXEC] p by simp
    then have inv: "table_ok (wslcompat_synth_unpin K OPS i w2)"
      using Pair Some assms by (intro pin_work_unpin_table_ok) simp_all
    with Pair Some p show ?thesis
      by (simp add: preexec_save_one_def case_prod_beta Let_def dup_table_ok split: option.split)
  qed
qed

lemma preexec_save_table_ok:
  assumes "table_ok w"
  shows "table_ok (snd (wslcompat_synth_preexec_save K OPS st w))"
proof -
  have v: "table_ok v \<Longrightarrow> table_ok (snd (snd (preexec_collect_visit K OPS fd c v)))" for fd c v
    using pin_work_unpin_table_ok [of K fd v] pin_none_table_ok [of K fd v]
    by (auto simp: preexec_collect_visit_def split: prod.split option.split)
  have l: "table_ok v \<Longrightarrow> table_ok (snd (preexec_save_loop K OPS fds st v))" for fds st v
  proof (induction fds arbitrary: st v)
    case (Cons fd fds)
    then show ?case using preexec_save_one_table_ok [of v K fd st] by (simp add: case_prod_beta)
  qed simp
  have "table_ok (snd (wslcompat_walk_proc_self_fd K (preexec_collect_visit K OPS) [] w))"
    using assms by (rule walk_inv [where I = table_ok, rotated -1]) (simp_all add: v table_ok_same_lib)
  then show ?thesis by (simp add: wslcompat_synth_preexec_save_def case_prod_beta l)
qed

lemma preexec_restore_table_ok: "table_ok w \<Longrightarrow> table_ok (snd (wslcompat_synth_preexec_restore K OPS st w))"
  unfolding wslcompat_synth_preexec_restore_def snd_conv
  by (rule fold_inv [where I = table_ok])
    (simp_all add: preexec_restore_one_def case_prod_beta close_table_ok dup_table_ok)

lemma around_exec_table_ok:
  assumes "table_ok w" and "\<And>v. table_ok (snd (call v)) = table_ok v"
  shows "table_ok (snd (around_exec K OPS call keep w))"
  using assms by (simp add: around_exec_def Let_def case_prod_beta preexec_save_table_ok preexec_restore_table_ok)

end

end
