(* ===== verification/Poll.thy ===== *)
theory Poll
  imports Handlers
begin

text \<open>
  The poll and ppoll shims of poll.c.  Polling the O_PATH placeholder of a synthetic
  descriptor reports an event at once; that is the canary on which the call is repeated with
  the real descriptors swapped into the caller's array, which is put back afterwards.
\<close>

section \<open>Translation\<close>

definition translate_synth_fd :: "'k kernel \<Rightarrow> 'k ops_table \<Rightarrow> int \<Rightarrow> 'k world \<Rightarrow> int \<times> 'k world" where
  "translate_synth_fd K OPS fd w =
     (let (real, w1) = wslcompat_synth_passthru K OPS fd SYNTH_OP_POLL w
      in if real < 0 \<or> real = fd then (-1, w1) else (real, w1))"

abbreviation (input) MAX_SWAPS :: nat where "MAX_SWAPS \<equiv> 64"

record pollfd =
  pf_fd :: int
  pf_events :: int
  pf_revents :: int

abbreviation (input) POLL_STD :: int where "POLL_STD \<equiv> 325"

text \<open>
  \<^verbatim>\<open>struct poll_ctx\<close>: the variant with its timeout, in milliseconds or as a \<^verbatim>\<open>timespec\<close>, and the
  signal mask.
\<close>

type_synonym sigmask = "64 word option"

datatype poll_ctx = Poll_ctx int | Ppoll_ctx "(int \<times> int) option" sigmask

text \<open>
  The C library's calls.  They return the count and, for each index, the \<^verbatim>\<open>revents\<close> the kernel
  fills in; nothing else of the array is written, and nothing at all on failure.
\<close>

record 'k poll_kernel =
  n_poll :: "pollfd list \<Rightarrow> int \<Rightarrow> 'k \<Rightarrow> (int + int \<times> (nat \<Rightarrow> int)) \<times> 'k"
  n_ppoll :: "pollfd list \<Rightarrow> (int \<times> int) option \<Rightarrow> sigmask \<Rightarrow> 'k \<Rightarrow> (int + int \<times> (nat \<Rightarrow> int)) \<times> 'k"

definition put_revents :: "(nat \<Rightarrow> int) \<Rightarrow> pollfd list \<Rightarrow> pollfd list" where
  "put_revents rv fds = map (\<lambda>i. (fds ! i)\<lparr>pf_revents := rv i\<rparr>) [0..<length fds]"

type_synonym 'k poll_result = "(int option \<times> pollfd list) \<times> 'k world"

definition kernel_call :: "'k poll_kernel \<Rightarrow> poll_ctx \<Rightarrow> pollfd list \<Rightarrow> 'k world \<Rightarrow> 'k poll_result" where
  "kernel_call P c fds w =
     (let (r, w1) = sys (case c of Poll_ctx t \<Rightarrow> n_poll P fds t | Ppoll_ctx tmo m \<Rightarrow> n_ppoll P fds tmo m) w
      in case r of
           None \<Rightarrow> ((None, fds), w1)
         | Some (n, rv) \<Rightarrow> ((Some n, put_revents rv fds), w1))"

definition probe_ctx :: "poll_ctx \<Rightarrow> poll_ctx" where
  "probe_ctx c = (case c of Poll_ctx t \<Rightarrow> Poll_ctx 0 | Ppoll_ctx tmo m \<Rightarrow> Ppoll_ctx (Some (0, 0)) m)"

definition kernel_probe :: "'k poll_kernel \<Rightarrow> poll_ctx \<Rightarrow> pollfd list \<Rightarrow> 'k world \<Rightarrow> 'k poll_result" where
  "kernel_probe P c fds w = kernel_call P (probe_ctx c) fds w"

section \<open>Swapping\<close>

fun swap_in_loop ::
  "'k kernel \<Rightarrow> 'k ops_table \<Rightarrow> nat list \<Rightarrow> pollfd list \<Rightarrow> (nat \<times> int) list \<Rightarrow> 'k world
     \<Rightarrow> (pollfd list \<times> (nat \<times> int) list) \<times> 'k world" where
  "swap_in_loop K OPS [] fds swaps w = ((fds, swaps), w)"
| "swap_in_loop K OPS (i # is) fds swaps w =
     (let (real, w1) = translate_synth_fd K OPS (pf_fd (fds ! i)) w
      in if real < 0 \<or> length swaps \<ge> MAX_SWAPS then swap_in_loop K OPS is fds swaps w1
         else swap_in_loop K OPS is (fds[i := (fds ! i)\<lparr>pf_fd := real\<rparr>]) (swaps @ [(i, pf_fd (fds ! i))]) w1)"

definition poll_swap_in ::
  "'k kernel \<Rightarrow> 'k ops_table \<Rightarrow> pollfd list \<Rightarrow> 'k world \<Rightarrow> (pollfd list \<times> (nat \<times> int) list) \<times> 'k world" where
  "poll_swap_in K OPS fds w = swap_in_loop K OPS [0..<length fds] fds [] w"

fun poll_swap_out :: "pollfd list \<Rightarrow> (nat \<times> int) list \<Rightarrow> pollfd list" where
  "poll_swap_out fds [] = fds"
| "poll_swap_out fds ((i, fd) # swaps) = poll_swap_out (fds[i := (fds ! i)\<lparr>pf_fd := fd\<rparr>]) swaps"

fun poll_canary_fired :: "'k kernel \<Rightarrow> 'k ops_table \<Rightarrow> pollfd list \<Rightarrow> 'k world \<Rightarrow> bool \<times> 'k world" where
  "poll_canary_fired K OPS [] w = (False, w)"
| "poll_canary_fired K OPS (f # fs) w =
     (if pf_revents f = 0 then poll_canary_fired K OPS fs w
      else
        (let (real, w1) = translate_synth_fd K OPS (pf_fd f) w
         in if real \<ge> 0 then (True, w1) else poll_canary_fired K OPS fs w1))"

definition canary_retry ::
  "'k kernel \<Rightarrow> 'k ops_table \<Rightarrow> 'k poll_kernel \<Rightarrow> pollfd list \<Rightarrow> int \<Rightarrow> poll_ctx \<Rightarrow> 'k world \<Rightarrow> 'k poll_result" where
  "canary_retry K OPS P user_fds fallback c w =
     (let ((fds, swaps), w1) = poll_swap_in K OPS user_fds w
      in if swaps = [] then ((Some fallback, fds), w1)
         else (let ((r, fds'), w2) = kernel_call P c fds w1 in ((r, poll_swap_out fds' swaps), w2)))"

text \<open>\<^verbatim>\<open>POLLIN | POLLOUT | POLLRDNORM | POLLWRNORM\<close> are the events for which the canary fires.\<close>

definition needs_proactive_swap :: "pollfd list \<Rightarrow> bool" where
  "needs_proactive_swap fds \<longleftrightarrow> (\<exists>f\<in>set fds. pf_fd f \<ge> 0 \<and> \<not> has_flag (pf_events f) POLL_STD)"

section \<open>The shims\<close>

definition poll_dispatch ::
  "'k kernel \<Rightarrow> 'k ops_table \<Rightarrow> 'k poll_kernel \<Rightarrow> pollfd list \<Rightarrow> poll_ctx \<Rightarrow> 'k world \<Rightarrow> 'k poll_result" where
  "poll_dispatch K OPS P user_fds c w =
     (if passthru ''poll'' w \<or> \<not> wslcompat_synth_active w then kernel_call P c user_fds w
      else
        (let ((result, fds), w1) = kernel_probe P c user_fds w
         in case result of
              None \<Rightarrow> ((None, fds), w1)
            | Some n \<Rightarrow>
                (if n < 0 then ((Some n, fds), w1)
                 else if needs_proactive_swap fds then
                   (let ((fds1, swaps), w2) = poll_swap_in K OPS fds w1;
                        ((r, fds2), w3) = kernel_call P c fds1 w2
                    in ((r, if swaps \<noteq> [] then poll_swap_out fds2 swaps else fds2), w3))
                 else
                   (let ((r, fds1), w2) = (if n = 0 then kernel_call P c fds w1 else ((Some n, fds), w1))
                    in case r of
                         None \<Rightarrow> ((None, fds1), w2)
                       | Some m \<Rightarrow>
                           (if m \<le> 0 then ((Some m, fds1), w2)
                            else
                              (let (fired, w3) = poll_canary_fired K OPS fds1 w2
                               in if \<not> fired then ((Some m, fds1), w3)
                                  else canary_retry K OPS P fds1 m c w3))))))"

definition poll_shim ::
  "'k kernel \<Rightarrow> 'k ops_table \<Rightarrow> 'k poll_kernel \<Rightarrow> pollfd list \<Rightarrow> int \<Rightarrow> 'k world \<Rightarrow> 'k poll_result" where
  "poll_shim K OPS P fds timeout w = poll_dispatch K OPS P fds (Poll_ctx timeout) w"

definition ppoll_shim ::
  "'k kernel \<Rightarrow> 'k ops_table \<Rightarrow> 'k poll_kernel \<Rightarrow> pollfd list \<Rightarrow> (int \<times> int) option \<Rightarrow> sigmask \<Rightarrow> 'k world \<Rightarrow> 'k poll_result" where
  "ppoll_shim K OPS P fds tmo m w = poll_dispatch K OPS P fds (Ppoll_ctx tmo m) w"

text \<open>The FORTIFY entry points abort (\<open>None\<close>) when the array is larger than its object.\<close>

definition poll_chk ::
  "'k kernel \<Rightarrow> 'k ops_table \<Rightarrow> 'k poll_kernel \<Rightarrow> pollfd list \<Rightarrow> int \<Rightarrow> nat \<Rightarrow> 'k world \<Rightarrow> 'k poll_result option" where
  "poll_chk K OPS P fds timeout fdslen w =
     (if length fds > fdslen div 8 then None else Some (poll_shim K OPS P fds timeout w))"

definition ppoll_chk ::
  "'k kernel \<Rightarrow> 'k ops_table \<Rightarrow> 'k poll_kernel \<Rightarrow> pollfd list \<Rightarrow> (int \<times> int) option \<Rightarrow> sigmask \<Rightarrow> nat \<Rightarrow> 'k world \<Rightarrow> 'k poll_result option" where
  "ppoll_chk K OPS P fds tmo m fdslen w =
     (if length fds > fdslen div 8 then None else Some (ppoll_shim K OPS P fds tmo m w))"

section \<open>The caller's array is put back\<close>

text \<open>What the caller put into the array.\<close>

definition asked :: "pollfd list \<Rightarrow> (int \<times> int) list" where
  "asked fds = map (\<lambda>f. (pf_fd f, pf_events f)) fds"

lemma asked_length: "asked fs = asked gs \<Longrightarrow> length fs = length gs"
  by (drule arg_cong [of _ _ length]) (simp add: asked_def)

lemma asked_put_revents [simp]: "asked (put_revents rv fds) = asked fds"
  by (rule nth_equalityI) (simp_all add: asked_def put_revents_def)

lemma length_put_revents [simp]: "length (put_revents rv fds) = length fds"
  by (simp add: put_revents_def)

lemma kernel_call_asked: "asked (snd (fst (kernel_call P c fds w))) = asked fds"
  by (simp add: kernel_call_def Let_def case_prod_beta split: option.split)

lemma asked_update: "asked (fs[i := f]) = (asked fs)[i := (pf_fd f, pf_events f)]"
  by (simp add: asked_def map_update)

lemma asked_swap_out:
  "asked gs = asked hs \<Longrightarrow> asked (poll_swap_out gs swaps) = asked (poll_swap_out hs swaps)"
proof (induction swaps arbitrary: gs hs)
  case Nil
  then show ?case by simp
next
  case (Cons s swaps)
  obtain i fd where s: "s = (i, fd)" by fastforce
  have l: "length gs = length hs" by (rule asked_length [OF Cons.prems])
  have "asked (gs[i := (gs ! i)\<lparr>pf_fd := fd\<rparr>]) = asked (hs[i := (hs ! i)\<lparr>pf_fd := fd\<rparr>])"
  proof (cases "i < length gs")
    case True
    then have "pf_events (gs ! i) = pf_events (hs ! i)"
      using arg_cong [OF Cons.prems, of "\<lambda>xs. snd (xs ! i)"] l by (simp add: asked_def)
    with Cons.prems show ?thesis by (simp add: asked_update)
  next
    case False
    with Cons.prems l show ?thesis by (simp add: list_update_beyond)
  qed
  from Cons.IH [OF this] show ?case by (simp add: s)
qed

lemma swap_out_append: "poll_swap_out fds (xs @ ys) = poll_swap_out (poll_swap_out fds xs) ys"
  by (induction fds xs rule: poll_swap_out.induct) simp_all

lemma length_swap_out [simp]: "length (poll_swap_out fds swaps) = length fds"
  by (induction fds swaps rule: poll_swap_out.induct) simp_all

lemma swap_out_nth_other: "i \<notin> fst ` set swaps \<Longrightarrow> poll_swap_out fds swaps ! i = fds ! i"
  by (induction fds swaps rule: poll_swap_out.induct) auto

lemma swap_out_upd_other:
  "i \<notin> fst ` set swaps \<Longrightarrow> poll_swap_out (fds[i := x]) swaps = (poll_swap_out fds swaps)[i := x]"
proof (induction fds swaps rule: poll_swap_out.induct)
  case (2 fds j fd swaps)
  then show ?case by (auto simp: list_update_swap)
qed simp

text \<open>Swapping out after swapping in gives the array as it was: every record is at an index of its own.\<close>

lemma swap_in_loop_out:
  assumes "swap_in_loop K OPS is fds swaps w = ((fds', swaps'), w')"
    and "distinct is" and "\<forall>i\<in>set is. i < length fds \<and> i \<notin> fst ` set swaps"
  shows "poll_swap_out fds' swaps' = poll_swap_out fds swaps \<and> length fds' = length fds"
  using assms
proof (induction K OPS "is" fds swaps w arbitrary: fds' swaps' w' rule: swap_in_loop.induct)
  case (1 K OPS fds swaps w)
  then show ?case by simp
next
  case (2 K OPS i "is" fds swaps w)
  obtain real w1 where t: "translate_synth_fd K OPS (pf_fd (fds ! i)) w = (real, w1)" by fastforce
  have i: "i < length fds" "i \<notin> fst ` set swaps" using "2.prems"(3) by simp_all
  show ?case
  proof (cases "real < 0 \<or> length swaps \<ge> 64")
    case True
    then show ?thesis using "2.IH"(1) [OF t [symmetric] refl] "2.prems" t by simp
  next
    case False
    let ?fds = "fds[i := (fds ! i)\<lparr>pf_fd := real\<rparr>]" and ?swaps = "swaps @ [(i, pf_fd (fds ! i))]"
    have rest: "distinct is" "\<forall>k\<in>set is. k < length ?fds \<and> k \<notin> fst ` set ?swaps"
      using "2.prems"(2,3) by auto
    have "swap_in_loop K OPS is ?fds ?swaps w1 = ((fds', swaps'), w')"
      using "2.prems"(1) t False by simp
    from "2.IH"(2) [OF t [symmetric] refl False this rest]
    have "poll_swap_out fds' swaps' = poll_swap_out ?fds ?swaps" "length fds' = length fds" by simp_all
    moreover have "poll_swap_out ?fds ?swaps = poll_swap_out fds swaps"
      using i by (simp add: swap_out_append swap_out_upd_other swap_out_nth_other list_update_same_conv)
    ultimately show ?thesis by simp
  qed
qed

lemma poll_swap_in_out:
  assumes "poll_swap_in K OPS fds w = ((fds', swaps), w')"
  shows "poll_swap_out fds' swaps = fds"
  using swap_in_loop_out [OF assms [unfolded poll_swap_in_def]] by simp

lemma swapped_call_asked:
  assumes "poll_swap_in K OPS fds w = ((fds1, swaps), w1)" and "kernel_call P c fds1 w2 = ((r, fds2), w3)"
  shows "asked (poll_swap_out fds2 swaps) = asked fds"
proof -
  have "asked fds2 = asked fds1" using kernel_call_asked [of P c fds1 w2] assms(2) by simp
  from asked_swap_out [OF this] show ?thesis by (simp add: poll_swap_in_out [OF assms(1)])
qed

lemma swap_in_nil:
  assumes "poll_swap_in K OPS fds w = ((fds1, []), w1)"
  shows "fds1 = fds"
  using poll_swap_in_out [OF assms] by simp

lemma canary_retry_asked: "asked (snd (fst (canary_retry K OPS P fds n c w))) = asked fds"
proof -
  obtain fds1 swaps w1 where s: "poll_swap_in K OPS fds w = ((fds1, swaps), w1)" by (metis surj_pair)
  obtain r fds2 w2 where k: "kernel_call P c fds1 w1 = ((r, fds2), w2)" by (metis surj_pair)
  show ?thesis
  proof (cases "swaps = []")
    case True
    with s swap_in_nil show ?thesis by (fastforce simp: canary_retry_def)
  next
    case False
    with s k swapped_call_asked [OF s k] show ?thesis by (simp add: canary_retry_def)
  qed
qed

text \<open>
  C13: poll and ppoll give the caller's array back.  Whatever branch is taken, whatever the
  kernel answers and however many descriptors were swapped, every descriptor and event mask
  is after the call what it was before; only \<^verbatim>\<open>revents\<close> differs.
\<close>

theorem poll_restores: "asked (snd (fst (poll_dispatch K OPS P fds c w))) = asked fds"
proof (cases "passthru ''poll'' w \<or> \<not> wslcompat_synth_active w")
  case True
  then show ?thesis by (simp add: poll_dispatch_def kernel_call_asked)
next
  case act: False
  obtain result fds1 w1 where pr: "kernel_probe P c fds w = ((result, fds1), w1)" by (metis surj_pair)
  have a1: "asked fds1 = asked fds" using kernel_call_asked [of P "probe_ctx c" fds w] pr by (simp add: kernel_probe_def)
  show ?thesis
  proof (cases result)
    case None
    with act pr a1 show ?thesis by (simp add: poll_dispatch_def)
  next
    case n: (Some n)
    show ?thesis
    proof (cases "needs_proactive_swap fds1")
      case True
      obtain fds2 swaps w2 where s: "poll_swap_in K OPS fds1 w1 = ((fds2, swaps), w2)" by (metis surj_pair)
      obtain r fds3 w3 where k: "kernel_call P c fds2 w2 = ((r, fds3), w3)" by (metis surj_pair)
      have "asked (if swaps \<noteq> [] then poll_swap_out fds3 swaps else fds3) = asked fds1"
        using swapped_call_asked [OF s k] by (cases "swaps = []") auto
      with act pr n True s k a1 show ?thesis by (simp add: poll_dispatch_def)
    next
      case False
      obtain r fds2 w2 where k: "(if n = 0 then kernel_call P c fds1 w1 else ((Some n, fds1), w1)) = ((r, fds2), w2)"
        by (metis surj_pair)
      have a2: "asked fds2 = asked fds1" using k kernel_call_asked [of P c fds1 w1] by (auto split: if_splits)
      obtain fired w3 where f: "poll_canary_fired K OPS fds2 w2 = (fired, w3)" by fastforce
      show ?thesis using act pr n False k f a1 a2 canary_retry_asked [of K OPS P fds2 _ c w3]
        by (simp add: poll_dispatch_def split: option.split)
    qed
  qed
qed

section \<open>Which descriptors are swapped\<close>

text \<open>
  A kernel in which nothing else moves meanwhile: fstat and getpid are functions of the
  process and leave the kernel alone.
\<close>

definition steady :: "'k kernel \<Rightarrow> (int \<Rightarrow> int + stat) \<Rightarrow> int \<Rightarrow> bool" where
  "steady K S pid \<longleftrightarrow> (\<forall>fd k. k_fstat K fd k = (S fd, k)) \<and> (\<forall>k. k_getpid K k = pid)"

text \<open>The real terminal behind a descriptor, -1 when there is none.\<close>

definition synth_target :: "(int \<Rightarrow> int + stat) \<Rightarrow> 'k world \<Rightarrow> int \<Rightarrow> int" where
  "synth_target S w fd =
     (case S fd of
        Inl _ \<Rightarrow> -1
      | Inr st \<Rightarrow>
          (case synth_slot w st of
             None \<Rightarrow> -1
           | Some i \<Rightarrow>
               (let real = tt_real_fd (tty_table w ! tty_idx i w)
                in if se_ops (synth_table w ! i) = Tty_ops \<and> real \<ge> 0 \<and> real \<noteq> fd then real else -1)))"

definition all_owned :: "'k kernel \<Rightarrow> 'k world \<Rightarrow> bool" where
  "all_owned K w \<longleftrightarrow> (\<forall>i st. synth_slot w st = Some i \<longrightarrow> owns K i w)"

lemma synth_target_same_lib: "same_lib w v \<Longrightarrow> synth_target S v = synth_target S w"
  by (rule ext) (simp add: synth_target_def synth_slot_def tty_idx_def same_libD split: sum.split option.split)

lemma translate_target:
  assumes "steady K S pid" and "all_owned K w" and "same_lib w v"
  shows "\<exists>e. translate_synth_fd K (wsl_ops K V N T) fd v = (synth_target S w fd, v\<lparr>errno := e\<rparr>)"
proof (cases "S fd")
  case (Inl e)
  then have "sys (k_fstat K fd) v = (None, v\<lparr>errno := e\<rparr>)" using assms(1) by (simp add: steady_def sys_def)
  then have "translate_synth_fd K (wsl_ops K V N T) fd v = (-1, v\<lparr>errno := e\<rparr>)"
    by (simp add: translate_synth_fd_def wslcompat_synth_passthru_def wslcompat_synth_pin_fd_def)
  then show ?thesis using Inl by (auto simp: synth_target_def)
next
  case (Inr st)
  have st: "k_fstat K fd (kst v) = (Inr st, kst v)" using assms(1) Inr by (simp add: steady_def)
  have sl: "synth_slot v st = synth_slot w st" using assms(3) by (simp add: synth_slot_def same_libD)
  have "translate_synth_fd K (wsl_ops K V N T) fd v = (synth_target S w fd, v\<lparr>errno := errno v\<rparr>)"
  proof (cases "synth_slot w st")
    case None
    then show ?thesis using passthru_slot(1) [OF st] Inr sl by (simp add: translate_synth_fd_def synth_target_def)
  next
    case (Some i)
    have o: "owns K i v" using assms Some by (auto simp: all_owned_def owns_def steady_def same_libD)
    have t: "synth_table v = synth_table w" "tty_table v = tty_table w" "tty_idx i v = tty_idx i w"
      using assms(3) by (simp_all add: same_libD tty_idx_def)
    have sv: "synth_slot v st = Some i" using sl Some by simp
    show ?thesis
    proof (cases "se_ops (synth_table w ! i) = Tty_ops")
      case True
      then have "wslcompat_synth_passthru K (wsl_ops K V N T) fd SYNTH_OP_POLL v = (tt_real_fd (tty_table w ! tty_idx i w), v)"
        using owner_passthru [OF st sv _ o] t by simp
      with True Some Inr show ?thesis by (simp add: translate_synth_fd_def synth_target_def)
    next
      case False
      then have "wslcompat_synth_passthru K (wsl_ops K V N T) fd SYNTH_OP_POLL v = (-1, v)"
        using proc_passthru [OF st sv] t by simp
      with False Some Inr show ?thesis by (simp add: translate_synth_fd_def synth_target_def)
    qed
  qed
  then show ?thesis by blast
qed

definition retarget :: "(int \<Rightarrow> int) \<Rightarrow> pollfd \<Rightarrow> pollfd" where
  "retarget tr f = (if tr (pf_fd f) \<ge> 0 then f\<lparr>pf_fd := tr (pf_fd f)\<rparr> else f)"

text \<open>The world after translations from \<open>w\<close>: at most errno differs.\<close>

lemma swap_in_spec:
  assumes st: "steady K S pid" "all_owned K w" and tr: "tr = synth_target S w"
    and "same_lib w v" and "distinct is" and "\<forall>i\<in>set is. i < length fds"
    and "length swaps + length (filter (\<lambda>i. tr (pf_fd (fds ! i)) \<ge> 0) is) \<le> 64"
  shows "\<exists>e. swap_in_loop K (wsl_ops K V N T) is fds swaps v =
     ((map (\<lambda>i. if i \<in> set is then retarget tr (fds ! i) else fds ! i) [0..<length fds],
       swaps @ map (\<lambda>i. (i, pf_fd (fds ! i))) (filter (\<lambda>i. tr (pf_fd (fds ! i)) \<ge> 0) is)), v\<lparr>errno := e\<rparr>)"
  using assms(4-7)
proof (induction "is" arbitrary: fds swaps v)
  case Nil
  then show ?case by (intro exI [of _ "errno v"]) (simp add: map_nth)
next
  case (Cons i "is")
  let ?fd = "pf_fd (fds ! i)"
  obtain e where t: "translate_synth_fd K (wsl_ops K V N T) ?fd v = (tr ?fd, v\<lparr>errno := e\<rparr>)"
    using translate_target [OF st Cons.prems(1)] tr by blast
  have same: "same_lib w (v\<lparr>errno := e\<rparr>)" using Cons.prems(1) by simp
  show ?case
  proof (cases "tr ?fd \<ge> 0")
    case False
    with Cons.prems have "length swaps + length (filter (\<lambda>i. tr (pf_fd (fds ! i)) \<ge> 0) is) \<le> 64" by simp
    from Cons.IH [OF same _ _ this] Cons.prems obtain e' where
      "swap_in_loop K (wsl_ops K V N T) is fds swaps (v\<lparr>errno := e\<rparr>) =
       ((map (\<lambda>i. if i \<in> set is then retarget tr (fds ! i) else fds ! i) [0..<length fds],
         swaps @ map (\<lambda>i. (i, pf_fd (fds ! i))) (filter (\<lambda>i. tr (pf_fd (fds ! i)) \<ge> 0) is)), v\<lparr>errno := e'\<rparr>)" by auto
    moreover have "retarget tr (fds ! i) = fds ! i" using False by (simp add: retarget_def)
    ultimately show ?thesis using t False by (auto intro!: exI [of _ e'])
  next
    case True
    let ?fds = "fds[i := (fds ! i)\<lparr>pf_fd := tr ?fd\<rparr>]"
    have i: "i < length fds" "i \<notin> set is" using Cons.prems by simp_all
    have nth: "?fds ! x = fds ! x" if "x \<in> set is" for x
      using i(2) that by (metis nth_list_update_neq)
    have eq: "filter (\<lambda>k. tr (pf_fd (?fds ! k)) \<ge> 0) is = filter (\<lambda>k. tr (pf_fd (fds ! k)) \<ge> 0) is"
      "map (\<lambda>k. (k, pf_fd (?fds ! k))) (filter (\<lambda>k. tr (pf_fd (fds ! k)) \<ge> 0) is)
        = map (\<lambda>k. (k, pf_fd (fds ! k))) (filter (\<lambda>k. tr (pf_fd (fds ! k)) \<ge> 0) is)"
      using nth by (auto intro!: filter_cong)
    have "map (\<lambda>k. if k \<in> set is then retarget tr (?fds ! k) else ?fds ! k) [0..<length ?fds]
        = map (\<lambda>k. if k \<in> set (i # is) then retarget tr (fds ! k) else fds ! k) [0..<length fds]"
      using i True by (auto simp: nth_list_update retarget_def)
    moreover from Cons.IH [OF same, of ?fds "swaps @ [(i, ?fd)]"] Cons.prems True eq obtain e' where
      "swap_in_loop K (wsl_ops K V N T) is ?fds (swaps @ [(i, ?fd)]) (v\<lparr>errno := e\<rparr>) =
       ((map (\<lambda>k. if k \<in> set is then retarget tr (?fds ! k) else ?fds ! k) [0..<length ?fds],
         (swaps @ [(i, ?fd)]) @ map (\<lambda>k. (k, pf_fd (fds ! k))) (filter (\<lambda>k. tr (pf_fd (fds ! k)) \<ge> 0) is)), v\<lparr>errno := e'\<rparr>)"
      by auto
    moreover have "length swaps < 64" using Cons.prems(4) True by simp
    ultimately show ?thesis using t True by (auto intro!: exI [of _ e'])
  qed
qed

lemma canary_fired_spec:
  assumes "steady K S pid" "all_owned K w" and "same_lib w v"
  shows "\<exists>e. poll_canary_fired K (wsl_ops K V N T) fds v =
     ((\<exists>f\<in>set fds. pf_revents f \<noteq> 0 \<and> synth_target S w (pf_fd f) \<ge> 0), v\<lparr>errno := e\<rparr>)"
  using assms(3)
proof (induction fds arbitrary: v)
  case Nil
  then show ?case by (intro exI [of _ "errno v"]) simp
next
  case (Cons f fds)
  show ?case
  proof (cases "pf_revents f = 0")
    case True
    with Cons show ?thesis by simp
  next
    case False
    obtain e where t: "translate_synth_fd K (wsl_ops K V N T) (pf_fd f) v = (synth_target S w (pf_fd f), v\<lparr>errno := e\<rparr>)"
      using translate_target [OF assms(1,2) Cons.prems] by blast
    have "same_lib w (v\<lparr>errno := e\<rparr>)" using Cons.prems by simp
    from Cons.IH [OF this] t False show ?thesis by (cases "synth_target S w (pf_fd f) \<ge> 0") auto
  qed
qed

lemma swap_out_keeps:
  "map pf_revents (poll_swap_out gs swaps) = map pf_revents gs \<and> map pf_events (poll_swap_out gs swaps) = map pf_events gs"
proof (induction gs swaps rule: poll_swap_out.induct)
  case (2 fds i fd swaps)
  have "map pf_revents (fds[i := (fds ! i)\<lparr>pf_fd := fd\<rparr>]) = map pf_revents fds"
    "map pf_events (fds[i := (fds ! i)\<lparr>pf_fd := fd\<rparr>]) = map pf_events fds"
    by (cases "i < length fds"; auto intro!: nth_equalityI simp: nth_list_update list_update_beyond)+
  with 2 show ?case by simp
qed simp

lemma swapped_result:
  assumes "poll_swap_in K OPS fds w = ((fds1, swaps), w1)" and "asked gs = asked fds1"
  shows "poll_swap_out gs swaps = map2 (\<lambda>f g. g\<lparr>pf_fd := pf_fd f\<rparr>) fds gs"
proof -
  let ?o = "poll_swap_out gs swaps"
  have a: "asked ?o = asked fds" using asked_swap_out [OF assms(2)] by (simp add: poll_swap_in_out [OF assms(1)])
  have l: "length gs = length fds" using asked_length [OF a] by simp
  show ?thesis
  proof (rule nth_equalityI)
    fix i assume "i < length ?o"
    then have i: "i < length gs" "i < length fds" using l by simp_all
    have "pf_revents (?o ! i) = pf_revents (gs ! i)" "pf_events (?o ! i) = pf_events (gs ! i)"
      using swap_out_keeps [of gs swaps] i by (metis length_swap_out nth_map)+
    moreover have "pf_fd (?o ! i) = pf_fd (fds ! i)"
      using arg_cong [OF a, of "\<lambda>xs. fst (xs ! i)"] i by (simp add: asked_def)
    ultimately show "?o ! i = map2 (\<lambda>f g. g\<lparr>pf_fd := pf_fd f\<rparr>) fds gs ! i" using i by simp
  qed (simp add: l)
qed

lemma kernel_call_same_lib: "same_lib w (snd (kernel_call P c fds v)) = same_lib w v"
  by (simp add: kernel_call_def Let_def case_prod_beta split: option.split)

lemma filter_count_nth: "length (filter (\<lambda>k. Q (xs ! k)) [0..<length xs]) = length (filter Q xs)"
proof -
  have "filter Q (map ((!) xs) [0..<length xs]) = map ((!) xs) (filter (\<lambda>k. Q (xs ! k)) [0..<length xs])"
    by (simp add: filter_map o_def)
  then show ?thesis by (metis length_map map_nth)
qed

lemma filter_count_map: "length (filter (\<lambda>x. Q (f x)) xs) = length (filter Q (map f xs))"
  by (simp add: filter_map o_def)

lemma map_nth_map: "map (\<lambda>i. if i < length xs then f (xs ! i) else g i) [0..<length xs] = map f xs"
  by (rule nth_equalityI) simp_all

lemma poll_swap_targets:
  assumes "steady K S pid" and "all_owned K w" and "tr = synth_target S w" and "same_lib w v"
    and few: "length (filter (\<lambda>f. tr (pf_fd f) \<ge> 0) fds) \<le> 64" and some: "i < length fds" "tr (pf_fd (fds ! i)) \<ge> 0"
  shows "\<exists>e swaps. poll_swap_in K (wsl_ops K V N T) fds v = ((map (retarget tr) fds, swaps), v\<lparr>errno := e\<rparr>) \<and> swaps \<noteq> []"
proof -
  have "length (filter (\<lambda>k. tr (pf_fd (fds ! k)) \<ge> 0) [0..<length fds]) \<le> 64"
    using few by (simp add: filter_count_nth [of "\<lambda>f. tr (pf_fd f) \<ge> 0" fds])
  with swap_in_spec [OF assms(1-4), of "[0..<length fds]" fds "[]" V N T] obtain e where
    e: "poll_swap_in K (wsl_ops K V N T) fds v =
     ((map (\<lambda>i. if i < length fds then retarget tr (fds ! i) else fds ! i) [0..<length fds],
       map (\<lambda>i. (i, pf_fd (fds ! i))) (filter (\<lambda>i. tr (pf_fd (fds ! i)) \<ge> 0) [0..<length fds])), v\<lparr>errno := e\<rparr>)"
    by (auto simp: poll_swap_in_def)
  have "filter (\<lambda>i. tr (pf_fd (fds ! i)) \<ge> 0) [0..<length fds] \<noteq> []"
    using some by (auto simp: filter_empty_conv intro!: bexI [of _ i])
  then show ?thesis using e by (intro exI [of _ e]) (simp add: map_nth_map)
qed

lemma poll_swap_undone:
  assumes "poll_swap_in K OPS fds1 v = ((map (retarget tr) fds1, swaps), v')"
    and "kernel_call P c (map (retarget tr) fds1) v'' = ((r, gs), w3)" and "map pf_fd fds1 = map pf_fd fds"
  shows "poll_swap_out gs swaps = map2 (\<lambda>f g. g\<lparr>pf_fd := pf_fd f\<rparr>) fds gs"
proof -
  have l: "length fds1 = length fds" using arg_cong [OF assms(3), of length] by simp
  have fd: "pf_fd (fds1 ! k) = pf_fd (fds ! k)" if "k < length fds" for k
    using arg_cong [OF assms(3), of "\<lambda>xs. xs ! k"] that l by simp
  have "asked gs = asked (map (retarget tr) fds1)" using kernel_call_asked [of P c "map (retarget tr) fds1" v''] assms(2) by simp
  from swapped_result [OF assms(1) this] have "poll_swap_out gs swaps = map2 (\<lambda>f g. g\<lparr>pf_fd := pf_fd f\<rparr>) fds1 gs" .
  also have "\<dots> = map2 (\<lambda>f g. g\<lparr>pf_fd := pf_fd f\<rparr>) fds gs"
    by (rule nth_equalityI) (simp_all add: l fd)
  finally show ?thesis .
qed

text \<open>
  C14: poll on synthetic descriptors is poll on the terminals behind them.  The kernel's first,
  non-blocking answer reports an event on some placeholder, and at most 64 entries are
  synthetic.  Then the outcome is that of one call, with the caller's timeout and mask, on the array
  with every wrapped terminal replaced by the real one: the same count or errno, and the
  same \<^verbatim>\<open>revents\<close>, in the caller's own array.
\<close>

theorem poll_translates:
  assumes "\<not> passthru ''poll'' w" and "wslcompat_synth_active w"
    and "steady K S pid" and "all_owned K w" and "tr = synth_target S w"
    and "kernel_probe P c fds w = ((Some n, fds1), w1)" and "n > 0"
    and "i < length fds" and "tr (pf_fd (fds ! i)) \<ge> 0" and "pf_revents (fds1 ! i) \<noteq> 0"
    and "length (filter (\<lambda>f. tr (pf_fd f) \<ge> 0) fds) \<le> 64"
  shows "\<exists>w2 r gs w3. same_lib w w2 \<and> kst w2 = kst w1
    \<and> kernel_call P c (map (retarget tr) fds1) w2 = ((r, gs), w3)
    \<and> poll_dispatch K (wsl_ops K V N T) P fds c w = ((r, map2 (\<lambda>f g. g\<lparr>pf_fd := pf_fd f\<rparr>) fds gs), w3)"
proof -
  let ?OPS = "wsl_ops K V N T"
  have a1: "asked fds1 = asked fds" using kernel_call_asked [of P "probe_ctx c" fds w] assms(6) by (simp add: kernel_probe_def)
  have l1: "length fds1 = length fds" by (rule asked_length [OF a1])
  have s1: "same_lib w w1" using assms(6) kernel_call_same_lib [of w P "probe_ctx c" fds w] by (simp add: kernel_probe_def)
  have fd1: "pf_fd (fds1 ! k) = pf_fd (fds ! k)" if "k < length fds" for k
    using arg_cong [OF a1, of "\<lambda>xs. fst (xs ! k)"] that l1 by (simp add: asked_def)
  have fds1: "map pf_fd fds1 = map pf_fd fds" by (rule nth_equalityI) (simp_all add: l1 fd1)
  then have few: "length (filter (\<lambda>f. tr (pf_fd f) \<ge> 0) fds1) \<le> 64"
    using assms(11) by (simp add: filter_count_map [of "\<lambda>fd. tr fd \<ge> 0" pf_fd])
  have i1: "i < length fds1" "tr (pf_fd (fds1 ! i)) \<ge> 0" using assms(8,9) fd1 [OF assms(8)] l1 by simp_all
  note swap = poll_swap_targets [OF assms(3,4,5) _ few i1, of _ V N T]
  show ?thesis
  proof (cases "needs_proactive_swap fds1")
    case True
    from swap [OF s1] obtain e swaps where sw: "poll_swap_in K ?OPS fds1 w1 = ((map (retarget tr) fds1, swaps), w1\<lparr>errno := e\<rparr>)" "swaps \<noteq> []"
      by blast
    obtain r gs w3 where k: "kernel_call P c (map (retarget tr) fds1) (w1\<lparr>errno := e\<rparr>) = ((r, gs), w3)" by (metis surj_pair)
    show ?thesis
      by (rule exI [of _ "w1\<lparr>errno := e\<rparr>"], rule exI [of _ r], rule exI [of _ gs], rule exI [of _ w3])
        (use assms(1,2,6,7) True sw k s1 poll_swap_undone [OF sw(1) k fds1] in \<open>simp add: poll_dispatch_def\<close>)
  next
    case False
    have "\<exists>f\<in>set fds1. pf_revents f \<noteq> 0 \<and> synth_target S w (pf_fd f) \<ge> 0"
      using assms(5,8,9,10) l1 fd1 by (metis nth_mem)
    with canary_fired_spec [OF assms(3,4) s1, of V N T fds1] obtain e0 where
      cf: "poll_canary_fired K ?OPS fds1 w1 = (True, w1\<lparr>errno := e0\<rparr>)" by auto
    have "same_lib w (w1\<lparr>errno := e0\<rparr>)" using s1 by simp
    from swap [OF this] obtain e swaps where sw: "poll_swap_in K ?OPS fds1 (w1\<lparr>errno := e0\<rparr>) = ((map (retarget tr) fds1, swaps), w1\<lparr>errno := e\<rparr>)"
      "swaps \<noteq> []" by auto
    obtain r gs w3 where k: "kernel_call P c (map (retarget tr) fds1) (w1\<lparr>errno := e\<rparr>) = ((r, gs), w3)" by (metis surj_pair)
    show ?thesis
      by (rule exI [of _ "w1\<lparr>errno := e\<rparr>"], rule exI [of _ r], rule exI [of _ gs], rule exI [of _ w3])
        (use assms(1,2,6,7) False sw k s1 cf poll_swap_undone [OF sw(1) k fds1] in \<open>simp add: poll_dispatch_def canary_retry_def\<close>)
  qed
qed

text \<open>A kernel in which a placeholder reports an event at once and the real terminal one input event.\<close>

definition example_poll :: "unit poll_kernel" where
  "example_poll = \<lparr>n_poll = (\<lambda>fds t k. (Inr (1, \<lambda>i. if pf_fd (fds ! i) = 20 then 1 else 32), k)),
     n_ppoll = (\<lambda>fds t m k. (Inr (1, \<lambda>i. 0), k))\<rparr>"

lemma example_wrap_steady: "steady example_synth example_stat 1"
  by (simp add: steady_def example_synth_def null_kernel_def)

lemma example_wrap_owned: "all_owned example_synth example_wrap_world"
  using example_wrap(3) by (auto simp: all_owned_def synth_slot_def example_wrap_world_def split: if_splits)

lemma example_wrap_target: "synth_target example_stat example_wrap_world fd = (if fd = 4 \<or> fd = 5 then 20 else -1)"
  using example_wrap by (auto simp: synth_target_def example_stat_def)

theorem poll_translates_witness:
  "fst (poll_dispatch example_synth (wsl_ops example_synth null_vm null_io example_tty) example_poll
      [\<lparr>pf_fd = 4, pf_events = 1, pf_revents = 0\<rparr>] (Poll_ctx 100) example_wrap_world)
    = (Some 1, [\<lparr>pf_fd = 4, pf_events = 1, pf_revents = 1\<rparr>])"
proof -
  let ?fds = "[\<lparr>pf_fd = 4, pf_events = 1, pf_revents = 0\<rparr>]" and ?fds1 = "[\<lparr>pf_fd = 4, pf_events = 1, pf_revents = 32\<rparr>]"
  have h: "\<not> passthru ''poll'' example_wrap_world" unfolding passthru_def example_wrap by code_simp
  have a: "wslcompat_synth_active example_wrap_world" by (simp add: wslcompat_synth_active_def example_wrap_world_def)
  have p: "kernel_probe example_poll (Poll_ctx 100) ?fds example_wrap_world = ((Some 1, ?fds1), example_wrap_world)"
    by (simp add: kernel_probe_def kernel_call_def probe_ctx_def example_poll_def sys_def put_revents_def)
  from poll_translates [OF h a example_wrap_steady example_wrap_owned refl p, of 0 null_vm null_io example_tty]
  obtain w2 r gs w3 where
    "kernel_call example_poll (Poll_ctx 100) (map (retarget (synth_target example_stat example_wrap_world)) ?fds1) w2 = ((r, gs), w3)"
    "fst (poll_dispatch example_synth (wsl_ops example_synth null_vm null_io example_tty) example_poll ?fds (Poll_ctx 100) example_wrap_world)
      = (r, map2 (\<lambda>f g. g\<lparr>pf_fd := pf_fd f\<rparr>) ?fds gs)" by (auto simp: example_wrap_target)
  then show ?thesis
    by (auto simp: kernel_call_def example_poll_def sys_def put_revents_def retarget_def example_wrap_target)
qed

end
