(* ===== verification/Select.thy ===== *)
theory Select
  imports Poll
begin

text \<open>
  The select and pselect shims of poll.c.  WSL1 refuses a set with an O_PATH descriptor
  with EPERM; then the synthetic descriptors in the three sets are replaced by the real ones, the
  call is repeated, and readiness is mirrored back in two passes.
\<close>

section \<open>The shims\<close>

text \<open>
  An \<^verbatim>\<open>fd_set\<close> is the predicate of its bits, a null pointer is \<open>None\<close>; the three sets of a call are
  a list.  The prototypes declare the pointers \<^verbatim>\<open>restrict\<close>, so the sets do not alias.
\<close>

type_synonym fd_set = "nat \<Rightarrow> bool"
type_synonym fd_sets = "fd_set option list"

abbreviation (input) FD_SETSIZE :: nat where "FD_SETSIZE \<equiv> 1024"

record sel_swap =
  sw_synth :: nat
  sw_real :: nat
  s_in :: "bool list"
  r_in :: "bool list"

definition sel_watched :: "fd_set option \<Rightarrow> nat \<Rightarrow> bool" where
  "sel_watched s fd = (case s of None \<Rightarrow> False | Some S \<Rightarrow> S fd)"

text \<open>\<^verbatim>\<open>FD_CLR(fd, s); FD_SET(real, s)\<close> where \<open>fd\<close> is watched.\<close>

definition sel_replace :: "nat \<Rightarrow> nat \<Rightarrow> fd_set option \<Rightarrow> fd_set option" where
  "sel_replace fd real s = map_option (\<lambda>S. if S fd then S(fd := False, real := True) else S) s"

fun sel_swap_loop ::
  "'k kernel \<Rightarrow> 'k ops_table \<Rightarrow> nat list \<Rightarrow> fd_sets \<Rightarrow> sel_swap list \<Rightarrow> int \<Rightarrow> 'k world
     \<Rightarrow> (fd_sets \<times> sel_swap list \<times> int) \<times> 'k world" where
  "sel_swap_loop K OPS [] sets swaps new_nfds w = ((sets, swaps, new_nfds), w)"
| "sel_swap_loop K OPS (fd # fds) sets swaps new_nfds w =
     (if \<forall>s\<in>set sets. \<not> sel_watched s fd then sel_swap_loop K OPS fds sets swaps new_nfds w
      else
        (let (real, w1) = translate_synth_fd K OPS (int fd) w
         in if real < 0 \<or> real \<ge> int FD_SETSIZE \<or> length swaps \<ge> MAX_SWAPS
            then sel_swap_loop K OPS fds sets swaps new_nfds w1
            else
              sel_swap_loop K OPS fds (map (sel_replace fd (nat real)) sets)
                (swaps @ [\<lparr>sw_synth = fd, sw_real = nat real, s_in = map (\<lambda>s. sel_watched s fd) sets,
                           r_in = map (\<lambda>s. sel_watched s (nat real)) sets\<rparr>])
                (if real + 1 > new_nfds then real + 1 else new_nfds) w1))"

definition sel_swap_in ::
  "'k kernel \<Rightarrow> 'k ops_table \<Rightarrow> int \<Rightarrow> fd_sets \<Rightarrow> 'k world \<Rightarrow> (fd_sets \<times> sel_swap list \<times> int) \<times> 'k world" where
  "sel_swap_in K OPS nfds sets w = sel_swap_loop K OPS [0..<min (nat nfds) FD_SETSIZE] sets [] nfds w"

text \<open>The two passes of \<^verbatim>\<open>sel_unwind\<close>, one swap after the other in the directions the caller watched.\<close>

definition mirror_one :: "sel_swap \<Rightarrow> fd_sets \<Rightarrow> fd_sets" where
  "mirror_one sw sets =
     map2 (\<lambda>b s. if b \<and> sel_watched s (sw_real sw) then map_option (\<lambda>S. S(sw_synth sw := True)) s else s) (s_in sw) sets"

definition clear_one :: "sel_swap \<Rightarrow> fd_sets \<Rightarrow> fd_sets" where
  "clear_one sw sets =
     map2 (\<lambda>(b, r) s. if b \<and> \<not> r then map_option (\<lambda>S. S(sw_real sw := False)) s else s) (zip (s_in sw) (r_in sw)) sets"

definition sel_unwind :: "fd_sets \<Rightarrow> sel_swap list \<Rightarrow> fd_sets" where
  "sel_unwind sets swaps = fold clear_one swaps (fold mirror_one swaps sets)"

definition sel_recount :: "int \<Rightarrow> fd_sets \<Rightarrow> int" where
  "sel_recount nfds sets =
     (\<Sum>fd\<leftarrow>[0..<min (nat nfds) FD_SETSIZE]. int (length (filter (\<lambda>s. sel_watched s fd) sets)))"

text \<open>
  \<^verbatim>\<open>struct sel_ctx\<close>.  On success select returns the count, the sets and the time left; on failure
  it writes nothing.
\<close>

datatype sel_ctx = Select_ctx "(int \<times> int) option" | Pselect_ctx "(int \<times> int) option" sigmask

record 'k sel_kernel =
  n_select :: "int \<Rightarrow> fd_sets \<Rightarrow> (int \<times> int) option \<Rightarrow> 'k \<Rightarrow> (int + int \<times> fd_sets \<times> (int \<times> int) option) \<times> 'k"
  n_pselect :: "int \<Rightarrow> fd_sets \<Rightarrow> (int \<times> int) option \<Rightarrow> sigmask \<Rightarrow> 'k \<Rightarrow> (int + int \<times> fd_sets) \<times> 'k"

type_synonym 'k sel_result = "(int option \<times> fd_sets \<times> sel_ctx) \<times> 'k world"

definition sel_kernel_call :: "'k sel_kernel \<Rightarrow> sel_ctx \<Rightarrow> int \<Rightarrow> fd_sets \<Rightarrow> 'k world \<Rightarrow> 'k sel_result" where
  "sel_kernel_call Q c nfds sets w =
     (case c of
        Select_ctx tv \<Rightarrow>
          (let (r, w1) = sys (n_select Q nfds sets tv) w
           in case r of
                None \<Rightarrow> ((None, sets, c), w1)
              | Some (n, outs, tv') \<Rightarrow> ((Some n, outs, Select_ctx tv'), w1))
      | Pselect_ctx tmo m \<Rightarrow>
          (let (r, w1) = sys (n_pselect Q nfds sets tmo m) w
           in case r of
                None \<Rightarrow> ((None, sets, c), w1)
              | Some (n, outs) \<Rightarrow> ((Some n, outs, c), w1)))"

definition sel_dispatch ::
  "'k kernel \<Rightarrow> 'k ops_table \<Rightarrow> 'k sel_kernel \<Rightarrow> int \<Rightarrow> fd_sets \<Rightarrow> sel_ctx \<Rightarrow> 'k world \<Rightarrow> 'k sel_result" where
  "sel_dispatch K OPS Q nfds sets c w =
     (let ((rv, sets1, c1), w1) = sel_kernel_call Q c nfds sets w
      in if rv \<noteq> None \<or> errno w1 \<noteq> EPERM \<or> passthru ''select'' w1 then ((rv, sets1, c1), w1)
         else
           (let ((sets2, swaps, eff_nfds), w2) = sel_swap_in K OPS nfds sets1 w1;
                w3 = restore_errno w1 w2
            in if swaps = [] then ((rv, sets2, c1), w3)
               else
                 (let ((rv2, sets3, c2), w4) = sel_kernel_call Q c1 eff_nfds sets2 w3;
                      sets4 = sel_unwind sets3 swaps
                  in case rv2 of
                       None \<Rightarrow> ((None, sets4, c2), w4)
                     | Some n \<Rightarrow>
                         (if n > 0
                          then ((Some (n - sel_recount eff_nfds sets3 + sel_recount nfds sets4), sets4, c2), w4)
                          else ((Some n, sets4, c2), w4)))))"

definition select_shim ::
  "'k kernel \<Rightarrow> 'k ops_table \<Rightarrow> 'k sel_kernel \<Rightarrow> int \<Rightarrow> fd_sets \<Rightarrow> (int \<times> int) option \<Rightarrow> 'k world \<Rightarrow> 'k sel_result" where
  "select_shim K OPS Q nfds sets tv w = sel_dispatch K OPS Q nfds sets (Select_ctx tv) w"

definition pselect_shim ::
  "'k kernel \<Rightarrow> 'k ops_table \<Rightarrow> 'k sel_kernel \<Rightarrow> int \<Rightarrow> fd_sets \<Rightarrow> (int \<times> int) option \<Rightarrow> sigmask \<Rightarrow> 'k world \<Rightarrow> 'k sel_result" where
  "pselect_shim K OPS Q nfds sets tmo m w = sel_dispatch K OPS Q nfds sets (Pselect_ctx tmo m) w"

section \<open>The sets while descriptors are swapped\<close>

text \<open>
  One direction: the caller's set \<open>A\<close> after the descriptors below \<open>m\<close> have been scanned, when \<open>tr\<close>
  gives the real descriptor behind a synthetic one.
\<close>

definition swapped_set :: "(int \<Rightarrow> int) \<Rightarrow> nat \<Rightarrow> fd_set \<Rightarrow> fd_set" where
  "swapped_set tr m A x \<longleftrightarrow> (A x \<and> \<not> (x < m \<and> tr (int x) \<ge> 0)) \<or> (\<exists>y<m. A y \<and> tr (int y) = int x)"

text \<open>Real descriptors are below the set size and are not synthetic themselves.\<close>

definition backed :: "(int \<Rightarrow> int) \<Rightarrow> bool" where
  "backed tr \<longleftrightarrow> (\<forall>fd. tr fd \<ge> 0 \<longrightarrow> tr fd < int FD_SETSIZE \<and> tr (tr fd) < 0)"

lemma backed_ne:
  assumes "backed tr" and "tr x \<ge> 0" and "x \<ge> 0"
  shows "tr y \<noteq> x"
proof
  assume "tr y = x"
  with assms(1,3) have "tr x < 0" by (auto simp: backed_def)
  with assms(2) show False by simp
qed

lemma swapped_set_0 [simp]: "swapped_set tr 0 A = A"
  by (rule ext) (simp add: swapped_set_def)

lemma swapped_set_synth:
  assumes "backed tr" and "tr (int x) \<ge> 0"
  shows "swapped_set tr m A x \<longleftrightarrow> A x \<and> \<not> x < m"
  using assms(2) backed_ne [OF assms] by (auto simp: swapped_set_def)

lemma swapped_set_skip:
  assumes "\<not> (A m \<and> tr (int m) \<ge> 0)"
  shows "swapped_set tr (Suc m) A = swapped_set tr m A"
proof (rule ext)
  fix x
  have "(\<exists>y<Suc m. A y \<and> tr (int y) = int x) \<longleftrightarrow> (\<exists>y<m. A y \<and> tr (int y) = int x)"
    using assms by (metis less_Suc_eq of_nat_0_le_iff)
  then show "swapped_set tr (Suc m) A x = swapped_set tr m A x"
    using assms by (auto simp: swapped_set_def less_Suc_eq)
qed

lemma swapped_set_step:
  assumes "backed tr" and "A m" and "tr (int m) \<ge> 0"
  shows "swapped_set tr (Suc m) A = (swapped_set tr m A)(m := False, nat (tr (int m)) := True)"
proof (rule ext)
  fix x
  have no: "tr y \<noteq> int m" for y using backed_ne [OF assms(1,3)] by simp
  then have ne: "nat (tr (int m)) \<noteq> m" using assms(3) by (metis nat_0_le)
  show "swapped_set tr (Suc m) A x = ((swapped_set tr m A)(m := False, nat (tr (int m)) := True)) x"
  proof (cases "x = nat (tr (int m))")
    case True
    then show ?thesis using assms(2,3) by (auto simp: swapped_set_def)
  next
    case False
    then show ?thesis using assms(2,3) no ne by (auto simp: swapped_set_def less_Suc_eq)
  qed
qed

lemma sel_watched_replace:
  assumes "sel_watched s = swapped_set tr m A" and "backed tr" and "tr (int m) \<ge> 0"
  shows "sel_watched (sel_replace m (nat (tr (int m))) s) = swapped_set tr (Suc m) A"
proof (cases "A m")
  case True
  then have "swapped_set tr m A m" by (simp add: swapped_set_def)
  then obtain S where s: "s = Some S" "S = swapped_set tr m A" using assms(1)
    by (cases s) (auto simp: sel_watched_def fun_eq_iff)
  have "sel_watched (sel_replace m (nat (tr (int m))) s) = S(m := False, nat (tr (int m)) := True)"
    using s \<open>swapped_set tr m A m\<close> by (auto simp: sel_watched_def sel_replace_def fun_eq_iff)
  then show ?thesis using s swapped_set_step [of tr A m, OF assms(2) True assms(3)] by simp
next
  case False
  then have "\<not> sel_watched s m" using assms by (simp add: swapped_set_synth)
  then have "sel_watched (sel_replace m (nat (tr (int m))) s) = sel_watched s"
    by (cases s) (auto simp: sel_watched_def sel_replace_def)
  with False show ?thesis using assms(1) by (simp add: swapped_set_skip)
qed

text \<open>The record made for a swapped descriptor \<open>x\<close> when the caller's sets are \<open>As\<close>.\<close>

definition swap_of :: "(int \<Rightarrow> int) \<Rightarrow> fd_sets \<Rightarrow> nat \<Rightarrow> sel_swap" where
  "swap_of tr As x = \<lparr>sw_synth = x, sw_real = nat (tr (int x)), s_in = map (\<lambda>s. sel_watched s x) As,
     r_in = map (\<lambda>s. swapped_set tr x (sel_watched s) (nat (tr (int x)))) As\<rparr>"

lemma swap_of_sel: "sw_synth (swap_of tr As x) = x" "sw_real (swap_of tr As x) = nat (tr (int x))"
  by (simp_all add: swap_of_def)

definition wants_swap :: "(int \<Rightarrow> int) \<Rightarrow> fd_sets \<Rightarrow> nat \<Rightarrow> bool" where
  "wants_swap tr As x \<longleftrightarrow> (\<exists>s\<in>set As. sel_watched s x) \<and> tr (int x) \<ge> 0"

definition in_step :: "(int \<Rightarrow> int) \<Rightarrow> nat \<Rightarrow> fd_sets \<Rightarrow> fd_sets \<Rightarrow> bool" where
  "in_step tr m As sets \<longleftrightarrow> map sel_watched sets = map (\<lambda>s. swapped_set tr m (sel_watched s)) As"

lemma in_step_length: "in_step tr m As sets \<Longrightarrow> length sets = length As"
  unfolding in_step_def by (metis length_map)

lemma in_step_nth:
  "in_step tr m As sets \<Longrightarrow> d < length As \<Longrightarrow> sel_watched (sets ! d) = swapped_set tr m (sel_watched (As ! d))"
  unfolding in_step_def by (metis length_map nth_map)

lemma in_step_map: "in_step tr m As sets \<Longrightarrow> map (\<lambda>s. sel_watched s x) sets = map (\<lambda>s. swapped_set tr m (sel_watched s) x) As"
  by (rule nth_equalityI) (auto simp: in_step_length in_step_nth)

lemma in_step_I:
  assumes "length sets = length As" and "\<And>d. d < length As \<Longrightarrow> sel_watched (sets ! d) = swapped_set tr m (sel_watched (As ! d))"
  shows "in_step tr m As sets"
  unfolding in_step_def by (rule nth_equalityI) (simp_all add: assms)

lemma in_step_skip:
  assumes "in_step tr m As sets" and "\<not> wants_swap tr As m"
  shows "in_step tr (Suc m) As sets"
proof (rule in_step_I)
  show "length sets = length As" by (rule in_step_length [OF assms(1)])
  fix d assume d: "d < length As"
  then have "\<not> (sel_watched (As ! d) m \<and> tr (int m) \<ge> 0)" using assms(2) nth_mem by (fastforce simp: wants_swap_def)
  then show "sel_watched (sets ! d) = swapped_set tr (Suc m) (sel_watched (As ! d))"
    using in_step_nth [OF assms(1) d] by (simp add: swapped_set_skip)
qed

lemma in_step_replace:
  assumes "in_step tr m As sets" and "backed tr" and "tr (int m) \<ge> 0"
  shows "in_step tr (Suc m) As (map (sel_replace m (nat (tr (int m)))) sets)"
  by (rule in_step_I)
    (simp_all add: in_step_length [OF assms(1)] sel_watched_replace [OF in_step_nth [OF assms(1)] assms(2,3)])

lemma in_step_watched:
  assumes "in_step tr m As sets" and "backed tr" and "tr (int m) \<ge> 0"
  shows "map (\<lambda>s. sel_watched s m) sets = map (\<lambda>s. sel_watched s m) As"
    and "(\<forall>s\<in>set sets. \<not> sel_watched s m) \<longleftrightarrow> \<not> wants_swap tr As m"
proof -
  show eq: "map (\<lambda>s. sel_watched s m) sets = map (\<lambda>s. sel_watched s m) As"
    using in_step_map [OF assms(1), of m] by (simp add: swapped_set_synth [OF assms(2,3)])
  have "(\<exists>s\<in>set sets. sel_watched s m) \<longleftrightarrow> True \<in> set (map (\<lambda>s. sel_watched s m) sets)" by auto
  also have "\<dots> \<longleftrightarrow> (\<exists>s\<in>set As. sel_watched s m)" unfolding eq by auto
  finally show "(\<forall>s\<in>set sets. \<not> sel_watched s m) \<longleftrightarrow> \<not> wants_swap tr As m" using assms(3) by (auto simp: wants_swap_def)
qed

lemma sel_loop_spec:
  assumes env: "steady K S pid" "all_owned K w" "tr = synth_target S w" "backed tr"
    and "same_lib w v" and "in_step tr m As sets" and "m \<le> n"
    and "length swaps + length (filter (wants_swap tr As) [m..<n]) \<le> 64"
  shows "\<exists>e sets' nf'. sel_swap_loop K (wsl_ops K V N T) [m..<n] sets swaps nf v =
      ((sets', swaps @ map (swap_of tr As) (filter (wants_swap tr As) [m..<n]), nf'), v\<lparr>errno := e\<rparr>)
    \<and> in_step tr n As sets' \<and> nf \<le> nf' \<and> nf' \<le> max nf 1024"
  using assms(5-8)
proof (induction "n - m" arbitrary: m sets swaps nf v)
  case 0
  then show ?case by (intro exI [of _ "errno v"] exI [of _ sets] exI [of _ nf]) simp
next
  case (Suc k)
  have mn: "m < n" "k = n - Suc m" "Suc m \<le> n" using Suc.hyps(2) by simp_all
  have split: "[m..<n] = m # [Suc m..<n]" using mn(1) by (rule upt_conv_Cons)
  have skip: ?case if "\<not> wants_swap tr As m"
    "\<exists>e. sel_swap_loop K (wsl_ops K V N T) [m..<n] sets swaps nf v
       = sel_swap_loop K (wsl_ops K V N T) [Suc m..<n] sets swaps nf (v\<lparr>errno := e\<rparr>)"
  proof -
    from that(2) obtain e where
      e: "sel_swap_loop K (wsl_ops K V N T) [m..<n] sets swaps nf v
       = sel_swap_loop K (wsl_ops K V N T) [Suc m..<n] sets swaps nf (v\<lparr>errno := e\<rparr>)" by blast
    have "same_lib w (v\<lparr>errno := e\<rparr>)" using Suc.prems(1) by simp
    from Suc.hyps(1) [OF mn(2) this in_step_skip [OF Suc.prems(2) that(1)] mn(3), of swaps nf] Suc.prems(4) that(1) split e
    show ?thesis by simp
  qed
  obtain e where t: "translate_synth_fd K (wsl_ops K V N T) (int m) v = (tr (int m), v\<lparr>errno := e\<rparr>)"
    using translate_target [OF env(1,2) Suc.prems(1)] env(3) by blast
  show ?case
  proof (cases "tr (int m) \<ge> 0")
    case False
    then have "\<not> wants_swap tr As m" by (simp add: wants_swap_def)
    moreover have "v\<lparr>errno := errno v\<rparr> = v" by simp
    ultimately show ?thesis using False t split
      by (intro skip) (auto intro: exI [of _ e] exI [of _ "errno v"])
  next
    case tr: True
    note wa = in_step_watched [OF Suc.prems(2) env(4) tr]
    show ?thesis
    proof (cases "wants_swap tr As m")
      case False
      moreover have "v\<lparr>errno := errno v\<rparr> = v" by simp
      ultimately show ?thesis using wa(2) split by (intro skip) (auto intro: exI [of _ "errno v"])
    next
      case True
      let ?nf = "if tr (int m) + 1 > nf then tr (int m) + 1 else nf"
      let ?sw = "swaps @ [swap_of tr As m]" and ?sets = "map (sel_replace m (nat (tr (int m)))) sets"
      have b: "tr (int m) < 1024" using env(4) tr by (auto simp: backed_def)
      have few: "length ?sw + length (filter (wants_swap tr As) [Suc m..<n]) \<le> 64" "length swaps < 64"
        using Suc.prems(4) True split by simp_all
      have "same_lib w (v\<lparr>errno := e\<rparr>)" using Suc.prems(1) by simp
      from Suc.hyps(1) [OF mn(2) this in_step_replace [OF Suc.prems(2) env(4) tr] mn(3) few(1), of ?nf]
      obtain e' sets' nf' where
        r: "sel_swap_loop K (wsl_ops K V N T) [Suc m..<n] ?sets ?sw ?nf (v\<lparr>errno := e\<rparr>)
            = ((sets', ?sw @ map (swap_of tr As) (filter (wants_swap tr As) [Suc m..<n]), nf'), v\<lparr>errno := e'\<rparr>)"
          "in_step tr n As sets'" "?nf \<le> nf'" "nf' \<le> max ?nf 1024" by auto
      have sw: "\<lparr>sw_synth = m, sw_real = nat (tr (int m)), s_in = map (\<lambda>s. sel_watched s m) sets,
          r_in = map (\<lambda>s. sel_watched s (nat (tr (int m)))) sets\<rparr> = swap_of tr As m"
        using wa(1) in_step_map [OF Suc.prems(2)] by (simp add: swap_of_def)
      have "sel_swap_loop K (wsl_ops K V N T) [m..<n] sets swaps nf v
          = sel_swap_loop K (wsl_ops K V N T) [Suc m..<n] ?sets ?sw ?nf (v\<lparr>errno := e\<rparr>)"
        using wa(2) True t tr b few(2) sw split by auto
      with r True split b show ?thesis
        by (intro exI [of _ e'] exI [of _ sets'] exI [of _ nf']) (auto split: if_splits)
    qed
  qed
qed

section \<open>Unwinding\<close>

lemma mirror_one_nth:
  assumes "length (s_in sw) = length sets" and "d < length sets" and "sets ! d \<noteq> None \<or> \<not> s_in sw ! d"
  shows "sel_watched (mirror_one sw sets ! d) x \<longleftrightarrow>
    sel_watched (sets ! d) x \<or> s_in sw ! d \<and> x = sw_synth sw \<and> sel_watched (sets ! d) (sw_real sw)"
  using assms by (auto simp: mirror_one_def sel_watched_def split: option.splits)

lemma clear_one_nth:
  assumes "length (s_in sw) = length sets" and "length (r_in sw) = length sets" and "d < length sets"
  shows "sel_watched (clear_one sw sets ! d) x \<longleftrightarrow>
    sel_watched (sets ! d) x \<and> \<not> (s_in sw ! d \<and> \<not> r_in sw ! d \<and> x = sw_real sw)"
  using assms by (auto simp: clear_one_def sel_watched_def split: option.splits)

lemma mirror_one_length [simp]: "length (s_in sw) = length sets \<Longrightarrow> length (mirror_one sw sets) = length sets"
  by (simp add: mirror_one_def)

lemma clear_one_length [simp]:
  "length (s_in sw) = length sets \<Longrightarrow> length (r_in sw) = length sets \<Longrightarrow> length (clear_one sw sets) = length sets"
  by (simp add: clear_one_def)

lemma mirror_one_null: "length (s_in sw) = length sets \<Longrightarrow> d < length sets \<Longrightarrow> mirror_one sw sets ! d = None \<longleftrightarrow> sets ! d = None"
  by (auto simp: mirror_one_def)

lemma mirror_fold:
  assumes "\<forall>a\<in>set swaps. length (s_in a) = length sets" and "d < length sets"
    and "\<forall>a\<in>set swaps. s_in a ! d \<longrightarrow> sets ! d \<noteq> None" and "\<forall>a\<in>set swaps. \<forall>b\<in>set swaps. sw_real a \<noteq> sw_synth b"
  shows "length (fold mirror_one swaps sets) = length sets
    \<and> (\<forall>x. sel_watched (fold mirror_one swaps sets ! d) x \<longleftrightarrow>
        sel_watched (sets ! d) x \<or> (\<exists>a\<in>set swaps. s_in a ! d \<and> x = sw_synth a \<and> sel_watched (sets ! d) (sw_real a)))"
  using assms
proof (induction swaps arbitrary: sets)
  case Nil
  then show ?case by simp
next
  case (Cons a swaps)
  let ?s = "mirror_one a sets"
  have l: "length ?s = length sets" using Cons.prems(1) by simp
  have n: "sel_watched (?s ! d) x \<longleftrightarrow>
      sel_watched (sets ! d) x \<or> s_in a ! d \<and> x = sw_synth a \<and> sel_watched (sets ! d) (sw_real a)" for x
    using Cons.prems by (intro mirror_one_nth) auto
  have null: "?s ! d = None \<longleftrightarrow> sets ! d = None" using Cons.prems(1,2) by (intro mirror_one_null) simp_all
  have ih: "length (fold mirror_one swaps ?s) = length ?s
    \<and> (\<forall>x. sel_watched (fold mirror_one swaps ?s ! d) x \<longleftrightarrow>
        sel_watched (?s ! d) x \<or> (\<exists>b\<in>set swaps. s_in b ! d \<and> x = sw_synth b \<and> sel_watched (?s ! d) (sw_real b)))"
    using Cons.prems l null by (intro Cons.IH) auto
  have "sw_real b \<noteq> sw_synth a" if "b \<in> set swaps" for b using Cons.prems(4) that by simp
  then show ?case using ih l n by auto
qed

lemma clear_fold:
  assumes "\<forall>a\<in>set swaps. length (s_in a) = length sets \<and> length (r_in a) = length sets" and "d < length sets"
  shows "length (fold clear_one swaps sets) = length sets
    \<and> (\<forall>x. sel_watched (fold clear_one swaps sets ! d) x \<longleftrightarrow>
        sel_watched (sets ! d) x \<and> \<not> (\<exists>a\<in>set swaps. s_in a ! d \<and> \<not> r_in a ! d \<and> x = sw_real a))"
  using assms
proof (induction swaps arbitrary: sets)
  case Nil
  then show ?case by simp
next
  case (Cons a swaps)
  let ?s = "clear_one a sets"
  have l: "length ?s = length sets" using Cons.prems(1) by simp
  have n: "sel_watched (?s ! d) x \<longleftrightarrow> sel_watched (sets ! d) x \<and> \<not> (s_in a ! d \<and> \<not> r_in a ! d \<and> x = sw_real a)" for x
    using Cons.prems by (intro clear_one_nth) auto
  have "length (fold clear_one swaps ?s) = length ?s
    \<and> (\<forall>x. sel_watched (fold clear_one swaps ?s ! d) x \<longleftrightarrow>
        sel_watched (?s ! d) x \<and> \<not> (\<exists>a\<in>set swaps. s_in a ! d \<and> \<not> r_in a ! d \<and> x = sw_real a))"
    using Cons.prems l by (intro Cons.IH) auto
  then show ?case using l n by auto
qed

text \<open>
  What the caller must see: a watched descriptor is ready when the real descriptor behind it
  is, or it itself if there is none.
\<close>

lemma unwind_one:
  assumes "backed tr" and "\<And>x. A x \<Longrightarrow> x < n" and "\<And>x. out x \<Longrightarrow> swapped_set tr n A x"
  shows "(out x \<or> (\<exists>y<n. A y \<and> tr (int y) \<ge> 0 \<and> x = y \<and> out (nat (tr (int y)))))
      \<and> \<not> (\<exists>y<n. A y \<and> tr (int y) \<ge> 0 \<and> \<not> swapped_set tr y A (nat (tr (int y))) \<and> x = nat (tr (int y)))
    \<longleftrightarrow> A x \<and> out (if tr (int x) \<ge> 0 then nat (tr (int x)) else x)"
proof (cases "tr (int x) \<ge> 0")
  case True
  have "\<not> out x" using assms(2,3) swapped_set_synth [OF assms(1) True] by blast
  moreover have "x \<noteq> nat (tr (int y))" if "tr (int y) \<ge> 0" for y
    using backed_ne [OF assms(1) True, of "int y"] that by auto
  ultimately show ?thesis using True assms(2) by auto
next
  case F: False
  show ?thesis
  proof (cases "A x")
    case True
    then have "swapped_set tr y A x" for y using F by (simp add: swapped_set_def)
    with True F show ?thesis by auto
  next
    case False
    have "\<exists>y<n. A y \<and> tr (int y) \<ge> 0 \<and> \<not> swapped_set tr y A (nat (tr (int y))) \<and> x = nat (tr (int y))" if "out x"
    proof -
      from assms(3) [OF that] False have "\<exists>y<n. A y \<and> tr (int y) = int x" by (simp add: swapped_set_def)
      then obtain y where y: "y < n \<and> A y \<and> tr (int y) = int x" "\<forall>z<y. \<not> (z < n \<and> A z \<and> tr (int z) = int x)"
        using exists_least_iff [of "\<lambda>y. y < n \<and> A y \<and> tr (int y) = int x"] by blast
      then have "\<not> swapped_set tr y A x" using False by (auto simp: swapped_set_def)
      with y(1) show ?thesis by (intro exI [of _ y]) simp
    qed
    with False F show ?thesis by auto
  qed
qed

text \<open>
  select(2): on success each set comes back as a subset of itself, and the count is the
  number of bits left, of descriptors below \<^verbatim>\<open>nfds\<close>.
\<close>

definition sel_obeys :: "'k sel_kernel \<Rightarrow> bool" where
  "sel_obeys Q \<longleftrightarrow> (\<forall>c n sets w m outs c' w'. sel_kernel_call Q c n sets w = ((Some m, outs, c'), w') \<longrightarrow>
     length outs = length sets \<and> m = sel_recount n outs
     \<and> (\<forall>d<length sets. (outs ! d = None \<longleftrightarrow> sets ! d = None) \<and> (\<forall>x. sel_watched (outs ! d) x \<longrightarrow> sel_watched (sets ! d) x)))"

lemma call_shape:
  assumes "sel_obeys Q" and "sel_kernel_call Q c n sets w = ((rv, outs, c'), w')"
  shows "length outs = length sets" and "d < length sets \<Longrightarrow> outs ! d = None \<longleftrightarrow> sets ! d = None"
    and "d < length sets \<Longrightarrow> sel_watched (outs ! d) x \<Longrightarrow> sel_watched (sets ! d) x"
    and "rv = None \<Longrightarrow> outs = sets" and "rv = Some m \<Longrightarrow> m = sel_recount n outs"
proof -
  have none: "rv = None \<Longrightarrow> outs = sets" using assms(2)
    by (auto simp: sel_kernel_call_def Let_def split: sel_ctx.splits option.splits prod.splits)
  show "length outs = length sets" "d < length sets \<Longrightarrow> outs ! d = None \<longleftrightarrow> sets ! d = None"
    "d < length sets \<Longrightarrow> sel_watched (outs ! d) x \<Longrightarrow> sel_watched (sets ! d) x" "rv = None \<Longrightarrow> outs = sets"
    "rv = Some m \<Longrightarrow> m = sel_recount n outs"
    using none assms unfolding sel_obeys_def by (cases rv; blast)+
qed

lemma unwind_fold:
  assumes "backed tr" and mem: "\<And>a. a \<in> set swaps \<longleftrightarrow> (\<exists>y<n. wants_swap tr sets y \<and> a = swap_of tr sets y)"
    and l: "length outs = length sets" and d: "d < length sets"
    and live: "\<forall>y<n. sel_watched (sets ! d) y \<and> wants_swap tr sets y \<longrightarrow> outs ! d \<noteq> None"
  shows "length (sel_unwind outs swaps) = length sets
    \<and> (\<forall>x. sel_watched (sel_unwind outs swaps ! d) x \<longleftrightarrow>
        (sel_watched (outs ! d) x \<or> (\<exists>a\<in>set swaps. s_in a ! d \<and> x = sw_synth a \<and> sel_watched (outs ! d) (sw_real a)))
        \<and> \<not> (\<exists>a\<in>set swaps. s_in a ! d \<and> \<not> r_in a ! d \<and> x = sw_real a))"
proof -
  have m: "length (fold mirror_one swaps outs) = length outs
    \<and> (\<forall>x. sel_watched (fold mirror_one swaps outs ! d) x \<longleftrightarrow>
        sel_watched (outs ! d) x \<or> (\<exists>a\<in>set swaps. s_in a ! d \<and> x = sw_synth a \<and> sel_watched (outs ! d) (sw_real a)))"
  proof (rule mirror_fold)
    show "\<forall>a\<in>set swaps. length (s_in a) = length outs" using mem l by (auto simp: swap_of_def)
    show "d < length outs" using d l by simp
    show "\<forall>a\<in>set swaps. s_in a ! d \<longrightarrow> outs ! d \<noteq> None" using mem d live by (auto simp: swap_of_def)
    show "\<forall>a\<in>set swaps. \<forall>b\<in>set swaps. sw_real a \<noteq> sw_synth b"
    proof (intro ballI)
      fix a b assume "a \<in> set swaps" "b \<in> set swaps"
      then obtain y z where "tr (int y) \<ge> 0" "a = swap_of tr sets y" "tr (int z) \<ge> 0" "b = swap_of tr sets z"
        using mem by (auto simp: wants_swap_def)
      then show "sw_real a \<noteq> sw_synth b" using backed_ne [OF assms(1), of "int z" "int y"] by (auto simp: swap_of_def)
    qed
  qed
  have c: "length (fold clear_one swaps (fold mirror_one swaps outs)) = length outs
    \<and> (\<forall>x. sel_watched (fold clear_one swaps (fold mirror_one swaps outs) ! d) x \<longleftrightarrow>
        sel_watched (fold mirror_one swaps outs ! d) x \<and> \<not> (\<exists>a\<in>set swaps. s_in a ! d \<and> \<not> r_in a ! d \<and> x = sw_real a))"
  proof -
    have "\<forall>a\<in>set swaps. length (s_in a) = length (fold mirror_one swaps outs) \<and> length (r_in a) = length (fold mirror_one swaps outs)"
      using m l mem by (auto simp: swap_of_def)
    from clear_fold [OF this, of d] show ?thesis using m l d by simp
  qed
  show ?thesis unfolding sel_unwind_def using m c l by simp
qed

lemma unwind_spec:
  assumes "backed tr" and "\<forall>s\<in>set sets. \<forall>x. sel_watched s x \<longrightarrow> x < n" and "in_step tr n sets sets'"
    and "length outs = length sets'" and "d < length sets" and "outs ! d = None \<longleftrightarrow> sets' ! d = None"
    and "\<And>x. sel_watched (outs ! d) x \<Longrightarrow> sel_watched (sets' ! d) x"
    and "swaps = map (swap_of tr sets) (filter (wants_swap tr sets) [0..<n])"
  shows "length (sel_unwind outs swaps) = length sets
    \<and> (sel_watched (sel_unwind outs swaps ! d) x \<longleftrightarrow>
        sel_watched (sets ! d) x \<and> sel_watched (outs ! d) (if tr (int x) \<ge> 0 then nat (tr (int x)) else x))"
proof -
  have l: "length outs = length sets" using assms(4) in_step_length [OF assms(3)] by simp
  have mem: "a \<in> set swaps \<longleftrightarrow> (\<exists>y<n. wants_swap tr sets y \<and> a = swap_of tr sets y)" for a
    using assms(8) by auto
  have wd: "wants_swap tr sets y \<and> sel_watched (sets ! d) y \<longleftrightarrow> tr (int y) \<ge> 0 \<and> sel_watched (sets ! d) y" for y
    using assms(5) nth_mem by (fastforce simp: wants_swap_def)
  have live: "outs ! d \<noteq> None" if "sel_watched (sets ! d) y" "wants_swap tr sets y" "y < n" for y
  proof -
    have "swapped_set tr n (sel_watched (sets ! d)) (nat (tr (int y)))"
      using that by (auto simp: swapped_set_def wants_swap_def)
    then have "sel_watched (sets' ! d) (nat (tr (int y)))" using in_step_nth [OF assms(3,5)] by simp
    then show ?thesis using assms(6) by (auto simp: sel_watched_def)
  qed
  then have "\<forall>y<n. sel_watched (sets ! d) y \<and> wants_swap tr sets y \<longrightarrow> outs ! d \<noteq> None" by blast
  note f = unwind_fold [OF assms(1) mem l assms(5) this]
  have ex: "(\<exists>a\<in>set swaps. s_in a ! d \<and> P a) \<longleftrightarrow> (\<exists>y<n. sel_watched (sets ! d) y \<and> tr (int y) \<ge> 0 \<and> P (swap_of tr sets y))" for P
  proof -
    have "s_in (swap_of tr sets y) ! d = sel_watched (sets ! d) y" for y using assms(5) by (simp add: swap_of_def)
    then have si: "s_in (swap_of tr sets y) ! d \<longleftrightarrow> sel_watched (sets ! d) y" for y by simp
    have "(\<exists>a\<in>set swaps. s_in a ! d \<and> P a) \<longleftrightarrow>
        (\<exists>y<n. wants_swap tr sets y \<and> s_in (swap_of tr sets y) ! d \<and> P (swap_of tr sets y))"
      unfolding Bex_def mem by metis
    also have "\<dots> \<longleftrightarrow> (\<exists>y<n. sel_watched (sets ! d) y \<and> tr (int y) \<ge> 0 \<and> P (swap_of tr sets y))"
      unfolding si using wd by metis
    finally show ?thesis .
  qed
  have r: "r_in (swap_of tr sets y) ! d = swapped_set tr y (sel_watched (sets ! d)) (nat (tr (int y)))" for y
    using assms(5) by (simp add: swap_of_def)
  have "sel_watched (sel_unwind outs swaps ! d) x \<longleftrightarrow>
     (sel_watched (outs ! d) x \<or> (\<exists>y<n. sel_watched (sets ! d) y \<and> tr (int y) \<ge> 0 \<and> x = y \<and> sel_watched (outs ! d) (nat (tr (int y)))))
      \<and> \<not> (\<exists>y<n. sel_watched (sets ! d) y \<and> tr (int y) \<ge> 0 \<and> \<not> swapped_set tr y (sel_watched (sets ! d)) (nat (tr (int y))) \<and> x = nat (tr (int y)))"
    using f [THEN conjunct2, rule_format, of x]
      ex [of "\<lambda>a. x = sw_synth a \<and> sel_watched (outs ! d) (sw_real a)"] ex [of "\<lambda>a. \<not> r_in a ! d \<and> x = sw_real a"]
    unfolding swap_of_sel r by blast
  also have "\<dots> \<longleftrightarrow> sel_watched (sets ! d) x \<and> sel_watched (outs ! d) (if tr (int x) \<ge> 0 then nat (tr (int x)) else x)"
  proof (rule unwind_one [OF assms(1)])
    show "y < n" if "sel_watched (sets ! d) y" for y using assms(2) nth_mem [OF assms(5)] that by blast
    show "swapped_set tr n (sel_watched (sets ! d)) y" if "sel_watched (outs ! d) y" for y
      using assms(7) [OF that] in_step_nth [OF assms(3,5)] by simp
  qed
  finally show ?thesis using f by simp
qed

lemma sets_restored:
  assumes "in_step tr n sets sets'" and "\<forall>s\<in>set sets. \<forall>x. sel_watched s x \<longrightarrow> x < n" and "length res = length sets"
    and un: "\<And>d x. d < length sets \<Longrightarrow> sel_watched (res ! d) x \<longleftrightarrow>
      sel_watched (sets ! d) x \<and> sel_watched (sets' ! d) (if tr (int x) \<ge> 0 then nat (tr (int x)) else x)"
  shows "map sel_watched res = map sel_watched sets"
proof (rule nth_equalityI)
  fix d assume "d < length (map sel_watched res)"
  then have d: "d < length sets" using assms(3) by simp
  have "sel_watched (res ! d) x = sel_watched (sets ! d) x" for x
  proof -
    have "x < n" if "sel_watched (sets ! d) x" using assms(2) nth_mem [OF d] that by blast
    then have "swapped_set tr n (sel_watched (sets ! d)) (if tr (int x) \<ge> 0 then nat (tr (int x)) else x)"
      if "sel_watched (sets ! d) x" using that by (auto simp: swapped_set_def)
    then show ?thesis using un [OF d, of x] in_step_nth [OF assms(1) d] by auto
  qed
  then show "map sel_watched res ! d = map sel_watched sets ! d" using d assms(3) by (simp add: fun_eq_iff)
qed (simp add: assms(3))

lemma sel_call_same_lib: "same_lib w (snd (sel_kernel_call Q c n sets v)) = same_lib w v"
  by (simp add: sel_kernel_call_def Let_def case_prod_beta split: sel_ctx.split option.split)

section \<open>The property\<close>


text \<open>A kernel that refuses descriptor 4, the placeholder, and finds every other one ready.\<close>

definition example_select :: "unit sel_kernel" where
  "example_select = \<lparr>
     n_select = (\<lambda>n sets tv k. (if \<exists>s\<in>set sets. sel_watched s 4 then Inl EPERM else Inr (sel_recount n sets, sets, tv), k)),
     n_pselect = (\<lambda>n sets tmo m k. (Inl EINVAL, k))\<rparr>"

lemma example_select_obeys: "sel_obeys example_select"
  by (auto simp: sel_obeys_def sel_kernel_call_def example_select_def sys_def split: sel_ctx.splits if_splits)


end
