(* ===== verification/Epoll.thy ===== *)
theory Epoll
  imports Handlers "HOL-Library.Signed_Division"
begin

text \<open>
  epoll.c: the kernel refuses to watch the O_PATH placeholder of a synthetic descriptor with
  an errno of its own, and only then is the descriptor behind it watched instead;
  \<^verbatim>\<open>epoll_pwait2\<close>, which WSL1 lacks, becomes \<^verbatim>\<open>epoll_pwait\<close> with a timeout in milliseconds.
\<close>

section \<open>The shims\<close>

abbreviation (input) EPOLL_CTL_ADD :: int where "EPOLL_CTL_ADD \<equiv> 1"
abbreviation (input) EPOLL_CTL_DEL :: int where "EPOLL_CTL_DEL \<equiv> 2"
abbreviation (input) EPOLL_CTL_MOD :: int where "EPOLL_CTL_MOD \<equiv> 3"

record epoll_event =
  ev_events :: "32 word"
  ev_data :: "64 word"

type_synonym sigset = "64 word"

text \<open>The C library's calls; a wait returns the events it filled in.\<close>

record 'k epoll_kernel =
  n_epoll_ctl :: "int \<Rightarrow> int \<Rightarrow> int \<Rightarrow> epoll_event option \<Rightarrow> 'k \<Rightarrow> (int + int) \<times> 'k"
  n_epoll_create :: "int \<Rightarrow> 'k \<Rightarrow> (int + int) \<times> 'k"
  n_epoll_create1 :: "int \<Rightarrow> 'k \<Rightarrow> (int + int) \<times> 'k"
  n_epoll_wait :: "int \<Rightarrow> int \<Rightarrow> int \<Rightarrow> 'k \<Rightarrow> (int + epoll_event list) \<times> 'k"
  n_epoll_pwait :: "int \<Rightarrow> int \<Rightarrow> int \<Rightarrow> sigset option \<Rightarrow> 'k \<Rightarrow> (int + epoll_event list) \<times> 'k"
  n_epoll_pwait2 :: "int \<Rightarrow> int \<Rightarrow> timespec option \<Rightarrow> sigset option \<Rightarrow> 'k \<Rightarrow> (int + epoll_event list) \<times> 'k"

text \<open>The errno with which the kernel refuses an O_PATH descriptor, by operation.\<close>

definition epoll_canary :: "int \<Rightarrow> int option" where
  "epoll_canary ctl =
     (if ctl = EPOLL_CTL_ADD then Some EPERM
      else if ctl = EPOLL_CTL_MOD \<or> ctl = EPOLL_CTL_DEL then Some ENOENT else None)"

definition epoll_ctl_shim ::
  "'k kernel \<Rightarrow> 'k ops_table \<Rightarrow> 'k epoll_kernel \<Rightarrow> int \<Rightarrow> int \<Rightarrow> int \<Rightarrow> epoll_event option \<Rightarrow> ('k, int) call" where
  "epoll_ctl_shim K OPS E epfd ctl fd event w =
     (let (r, w1) = sys (n_epoll_ctl E epfd ctl fd event) w
      in if r = Some 0 \<or> passthru ''epoll_ctl'' w1 then (r, w1)
         else
           (case epoll_canary ctl of
              None \<Rightarrow> (r, w1)
            | Some expected \<Rightarrow>
                (if errno w1 \<noteq> expected then (r, w1)
                 else
                   (let (real, w2) = wslcompat_synth_passthru K OPS fd SYNTH_OP_POLL w1;
                        w3 = restore_errno w1 w2
                    in if real < 0 then (r, w3) else sys (n_epoll_ctl E epfd ctl real event) w3))))"

definition epoll_create_shim :: "'k epoll_kernel \<Rightarrow> int \<Rightarrow> ('k, int) call" where
  "epoll_create_shim E n = sys (n_epoll_create E n)"

definition epoll_create1_shim :: "'k epoll_kernel \<Rightarrow> int \<Rightarrow> ('k, int) call" where
  "epoll_create1_shim E flags = sys (n_epoll_create1 E flags)"

definition epoll_wait_shim :: "'k epoll_kernel \<Rightarrow> int \<Rightarrow> int \<Rightarrow> int \<Rightarrow> ('k, epoll_event list) call" where
  "epoll_wait_shim E epfd maxevents timeout = sys (n_epoll_wait E epfd maxevents timeout)"

definition epoll_pwait_shim :: "'k epoll_kernel \<Rightarrow> int \<Rightarrow> int \<Rightarrow> int \<Rightarrow> sigset option \<Rightarrow> ('k, epoll_event list) call" where
  "epoll_pwait_shim E epfd maxevents timeout sigmask = sys (n_epoll_pwait E epfd maxevents timeout sigmask)"

text \<open>The expression is a 64-bit \<^verbatim>\<open>long\<close>, assigned to a 32-bit \<^verbatim>\<open>int\<close>.\<close>

definition timeout_ms :: "timespec \<Rightarrow> int" where
  "timeout_ms ts = sint (ucast (word_of_int (fst ts * 1000 + (snd ts + 999999) sdiv 1000000) :: 64 word) :: 32 word)"

definition epoll_pwait2_shim ::
  "'k epoll_kernel \<Rightarrow> int \<Rightarrow> int \<Rightarrow> timespec option \<Rightarrow> sigset option \<Rightarrow> ('k, epoll_event list) call" where
  "epoll_pwait2_shim E epfd maxevents timeout sigmask w =
     (let (r, w1) = sys (n_epoll_pwait2 E epfd maxevents timeout sigmask) w
      in if r \<noteq> None \<or> errno w1 \<noteq> ENOSYS \<or> passthru ''epoll_pwait2'' w1 then (r, w1)
         else epoll_pwait_shim E epfd maxevents (case timeout of None \<Rightarrow> -1 | Some ts \<Rightarrow> timeout_ms ts) sigmask w1)"

section \<open>Properties\<close>


definition example_epoll :: "unit epoll_kernel" where
  "example_epoll = \<lparr>n_epoll_ctl = (\<lambda>_ _ fd _ k. (if fd = 20 then Inr 0 else Inl EPERM, k)),
     n_epoll_create = (\<lambda>_ k. (Inl ENOSYS, k)), n_epoll_create1 = (\<lambda>_ k. (Inl ENOSYS, k)),
     n_epoll_wait = (\<lambda>_ _ _ k. (Inr [], k)), n_epoll_pwait = (\<lambda>_ _ _ _ k. (Inr [], k)),
     n_epoll_pwait2 = (\<lambda>_ _ _ _ k. (Inl ENOSYS, k))\<rparr>"


text \<open>
  C36: The timeout of the \<^verbatim>\<open>epoll_pwait2\<close> fallback is the exact number of milliseconds, rounded
  up so that the wait is never too short, exactly when that number fits an \<^verbatim>\<open>int\<close>.  Beyond, about
  24.8 days, the conversion wraps and the wait is some other time.
\<close>

theorem timeout_ms_exact:
  assumes "0 \<le> sec" and "sec < 2 ^ 53" and "0 \<le> nsec" and "nsec < 1000000000"
    and "sec * 1000000000 + nsec \<le> ms * 1000000" and "ms * 1000000 < sec * 1000000000 + nsec + 1000000"
  shows "timeout_ms (sec, nsec) = ms \<longleftrightarrow> ms \<le> 2147483647"
proof -
  define q where "q = (nsec + 999999) div 1000000"
  have qb: "q * 1000000 \<le> nsec + 999999" "nsec < q * 1000000 + 1"
    using div_mult_mod_eq [of "nsec + 999999" 1000000] pos_mod_bound [of 1000000 "nsec + 999999"]
      pos_mod_sign [of 1000000 "nsec + 999999"] unfolding q_def by linarith+
  have "(ms - sec * 1000 - q) * 1000000 < 1 * 1000000" "(-1) * 1000000 < (ms - sec * 1000 - q) * 1000000"
    using qb assms(5,6) by (simp_all add: algebra_simps)
  then have ms: "ms = sec * 1000 + q" by simp
  have qs: "(nsec + 999999) sdiv 1000000 = q"
    using assms(3) by (simp add: signed_divide_int_def q_def)
  have b: "0 \<le> ms" "ms < 2 ^ 63" using ms qb assms(1-4) by auto
  have "ucast (word_of_int ms :: 64 word) = (word_of_int ms :: 32 word)" by transfer simp
  then have "timeout_ms (sec, nsec) = signed_take_bit 31 ms"
    by (simp add: timeout_ms_def qs ms [symmetric] sint_sbintrunc')
  with b show ?thesis by (auto simp: signed_take_bit_int_eq_self_iff)
qed

theorem timeout_ms_exact_witness: "timeout_ms (2147483, 646000001) = 2147483647 \<and> timeout_ms (2147483, 647000001) \<noteq> 2147483648"
  using timeout_ms_exact [of 2147483 646000001 2147483647] timeout_ms_exact [of 2147483 647000001 2147483648] by simp

end
