(* ===== verification/Mmap.thy ===== *)
theory Mmap
  imports Dispatch
begin

text \<open>
  mmap.c and mincore.c.  The mmap shim retries a refused mapping: on a synthetic descriptor
  through its handler or the descriptor behind it; MAP_FIXED_NOREPLACE, which WSL1 lacks, by
  reserving the range first and mapping over the reservation; MAP_LOCKED by locking
  afterwards.  Addresses and lengths are 64-bit words; \<open>None\<close> is MAP_FAILED.
\<close>

section \<open>The shims\<close>

abbreviation (input) MAP_PRIVATE :: int where "MAP_PRIVATE \<equiv> 0x02"
abbreviation (input) MAP_FIXED :: int where "MAP_FIXED \<equiv> 0x10"
abbreviation (input) MAP_ANONYMOUS :: int where "MAP_ANONYMOUS \<equiv> 0x20"
abbreviation (input) MAP_LOCKED :: int where "MAP_LOCKED \<equiv> 0x2000"
abbreviation (input) MAP_FIXED_NOREPLACE :: int where "MAP_FIXED_NOREPLACE \<equiv> 0x100000"
abbreviation (input) PROT_NONE :: int where "PROT_NONE \<equiv> 0"
abbreviation (input) MS_ASYNC :: int where "MS_ASYNC \<equiv> 1"

record 'k mmap_kernel =
  n_mmap :: "mmap_args \<Rightarrow> 'k \<Rightarrow> (int + 64 word) \<times> 'k"
  s_mmap :: "mmap_args \<Rightarrow> 'k \<Rightarrow> (int + 64 word) \<times> 'k"
  s_munmap :: "64 word \<Rightarrow> 64 word \<Rightarrow> 'k \<Rightarrow> (int + int) \<times> 'k"
  s_mlock :: "64 word \<Rightarrow> 64 word \<Rightarrow> 'k \<Rightarrow> (int + int) \<times> 'k"
  n_mincore :: "64 word \<Rightarrow> 64 word \<Rightarrow> 'k \<Rightarrow> (int + bytes) \<times> 'k"
  n_msync :: "64 word \<Rightarrow> 64 word \<Rightarrow> int \<Rightarrow> 'k \<Rightarrow> (int + int) \<times> 'k"

text \<open>\<^verbatim>\<open>mmap_synth_fallback\<close>; the descriptor argument it updates is returned with the result.\<close>

definition mmap_synth_fallback ::
  "'k kernel \<Rightarrow> 'k ops_table \<Rightarrow> 'k mmap_kernel \<Rightarrow> mmap_args \<Rightarrow> 'k world \<Rightarrow> (64 word option \<times> int) \<times> 'k world" where
  "mmap_synth_fallback K OPS M a w =
     (let (e, w1) = wslcompat_synth_pin_fd K OPS (ma_fd a) w
      in case e of
           None \<Rightarrow> ((None, ma_fd a), w1\<lparr>errno := EBADF\<rparr>)
         | Some i \<Rightarrow>
             (case op_mmap (entry_ops OPS i w1) of
                Some f \<Rightarrow> (let (r, w2) = f i a w1 in ((r, ma_fd a), wslcompat_synth_unpin K OPS i w2))
              | None \<Rightarrow>
                  (case op_passthru (entry_ops OPS i w1) of
                     Some p \<Rightarrow>
                       (let (real, w2) = p i SYNTH_OP_IO w1
                        in if real < 0
                           then ((None, real), wslcompat_synth_unpin K OPS i (w2\<lparr>errno := ENODEV\<rparr>))
                           else (let (r, w3) = sys (n_mmap M (a\<lparr>ma_fd := real\<rparr>)) w2
                                 in ((r, real), wslcompat_synth_unpin K OPS i w3)))
                   | None \<Rightarrow> ((None, ma_fd a), wslcompat_synth_unpin K OPS i (w1\<lparr>errno := ENODEV\<rparr>)))))"

text \<open>The reservation of a MAP_FIXED_NOREPLACE range, and its failure exits.\<close>

definition mmap_probe :: "'k mmap_kernel \<Rightarrow> mmap_args \<Rightarrow> ('k, 64 word) call" where
  "mmap_probe M a w =
     (if ma_addr a = 0 then fail_with EPERM w
      else if ma_addr a AND 0xfff \<noteq> 0 then fail_with EINVAL w
      else
        (let (probe, w1) = sys (s_mmap M \<lparr>ma_addr = ma_addr a, ma_length = ma_length a, ma_prot = PROT_NONE,
                                        ma_flags = MAP_PRIVATE OR MAP_ANONYMOUS, ma_fd = -1, ma_offset = 0\<rparr>) w
         in case probe of
              None \<Rightarrow> (None, w1)
            | Some p \<Rightarrow>
                (if p \<noteq> ma_addr a then fail_with EEXIST (snd (sys (s_munmap M p (ma_length a)) w1))
                 else (Some p, w1))))"

text \<open>The mapping itself with the emulated flags stripped; \<open>probe\<close> is the reservation, if any.\<close>

definition mmap_retry ::
  "'k mmap_kernel \<Rightarrow> mmap_args \<Rightarrow> 64 word option \<Rightarrow> int \<Rightarrow> ('k, 64 word) call" where
  "mmap_retry M a probe flags w =
     (let (r, w1) = sys (n_mmap M (a\<lparr>ma_flags := flags\<rparr>)) w
      in case r of
           None \<Rightarrow>
             (case probe of
                Some p \<Rightarrow> (None, restore_errno w1 (snd (sys (s_munmap M p (ma_length a)) w1)))
              | None \<Rightarrow> (None, w1))
         | Some p \<Rightarrow>
             (if has_flag (ma_flags a) MAP_LOCKED
              then (let (l, w2) = sys (s_mlock M p (ma_length a)) w1
                    in if l \<noteq> Some 0 then fail_with ENOMEM (snd (sys (s_munmap M p (ma_length a)) w2))
                       else (Some p, w2))
              else (Some p, w1)))"

definition mmap_emulate :: "'k mmap_kernel \<Rightarrow> mmap_args \<Rightarrow> ('k, 64 word) call" where
  "mmap_emulate M a w =
     (let flags = (ma_flags a AND NOT MAP_FIXED_NOREPLACE) AND NOT MAP_LOCKED
      in if has_flag (ma_flags a) MAP_FIXED_NOREPLACE
         then (let (probe, w1) = mmap_probe M a w
               in case probe of
                    None \<Rightarrow> (None, w1)
                  | Some p \<Rightarrow> mmap_retry M a (Some p) (flags OR MAP_FIXED) w1)
         else mmap_retry M a None flags w)"

definition mmap_shim ::
  "'k kernel \<Rightarrow> 'k ops_table \<Rightarrow> 'k mmap_kernel \<Rightarrow> mmap_args \<Rightarrow> ('k, 64 word) call" where
  "mmap_shim K OPS M a w =
     (let (r, w1) = sys (n_mmap M a) w
      in if r \<noteq> None \<or> passthru ''mmap'' w1 then (r, w1)
         else
           (let ((r2, fd), w2) = (if errno w1 = EBADF then mmap_synth_fallback K OPS M a w1 else ((None, ma_fd a), w1))
            in if r2 \<noteq> None then (r2, w2)
               else if errno w2 \<noteq> EINVAL \<and> errno w2 \<noteq> EOPNOTSUPP then (None, w2)
               else if \<not> has_flag (ma_flags a) (MAP_FIXED_NOREPLACE OR MAP_LOCKED) then (None, w2)
               else mmap_emulate M (a\<lparr>ma_fd := fd\<rparr>) w2))"

text \<open>mincore: \<open>Some v\<close> are the bytes stored in the vector.\<close>

definition mincore_shim :: "'k mmap_kernel \<Rightarrow> 64 word \<Rightarrow> 64 word \<Rightarrow> ('k, bytes) call" where
  "mincore_shim M addr len w =
     (if passthru ''mincore'' w then sys (n_mincore M addr len) w
      else
        (let (r, w1) = sys (n_msync M addr len MS_ASYNC) w
         in if r \<noteq> Some 0 then (None, w1)
            else (Some (replicate (unat ((len + 4096 - 1) div 4096)) (CHR 0x01)), w1)))"

section \<open>Address spaces\<close>

text \<open>The bytes of a mapping at \<open>p\<close>.\<close>

definition span :: "64 word \<Rightarrow> 64 word \<Rightarrow> nat set" where
  "span p len = {unat p..<unat p + unat len}"

text \<open>
  What the mapping calls of a kernel do to an address space \<open>vm\<close>, which gives what is mapped
  at each address: without MAP_FIXED a mapping goes to free addresses only, with it to the
  address asked for, replacing what is there; nothing else changes; failures change nothing;
  a range that is mapped can be unmapped.
\<close>

definition maps :: "('k \<Rightarrow> nat \<rightharpoonup> 'm) \<Rightarrow> (mmap_args \<Rightarrow> 'k \<Rightarrow> (int + 64 word) \<times> 'k) \<Rightarrow> bool" where
  "maps vm f \<longleftrightarrow> (\<forall>a k. case f a k of
     (Inl _, k') \<Rightarrow> vm k' = vm k
   | (Inr p, k') \<Rightarrow>
       (\<forall>x. x \<notin> span p (ma_length a) \<longrightarrow> vm k' x = vm k x)
       \<and> (\<forall>x\<in>span p (ma_length a). vm k' x \<noteq> None)
       \<and> (if has_flag (ma_flags a) MAP_FIXED then p = ma_addr a
          else (\<forall>x\<in>span p (ma_length a). vm k x = None)))"

definition unmaps :: "('k \<Rightarrow> nat \<rightharpoonup> 'm) \<Rightarrow> (64 word \<Rightarrow> 64 word \<Rightarrow> 'k \<Rightarrow> (int + int) \<times> 'k) \<Rightarrow> bool" where
  "unmaps vm f \<longleftrightarrow> (\<forall>p len k. (\<forall>x\<in>span p len. vm k x \<noteq> None) \<longrightarrow>
     (\<forall>x. vm (snd (f p len k)) x = (if x \<in> span p len then None else vm k x)))"

definition locks :: "('k \<Rightarrow> nat \<rightharpoonup> 'm) \<Rightarrow> (64 word \<Rightarrow> 64 word \<Rightarrow> 'k \<Rightarrow> (int + int) \<times> 'k) \<Rightarrow> bool" where
  "locks vm f \<longleftrightarrow> (\<forall>p len k. vm (snd (f p len k)) = vm k)"

lemma sys_kst: "kst (snd (sys f w)) = snd (f (kst w))"
  by (simp add: sys_def split: prod.split sum.split)

lemma fail_with_kst [simp]: "kst (snd (fail_with e w)) = kst w" "fst (fail_with e w) = None"
  by (simp_all add: fail_with_def)

lemma maps_fail:
  assumes "maps vm f" and "sys (f a) w = (None, w')"
  shows "vm (kst w') = vm (kst w)"
proof -
  obtain e k where "f a (kst w) = (Inl e, k)" "w' = w\<lparr>kst := k, errno := e\<rparr>"
    using assms(2) by (auto simp: sys_def split: prod.splits sum.splits)
  then show ?thesis
    using assms(1) unfolding maps_def by (elim allE [of _ a] allE [of _ "kst w"]) simp
qed

lemma maps_ok:
  assumes "maps vm f" and "sys (f a) w = (Some p, w')"
  shows "x \<notin> span p (ma_length a) \<Longrightarrow> vm (kst w') x = vm (kst w) x"
    and "x \<in> span p (ma_length a) \<Longrightarrow> vm (kst w') x \<noteq> None"
    and "\<not> has_flag (ma_flags a) MAP_FIXED \<Longrightarrow> x \<in> span p (ma_length a) \<Longrightarrow> vm (kst w) x = None"
    and "has_flag (ma_flags a) MAP_FIXED \<Longrightarrow> p = ma_addr a"
proof -
  obtain k where k: "f a (kst w) = (Inr p, k)" "w' = w\<lparr>kst := k\<rparr>"
    using assms(2) by (auto simp: sys_def split: prod.splits sum.splits)
  have *: "(\<forall>x. x \<notin> span p (ma_length a) \<longrightarrow> vm k x = vm (kst w) x)
       \<and> (\<forall>x\<in>span p (ma_length a). vm k x \<noteq> None)
       \<and> (if has_flag (ma_flags a) MAP_FIXED then p = ma_addr a
          else (\<forall>x\<in>span p (ma_length a). vm (kst w) x = None))"
    using assms(1) unfolding maps_def by (elim allE [of _ a] allE [of _ "kst w"]) (simp add: k(1))
  from * show "x \<notin> span p (ma_length a) \<Longrightarrow> vm (kst w') x = vm (kst w) x" by (simp add: k(2))
  from * show "x \<in> span p (ma_length a) \<Longrightarrow> vm (kst w') x \<noteq> None" by (simp add: k(2))
  from * show "\<not> has_flag (ma_flags a) MAP_FIXED \<Longrightarrow> x \<in> span p (ma_length a) \<Longrightarrow> vm (kst w) x = None" by simp
  from * show "has_flag (ma_flags a) MAP_FIXED \<Longrightarrow> p = ma_addr a" by simp
qed

lemma unmaps_vm:
  assumes "unmaps vm f" and "\<And>x. x \<in> span p len \<Longrightarrow> vm (kst w) x \<noteq> None"
  shows "vm (kst (snd (sys (f p len) w))) x = (if x \<in> span p len then None else vm (kst w) x)"
  using assms by (simp add: unmaps_def sys_kst)

section \<open>MAP_FIXED_NOREPLACE\<close>

lemma NOREPLACE_bits:
  "has_flag ((f AND NOT MAP_FIXED_NOREPLACE) AND NOT MAP_LOCKED OR MAP_FIXED) MAP_FIXED"
  using has_flag_bit [of _ 4] bit_exp_iff [of 4 4, where 'a = int] by (simp add: bit_or_iff)

lemma probe_flags: "\<not> has_flag (MAP_PRIVATE OR MAP_ANONYMOUS) MAP_FIXED"
  by (simp add: has_flag_def)

text \<open>A reservation is at the address asked for, on free addresses; without one nothing has changed.\<close>

lemma mmap_probe_None:
  assumes "maps vm (s_mmap M)" and "unmaps vm (s_munmap M)" and "mmap_probe M a w = (None, w')"
  shows "vm (kst w') = vm (kst w)"
proof -
  let ?pa = "\<lparr>ma_addr = ma_addr a, ma_length = ma_length a, ma_prot = PROT_NONE,
              ma_flags = MAP_PRIVATE OR MAP_ANONYMOUS, ma_fd = -1, ma_offset = 0\<rparr>"
  obtain r w1 where s: "sys (s_mmap M ?pa) w = (r, w1)" by fastforce
  show ?thesis
  proof (cases r)
    case None
    with s maps_fail [OF assms(1), of ?pa w w1] assms(3) show ?thesis
      by (auto simp: mmap_probe_def fail_with_def split: if_splits)
  next
    case (Some p)
    note ok = maps_ok [OF assms(1), of ?pa w p w1, simplified, OF s [unfolded Some, simplified] ]
    have "vm (kst (snd (sys (s_munmap M p (ma_length a)) w1))) x = vm (kst w) x" for x
      using unmaps_vm [OF assms(2), of p "ma_length a" w1 x] ok(1-3) [of x] ok(2) by (auto simp: has_flag_def)
    with s Some assms(3) show ?thesis
      by (auto simp: mmap_probe_def fail_with_def split: if_splits)
  qed
qed

lemma mmap_probe_Some:
  assumes "maps vm (s_mmap M)" and "mmap_probe M a w = (Some p, w')"
  shows "p = ma_addr a"
    and "x \<notin> span p (ma_length a) \<Longrightarrow> vm (kst w') x = vm (kst w) x"
    and "x \<in> span p (ma_length a) \<Longrightarrow> vm (kst w') x \<noteq> None"
    and "x \<in> span p (ma_length a) \<Longrightarrow> vm (kst w) x = None"
proof -
  let ?pa = "\<lparr>ma_addr = ma_addr a, ma_length = ma_length a, ma_prot = PROT_NONE,
              ma_flags = MAP_PRIVATE OR MAP_ANONYMOUS, ma_fd = -1, ma_offset = 0\<rparr>"
  have s: "sys (s_mmap M ?pa) w = (Some p, w')" and "p = ma_addr a"
    using assms(2) by (auto simp: mmap_probe_def fail_with_def split: if_splits prod.splits option.splits)
  from this(2) show "p = ma_addr a" .
  note ok = maps_ok [OF assms(1) s]
  from ok(1-3) probe_flags show "x \<notin> span p (ma_length a) \<Longrightarrow> vm (kst w') x = vm (kst w) x"
    "x \<in> span p (ma_length a) \<Longrightarrow> vm (kst w') x \<noteq> None"
    "x \<in> span p (ma_length a) \<Longrightarrow> vm (kst w) x = None" by auto
qed

text \<open>Mapping over a reservation: the reservation is replaced, or given back.\<close>

lemma mmap_retry_reserved:
  assumes maps: "maps vm (n_mmap M)" and unmaps: "unmaps vm (s_munmap M)" and locks: "locks vm (s_mlock M)"
    and "has_flag flags MAP_FIXED" and "p = ma_addr a"
    and out: "\<And>x. x \<notin> span p (ma_length a) \<Longrightarrow> vm (kst w) x = old x"
    and inside: "\<And>x. x \<in> span p (ma_length a) \<Longrightarrow> vm (kst w) x \<noteq> None"
    and free: "\<And>x. x \<in> span p (ma_length a) \<Longrightarrow> old x = None"
    and run: "mmap_retry M a (Some p) flags w = (r, w')"
  shows "r = None \<Longrightarrow> vm (kst w') = old"
    and "r = Some q \<Longrightarrow> q = p \<and> (\<forall>x. x \<notin> span p (ma_length a) \<longrightarrow> vm (kst w') x = old x)"
proof -
  let ?a = "a\<lparr>ma_flags := flags\<rparr>"
  have unmapped: "vm (kst (snd (sys (s_munmap M p (ma_length a)) v))) = old"
    if "\<And>x. x \<notin> span p (ma_length a) \<Longrightarrow> vm (kst v) x = old x"
      and "\<And>x. x \<in> span p (ma_length a) \<Longrightarrow> vm (kst v) x \<noteq> None" for v
    using that free unmaps_vm [OF unmaps, of p "ma_length a" v] by (intro ext) simp
  obtain m w1 where m: "sys (n_mmap M ?a) w = (m, w1)" by fastforce
  have "(r = None \<longrightarrow> vm (kst w') = old)
      \<and> (\<forall>q. r = Some q \<longrightarrow> q = p \<and> (\<forall>x. x \<notin> span p (ma_length a) \<longrightarrow> vm (kst w') x = old x))"
  proof (cases m)
    case None
    with m have "vm (kst w1) = vm (kst w)" by (intro maps_fail [OF maps]) simp
    then have "vm (kst (snd (sys (s_munmap M p (ma_length a)) w1))) = old"
      using out inside by (intro unmapped) simp_all
    with run m None show ?thesis by (auto simp: mmap_retry_def restore_errno_def)
  next
    case (Some q)
    note ok = maps_ok [OF maps m [unfolded Some]]
    have q: "q = p" using ok(4) assms(4,5) by simp
    have w1: "x \<notin> span p (ma_length a) \<Longrightarrow> vm (kst w1) x = old x"
      "x \<in> span p (ma_length a) \<Longrightarrow> vm (kst w1) x \<noteq> None" for x
      using ok(1,2) out q by simp_all
    obtain l w2 where l: "sys (s_mlock M p (ma_length a)) w1 = (l, w2)" by fastforce
    have "vm (kst w2) = vm (kst w1)"
      using locks sys_kst [of "s_mlock M p (ma_length a)" w1] l by (simp add: locks_def)
    with w1 unmapped [of w2] run m Some q l show ?thesis
      by (auto simp: mmap_retry_def fail_with_def split: if_splits)
  qed
  then show "r = None \<Longrightarrow> vm (kst w') = old"
    and "r = Some q \<Longrightarrow> q = p \<and> (\<forall>x. x \<notin> span p (ma_length a) \<longrightarrow> vm (kst w') x = old x)" by blast+
qed

lemma mmap_emulate_noreplace:
  assumes "maps vm (n_mmap M)" "maps vm (s_mmap M)" "unmaps vm (s_munmap M)" "locks vm (s_mlock M)"
    and "has_flag (ma_flags a) MAP_FIXED_NOREPLACE" and "mmap_emulate M a w = (r, w')"
  shows "r = None \<Longrightarrow> vm (kst w') = vm (kst w)"
    and "r = Some p \<Longrightarrow> p = ma_addr a \<and> (\<forall>x\<in>span p (ma_length a). vm (kst w) x = None)
           \<and> (\<forall>x. x \<notin> span p (ma_length a) \<longrightarrow> vm (kst w') x = vm (kst w) x)"
proof -
  obtain b w1 where b: "mmap_probe M a w = (b, w1)" by fastforce
  have "(r = None \<longrightarrow> vm (kst w') = vm (kst w))
    \<and> (\<forall>p. r = Some p \<longrightarrow> p = ma_addr a \<and> (\<forall>x\<in>span p (ma_length a). vm (kst w) x = None)
           \<and> (\<forall>x. x \<notin> span p (ma_length a) \<longrightarrow> vm (kst w') x = vm (kst w) x))"
  proof (cases b)
    case None
    with b assms(5,6) mmap_probe_None [OF assms(2,3), of a w w1] show ?thesis by (auto simp: mmap_emulate_def)
  next
    case (Some p)
    note P = mmap_probe_Some [OF assms(2) b [unfolded Some]]
    have run: "mmap_retry M a (Some p) ((ma_flags a AND NOT MAP_FIXED_NOREPLACE) AND NOT MAP_LOCKED OR MAP_FIXED) w1 = (r, w')"
      using assms(5,6) b Some by (simp add: mmap_emulate_def)
    note R = mmap_retry_reserved [where old = "vm (kst w)", OF assms(1,3,4) NOREPLACE_bits P(1) P(2-4) run]
    show ?thesis using R P(1,4) by auto
  qed
  then show "r = None \<Longrightarrow> vm (kst w') = vm (kst w)"
    and "r = Some p \<Longrightarrow> p = ma_addr a \<and> (\<forall>x\<in>span p (ma_length a). vm (kst w) x = None)
           \<and> (\<forall>x. x \<notin> span p (ma_length a) \<longrightarrow> vm (kst w') x = vm (kst w) x)" by blast+
qed

text \<open>
  C8: MAP_FIXED_NOREPLACE never replaces: for a mapping the kernel takes, refuses or does not
  know the flag of, the address space afterwards has every old mapping in place; where the
  call succeeds the range it returns was free and nothing outside it has changed, and where
  it fails nothing has changed at all, the reservation given back.
\<close>

theorem mmap_noreplace:
  assumes "maps vm (n_mmap M)" and "maps vm (s_mmap M)" and "unmaps vm (s_munmap M)" and "locks vm (s_mlock M)"
    and "has_flag (ma_flags a) MAP_FIXED_NOREPLACE" and "\<not> has_flag (ma_flags a) MAP_FIXED"
    and "fst (n_mmap M a (kst w)) \<noteq> Inl EBADF"
    and "mmap_shim K OPS M a w = (r, w')"
  shows "case r of
           None \<Rightarrow> vm (kst w') = vm (kst w)
         | Some p \<Rightarrow> (\<forall>x\<in>span p (ma_length a). vm (kst w) x = None)
                     \<and> (\<forall>x. x \<notin> span p (ma_length a) \<longrightarrow> vm (kst w') x = vm (kst w) x)"
proof -
  obtain r1 w1 where 1: "sys (n_mmap M a) w = (r1, w1)" by fastforce
  show ?thesis
  proof (cases r1)
    case (Some p)
    with 1 maps_ok [OF assms(1) 1 [unfolded Some]] assms(6,8) show ?thesis by (auto simp: mmap_shim_def)
  next
    case None
    have same: "vm (kst w1) = vm (kst w)" using maps_fail [OF assms(1)] 1 None by simp
    have "errno w1 \<noteq> EBADF"
      using 1 None assms(7) by (auto simp: sys_def split: prod.splits sum.splits)
    then have "(r, w') = (None, w1) \<or> mmap_emulate M a w1 = (r, w')"
      using 1 None assms(8) by (auto simp: mmap_shim_def split: if_splits)
    with same mmap_emulate_noreplace [OF assms(1-5), of w1 r w'] show ?thesis by (auto split: option.split)
  qed
qed

text \<open>A kernel whose state is the set of mapped addresses, and which does not know MAP_FIXED_NOREPLACE.\<close>

definition example_do_mmap :: "mmap_args \<Rightarrow> nat set \<Rightarrow> (int + 64 word) \<times> nat set" where
  "example_do_mmap a k =
     (if has_flag (ma_flags a) MAP_FIXED_NOREPLACE then (Inl EOPNOTSUPP, k)
      else if has_flag (ma_flags a) MAP_FIXED \<or> span (ma_addr a) (ma_length a) \<inter> k = {}
      then (Inr (ma_addr a), k \<union> span (ma_addr a) (ma_length a))
      else (Inl ENOMEM, k))"

definition example_mmap :: "nat set mmap_kernel" where
  "example_mmap =
     \<lparr>n_mmap = example_do_mmap, s_mmap = example_do_mmap, s_munmap = (\<lambda>p len k. (Inr 0, k - span p len)),
      s_mlock = (\<lambda>_ _ k. (Inr 0, k)), n_mincore = (\<lambda>_ _ k. (Inl ENOSYS, k)), n_msync = (\<lambda>_ _ _ k. (Inr 0, k))\<rparr>"

definition example_vm :: "nat set \<Rightarrow> nat \<rightharpoonup> unit" where
  "example_vm k x = (if x \<in> k then Some () else None)"

theorem mmap_noreplace_witness:
  "\<exists>w'. mmap_shim null_kernel (\<lambda>_. no_ops) example_mmap
           \<lparr>ma_addr = 0x10000, ma_length = 4096, ma_prot = 3, ma_flags = 0x100022, ma_fd = -1, ma_offset = 0\<rparr>
           (static_world {5}) = (Some 0x10000, w')
     \<and> example_vm {5} 65536 = None \<and> example_vm (kst w') 5 = example_vm {5} 5"
proof -
  let ?a = "\<lparr>ma_addr = 0x10000, ma_length = 4096, ma_prot = 3, ma_flags = 0x100022, ma_fd = -1, ma_offset = 0\<rparr>"
  have m: "maps example_vm example_do_mmap"
    by (auto simp: maps_def example_do_mmap_def example_vm_def fun_eq_iff)
  have u: "unmaps example_vm (s_munmap example_mmap)" "locks example_vm (s_mlock example_mmap)"
    by (auto simp: unmaps_def locks_def example_mmap_def example_vm_def)
  have pass: "\<not> passthru ''mmap'' (static_world {5 :: nat})" by code_simp
  have lib: "passthru ''mmap'' ((static_world {5 :: nat})\<lparr>errno := 95\<rparr>) = passthru ''mmap'' (static_world {5 :: nat})"
    by (simp add: passthru_def)
  obtain w' where run: "mmap_shim null_kernel (\<lambda>_. no_ops) example_mmap ?a (static_world {5}) = (Some 0x10000, w')"
    using pass lib by (simp add: mmap_shim_def example_mmap_def example_do_mmap_def sys_def has_flag_def static_world_def
        mmap_emulate_def mmap_probe_def mmap_retry_def span_def)
  have "case Some 0x10000 of
           None \<Rightarrow> example_vm (kst w') = example_vm (kst (static_world {5}))
         | Some p \<Rightarrow> (\<forall>x\<in>span p (ma_length ?a). example_vm (kst (static_world {5})) x = None)
                     \<and> (\<forall>x. x \<notin> span p (ma_length ?a) \<longrightarrow> example_vm (kst w') x = example_vm (kst (static_world {5})) x)"
    by (rule mmap_noreplace [OF _ _ u _ _ _ run])
      (simp_all add: m example_mmap_def example_do_mmap_def has_flag_def)
  with run show ?thesis by (auto simp: span_def static_world_def)
qed

section \<open>mincore\<close>

text \<open>One byte per page of the range, every page reported resident.\<close>

lemma mincore_reports:
  assumes "\<not> passthru ''mincore'' w" and "n_msync M addr len MS_ASYNC (kst w) = (Inr 0, k)"
    and "unat len + 4095 < 2 ^ 64"
  obtains v where "mincore_shim M addr len w = (Some v, w\<lparr>kst := k\<rparr>)"
    and "length v = (unat len + 4095) div 4096" and "set v \<subseteq> {CHR 0x01}"
proof -
  have "unat (len + 4095) = unat len + 4095"
    using assms(3) by (simp add: unat_word_ariths)
  then have "unat ((len + 4095) div 4096) = (unat len + 4095) div 4096" by (simp add: unat_div)
  with assms(1,2) show ?thesis
    by (intro that [of "replicate ((unat len + 4095) div 4096) (CHR 0x01)"])
      (auto simp: mincore_shim_def sys_def add.commute)
qed

end
