(* ===== verification/System.thy ===== *)
theory System
  imports Balance Select Epoll Mmap
begin

text \<open>
  The shims together.  A program makes a sequence of calls in any order; between two calls the
  synthetic descriptor table is in a well-formed state, whatever the kernel did.
\<close>

section \<open>A program\<close>

text \<open>Everything outside the library that a program's calls reach.\<close>

record 'k env =
  en_kernel :: "'k kernel"
  en_vm :: "'k vm_kernel"
  en_io :: "'k libc_io"
  en_tty :: "'k tty_kernel"
  en_lock :: "'k lock_kernel"
  en_poll :: "'k poll_kernel"
  en_sel :: "'k sel_kernel"
  en_epoll :: "'k epoll_kernel"
  en_mmap :: "'k mmap_kernel"
  en_exec :: "'k exec_kernel"
  en_null_open :: "'k \<Rightarrow> int \<times> 'k"

definition en_ops :: "'k env \<Rightarrow> 'k ops_table" where
  "en_ops E = wsl_ops (en_kernel E) (en_vm E) (en_io E) (en_tty E)"

text \<open>The calls of read.c.\<close>

datatype io_call =
    Read nat | Write bytes | Lseek int int | Pread nat int | Pwrite bytes int
  | Readv "nat list" | Writev "bytes list" | Preadv "nat list" int | Pwritev "bytes list" int
  | Fsync | Fdatasync | Ftruncate int | Fchmod int | Fchown int int | Fallocate int int int
  | Fgetxattr cstring nat | Fsetxattr cstring bytes int | Flistxattr nat | Fremovexattr cstring

definition io_step :: "'k kernel \<Rightarrow> 'k ops_table \<Rightarrow> 'k libc_io \<Rightarrow> int \<Rightarrow> io_call \<Rightarrow> 'k world \<Rightarrow> 'k world" where
  "io_step K OPS N fd c w =
     (case c of
        Read n \<Rightarrow> snd (read_shim K OPS N fd n w)
      | Write b \<Rightarrow> snd (write_shim K OPS N fd b w)
      | Lseek off wh \<Rightarrow> snd (lseek_shim K OPS N fd off wh w)
      | Pread n off \<Rightarrow> snd (pread_shim K OPS N fd n off w)
      | Pwrite b off \<Rightarrow> snd (pwrite_shim K OPS N fd b off w)
      | Readv iov \<Rightarrow> snd (readv_shim K OPS N fd iov w)
      | Writev iov \<Rightarrow> snd (writev_shim K OPS N fd iov w)
      | Preadv iov off \<Rightarrow> snd (preadv_shim K OPS N fd iov off w)
      | Pwritev iov off \<Rightarrow> snd (pwritev_shim K OPS N fd iov off w)
      | Fsync \<Rightarrow> snd (fsync_shim K OPS N fd w)
      | Fdatasync \<Rightarrow> snd (fdatasync_shim K OPS N fd w)
      | Ftruncate len \<Rightarrow> snd (ftruncate_shim K OPS N fd len w)
      | Fchmod m \<Rightarrow> snd (fchmod_shim K OPS N fd m w)
      | Fchown u g \<Rightarrow> snd (fchown_shim K OPS N fd u g w)
      | Fallocate m off len \<Rightarrow> snd (fallocate_shim K OPS N fd m off len w)
      | Fgetxattr name n \<Rightarrow> snd (fgetxattr_shim K OPS N fd name n w)
      | Fsetxattr name v f \<Rightarrow> snd (fsetxattr_shim K OPS N fd name v f w)
      | Flistxattr n \<Rightarrow> snd (flistxattr_shim K OPS N fd n w)
      | Fremovexattr name \<Rightarrow> snd (fremovexattr_shim K OPS N fd name w))"

text \<open>The calls that reach the descriptor table.\<close>

datatype app_call =
    Open "cstring option" int int
  | Openat int "cstring option" int int
  | Creat "cstring option" int
  | Close int
  | Dup2 int int
  | Dup3 int int int
  | Close_range int int int
  | Io int io_call
  | Fstat int
  | Fcntl int fcntl_req
  | Ioctl int int uarg
  | Poll "pollfd list" poll_ctx
  | Select int fd_sets sel_ctx
  | Epoll_ctl int int int "epoll_event option"
  | Mmap mmap_args
  | System "cstring option"
  | Popen cstring cstring
  | Posix_spawn spawn_args
  | Execv cstring argv
  | Exec cstring argv argv

text \<open>A call that can replace the process: \<open>None\<close> when it has.\<close>

definition survivor :: "'k exec_result \<Rightarrow> 'k world option" where
  "survivor r = (case r of Replaced _ _ \<Rightarrow> None | Exec_failed w \<Rightarrow> Some w)"

definition app_step :: "'k env \<Rightarrow> app_call \<Rightarrow> 'k world \<Rightarrow> 'k world option" where
  "app_step E c w =
     (let K = en_kernel E; OPS = en_ops E; N = en_io E; X = en_exec E
      in case c of
           Open p f m \<Rightarrow> Some (snd (open_shim K OPS (en_null_open E) p f m w))
         | Openat d p f m \<Rightarrow> Some (snd (openat_shim K OPS (en_null_open E) d p f m w))
         | Creat p m \<Rightarrow> Some (snd (creat_shim K OPS (en_null_open E) p m w))
         | Close fd \<Rightarrow> Some (snd (close_shim K OPS fd w))
         | Dup2 a b \<Rightarrow> Some (snd (dup2_shim K OPS a b w))
         | Dup3 a b f \<Rightarrow> Some (snd (dup3_shim K OPS a b f w))
         | Close_range lo hi f \<Rightarrow> Some (snd (close_range_shim K OPS lo hi f w))
         | Io fd c \<Rightarrow> Some (io_step K OPS N fd c w)
         | Fstat fd \<Rightarrow> Some (snd (fstat_shim K OPS fd w))
         | Fcntl fd req \<Rightarrow> Some (snd (fcntl_shim K OPS (en_lock E) fd req w))
         | Ioctl fd ioc arg \<Rightarrow> Some (snd (ioctl_shim K OPS (en_tty E) fd ioc arg w))
         | Poll fds c \<Rightarrow> Some (snd (poll_dispatch K OPS (en_poll E) fds c w))
         | Select n sets c \<Rightarrow> Some (snd (sel_dispatch K OPS (en_sel E) n sets c w))
         | Epoll_ctl ep ctl fd ev \<Rightarrow> Some (snd (epoll_ctl_shim K OPS (en_epoll E) ep ctl fd ev w))
         | Mmap a \<Rightarrow> Some (snd (mmap_shim K OPS (en_mmap E) a w))
         | System cmd \<Rightarrow> Some (snd (system_shim K OPS X cmd w))
         | Popen cmd mode \<Rightarrow> Some (snd (popen_shim K OPS X cmd mode w))
         | Posix_spawn a \<Rightarrow> Some (snd (posix_spawn_shim K OPS X a w))
         | Execv p argv \<Rightarrow> survivor (execv_shim K OPS X p argv w)
         | Exec p argv envp \<Rightarrow> survivor (execve_shim K OPS N (en_null_open E) X p argv envp w))"

fun app_run :: "'k env \<Rightarrow> app_call list \<Rightarrow> 'k world \<Rightarrow> 'k world option" where
  "app_run E [] w = Some w"
| "app_run E (c # cs) w = (case app_step E c w of None \<Rightarrow> None | Some w1 \<Rightarrow> app_run E cs w1)"

section \<open>Every call keeps the table well-formed\<close>

lemmas handler_frames = mmap_min_addr_frames proc_pid_mem_frames same_frames_keeps [OF tty_io_keeps(1)]
  same_frames_keeps [OF tty_io_keeps(2)] same_frames_keeps [OF tty_io_keeps(3)]

lemma wsl_io_frames:
  "op_read (wsl_ops K V N T x) = Some f1 \<Longrightarrow> same_frames w (snd (f1 i n w))"
  "op_write (wsl_ops K V N T x) = Some f2 \<Longrightarrow> same_frames w (snd (f2 i b w))"
  "op_lseek (wsl_ops K V N T x) = Some f3 \<Longrightarrow> same_frames w (snd (f3 i off wh w))"
  "op_pread (wsl_ops K V N T x) = Some f4 \<Longrightarrow> same_frames w (snd (f4 i n off w))"
  "op_pwrite (wsl_ops K V N T x) = Some f5 \<Longrightarrow> same_frames w (snd (f5 i b off w))"
  "op_ioctl (wsl_ops K V N T x) = Some f6 \<Longrightarrow> same_frames w (snd (f6 i ioc arg w))"
  "op_readv (wsl_ops K V N T x) = Some g1 \<Longrightarrow> same_frames w (snd (g1 i ns w))"
  "op_writev (wsl_ops K V N T x) = Some g2 \<Longrightarrow> same_frames w (snd (g2 i bs w))"
  "op_preadv (wsl_ops K V N T x) = Some g3 \<Longrightarrow> same_frames w (snd (g3 i ns off w))"
  "op_pwritev (wsl_ops K V N T x) = Some g4 \<Longrightarrow> same_frames w (snd (g4 i bs off w))"
  "op_fcntl (wsl_ops K V N T x) = Some g5 \<Longrightarrow> same_frames w (snd (g5 i cmd a w))"
  by (cases x; auto simp: wsl_ops_def ops_simps handler_frames)+

text \<open>The members that no table sets.\<close>

lemma wsl_no_handler:
  "op_fsync (wsl_ops K V N T x) = None" "op_fdatasync (wsl_ops K V N T x) = None" "op_ftruncate (wsl_ops K V N T x) = None"
  "op_fchmod (wsl_ops K V N T x) = None" "op_fchown (wsl_ops K V N T x) = None" "op_fallocate (wsl_ops K V N T x) = None"
  "op_fgetxattr (wsl_ops K V N T x) = None" "op_fsetxattr (wsl_ops K V N T x) = None" "op_mmap (wsl_ops K V N T x) = None"
  "op_flistxattr (wsl_ops K V N T x) = None" "op_fremovexattr (wsl_ops K V N T x) = None"
  by (cases x; simp add: wsl_ops_def ops_simps)+

lemmas io_shim_defs = read_shim_def write_shim_def lseek_shim_def pread_shim_def pwrite_shim_def readv_shim_def
  writev_shim_def preadv_shim_def pwritev_shim_def fsync_shim_def fdatasync_shim_def ftruncate_shim_def fchmod_shim_def
  fchown_shim_def fallocate_shim_def fgetxattr_shim_def fsetxattr_shim_def flistxattr_shim_def fremovexattr_shim_def

lemma io_step_table_ok:
  assumes "table_ok w"
  shows "table_ok (io_step K (wsl_ops K V N T) N fd c w)"
  by (cases c; simp only: io_step_def io_call.case io_shim_defs;
      rule table_ok_frames [THEN iffD2, OF wsl.shim_same_frames assms];
      auto simp: wsl_no_handler intro: wsl_io_frames)

lemma pread_table_ok: "table_ok w \<Longrightarrow> table_ok (snd (pread_shim K (wsl_ops K V N T) N fd n off w))"
  using io_step_table_ok [of w K V N T fd "Pread n off"] by (simp add: io_step_def)

lemma ioctl_table_ok:
  assumes "table_ok w"
  shows "table_ok (snd (ioctl_shim K (wsl_ops K V N T) T fd ioc arg w))"
proof -
  let ?OPS = "wsl_ops K V N T"
  have "same_frames v (snd (ioctl_synth K ?OPS T fd ioc arg v))" for v
  proof (cases rule: pin_fd_cases [of K ?OPS fd v])
    case (none w1)
    then show ?thesis by (simp add: ioctl_synth_def same_frames_same_lib)
  next
    case (pinned i st w1)
    let ?u = "upd_entry i (\<lambda>e. e\<lparr>refcount := refcount e + 1\<rparr>) w1"
    have fin: "same_frames v (wslcompat_synth_unpin K ?OPS i u)" if "same_frames ?u u" for u
      using unpin_same_frames [OF that] pinned
      by (auto simp: same_libD intro: same_frames_trans [OF same_frames_same_lib])
    have d: "same_frames ?u (snd (synth_dispatch K ?OPS (ioctl_handler ioc arg) (\<lambda>fd. sys (t_ioctl T fd ioc arg)) fd ?u))"
      by (rule wsl.dispatch_same_frames) (auto simp: ioctl_handler_def intro: wsl_io_frames)
    show ?thesis
      using pinned(1) fin d
      by (simp add: ioctl_synth_def ioctl_setfd_def case_prod_beta Let_def split: option.split)
  qed
  then have "table_ok (snd (ioctl_synth K ?OPS T fd ioc arg v)) = table_ok v" for v by (rule table_ok_frames)
  with assms show ?thesis
    by (simp add: ioctl_shim_def case_prod_beta Let_def wsl.tty_install_table_ok split: option.split uarg.split)
qed

lemma elf_table_ok: "table_ok w \<Longrightarrow> table_ok (snd (elf_needs_fixup K (wsl_ops K V N T) N fd w))"
proof -
  have s: "table_ok v \<Longrightarrow> table_ok (snd (scan_phdrs K (wsl_ops K V N T) N fd off is a v))" for off "is" a v
  proof (induction "is" arbitrary: a v)
    case (Cons i "is")
    then show ?case
      using pread_table_ok [of v K V N T fd SIZEOF_PHDR "sint (off + of_nat (i * SIZEOF_PHDR))"]
      by (auto split: prod.split option.split)
  qed simp
  assume "table_ok w"
  from pread_table_ok [OF this, of K V N T fd SIZEOF_EHDR 0] s show ?thesis
    by (auto simp: elf_needs_fixup_def Let_def case_prod_beta split: prod.split option.split)
qed

lemma exec_fail_table_ok:
  "table_ok w \<Longrightarrow> exec_fail K (wsl_ops K V N T) px fd e w = Exec_failed w' \<Longrightarrow> table_ok w'"
  by (auto simp: exec_fail_def Let_def wsl.close_table_ok wsl.preexec_restore_table_ok split: option.splits)

lemma exec_next_table_ok: "table_ok w \<Longrightarrow> exec_next E c w = Exec_failed w' \<Longrightarrow> table_ok w'"
  by (auto simp: exec_next_def table_ok_def live_inv_def split: prod.splits sum.splits)

lemma exec_interp_table_ok:
  assumes "table_ok w" and "exec_interp K (wsl_ops K V N T) N E px path argv envp fd w = Exec_failed w'"
  shows "table_ok w'"
proof -
  obtain st w1 where f: "fstat_shim K (wsl_ops K V N T) fd w = (st, w1)" by fastforce
  have 1: "table_ok w1" using f assms(1) by (metis wsl.fstat_table_ok snd_conv)
  obtain b w2 where e: "elf_needs_fixup K (wsl_ops K V N T) N fd w1 = (b, w2)" by fastforce
  have 2: "table_ok w2" using elf_table_ok [OF 1, of K V N T fd] e by simp
  show ?thesis
    using assms(2) f e
    by (auto simp: exec_interp_def Let_def split: if_splits option.splits exec_result.splits
        dest: exec_fail_table_ok [OF 1] exec_fail_table_ok [OF 2] exec_fail_table_ok [OF exec_next_table_ok [OF 2]])
qed

lemma execve_table_ok:
  assumes "table_ok w" and "execve_shim K (wsl_ops K V N T) N null_open E path argv envp w = Exec_failed w'"
  shows "table_ok w'"
proof -
  obtain px w1 where s: "wslcompat_synth_preexec_save K (wsl_ops K V N T) [] w = (px, w1)" by fastforce
  have 1: "table_ok w1" using wsl.preexec_save_table_ok [OF assms(1)] s by (metis snd_conv)
  show ?thesis
  proof (cases "passthru ''execve'' w")
    case True
    with assms exec_next_table_ok show ?thesis by (auto simp: execve_shim_def)
  next
    case False
    then obtain w2 where x: "exec_next E (Execve path argv envp) w1 = Exec_failed w2"
      using assms(2) s by (auto simp: execve_shim_def split: exec_result.splits)
    have 2: "table_ok w2" by (rule exec_next_table_ok [OF 1 x])
    obtain r w3 where op: "open_shim K (wsl_ops K V N T) null_open (Some path) (O_RDONLY OR O_CLOEXEC) 0 w2 = (r, w3)"
      by fastforce
    have 3: "table_ok w3" using wsl.open_table_ok [OF 2] op by (metis snd_conv)
    show ?thesis
      using assms(2) False s x op exec_fail_table_ok [OF 2] exec_fail_table_ok [OF 3] exec_interp_table_ok [OF 3]
      by (auto simp: execve_shim_def split: if_splits option.splits)
  qed
qed

lemma exec_replace_table_ok:
  assumes "table_ok w" and "exec_replace_shim K (wsl_ops K V N T) E name c w = Exec_failed w'"
  shows "table_ok w'"
proof -
  obtain px w1 where s: "wslcompat_synth_preexec_save K (wsl_ops K V N T) [] w = (px, w1)" by fastforce
  have 1: "table_ok w1" using wsl.preexec_save_table_ok [OF assms(1)] s by (metis snd_conv)
  from assms(2) s show ?thesis
    by (auto simp: exec_replace_shim_def wsl.preexec_restore_table_ok split: if_splits exec_result.splits
        dest: exec_next_table_ok [OF assms(1)] exec_next_table_ok [OF 1])
qed

section \<open>Descriptors that stand for others\<close>

lemma passthru_table_ok: "table_ok (snd (wslcompat_synth_passthru K (wsl_ops K V N T) fd kind w)) = table_ok w"
  by (rule table_ok_keeps [OF wsl.synth_passthru_keeps])

lemma translate_table_ok: "table_ok (snd (translate_synth_fd K (wsl_ops K V N T) fd w)) = table_ok w"
  by (simp add: translate_synth_fd_def case_prod_beta Let_def passthru_table_ok)

lemma swap_in_table_ok: "table_ok (snd (swap_in_loop K (wsl_ops K V N T) is fds swaps w)) = table_ok w"
  by (induction "is" arbitrary: fds swaps w) (simp_all add: case_prod_beta Let_def translate_table_ok)

lemma canary_table_ok: "table_ok (snd (poll_canary_fired K (wsl_ops K V N T) fds w)) = table_ok w"
  by (induction fds arbitrary: w) (simp_all add: case_prod_beta Let_def translate_table_ok)

lemma kernel_call_table_ok: "table_ok (snd (kernel_call P c fds w)) = table_ok w"
  by (rule table_ok_same_lib) (simp add: kernel_call_same_lib)

lemma poll_table_ok: "table_ok (snd (poll_dispatch K (wsl_ops K V N T) P fds c w)) = table_ok w"
  by (simp add: poll_dispatch_def kernel_probe_def canary_retry_def poll_swap_in_def case_prod_beta Let_def
      kernel_call_table_ok swap_in_table_ok canary_table_ok split: option.split)

lemma sel_swap_table_ok: "table_ok (snd (sel_swap_loop K (wsl_ops K V N T) fds sets swaps n w)) = table_ok w"
  by (induction fds arbitrary: sets swaps n w) (simp_all add: case_prod_beta Let_def translate_table_ok)

lemma sel_call_table_ok: "table_ok (snd (sel_kernel_call Q c n sets w)) = table_ok w"
  by (rule table_ok_same_lib) (simp add: sel_call_same_lib)

lemma select_table_ok: "table_ok (snd (sel_dispatch K (wsl_ops K V N T) Q n sets c w)) = table_ok w"
  by (simp add: sel_dispatch_def sel_swap_in_def case_prod_beta Let_def sel_call_table_ok sel_swap_table_ok
      split: option.split)

lemma epoll_ctl_table_ok: "table_ok (snd (epoll_ctl_shim K (wsl_ops K V N T) E ep ctl fd ev w)) = table_ok w"
  by (simp add: epoll_ctl_shim_def case_prod_beta Let_def passthru_table_ok split: option.split)

lemma mmap_fallback_table_ok:
  assumes "table_ok w"
  shows "table_ok (snd (mmap_synth_fallback K (wsl_ops K V N T) M a w))"
proof (cases "wslcompat_synth_pin_fd K (wsl_ops K V N T) (ma_fd a) w")
  case (Pair e w1)
  show ?thesis
  proof (cases e)
    case None
    with Pair wsl.pin_none_table_ok [OF _ assms] show ?thesis by (simp add: mmap_synth_fallback_def)
  next
    case (Some i)
    have u: "table_ok (wslcompat_synth_unpin K (wsl_ops K V N T) i w2)" if "keeps_synth w1 w2" for w2
      using Pair Some that assms by (intro wsl.pin_work_unpin_table_ok) simp_all
    with Pair Some show ?thesis
      by (auto simp: mmap_synth_fallback_def wsl_no_handler case_prod_beta Let_def wsl.passthru_keeps
          split: option.split)
  qed
qed

lemma mmap_table_ok:
  assumes "table_ok w"
  shows "table_ok (snd (mmap_shim K (wsl_ops K V N T) M a w))"
proof -
  have e: "table_ok (snd (mmap_emulate M b v)) = table_ok v" for b v
    by (simp add: mmap_emulate_def mmap_probe_def mmap_retry_def fail_with_def case_prod_beta Let_def split: option.split)
  from assms mmap_fallback_table_ok [of "snd (sys (n_mmap M a) w)"] show ?thesis
    by (simp add: mmap_shim_def case_prod_beta Let_def e)
qed

lemma fcntl_table_ok:
  assumes "table_ok w"
  shows "table_ok (snd (fcntl_shim K (wsl_ops K V N T) L fd req w))"
proof -
  let ?OPS = "wsl_ops K V N T"
  have d: "table_ok (snd (synth_dispatch K ?OPS (fcntl_handler cmd a) (\<lambda>fd. sys (k_fcntl K fd cmd a)) fd v)) = table_ok v" for cmd a v
    by (rule table_ok_frames, rule wsl.dispatch_same_frames) (auto simp: fcntl_handler_def intro: wsl_io_frames)
  have x: "table_ok (snd (synth_dispatch_excl K ?OPS (fcntl_handler cmd a) (\<lambda>fd. sys (k_fcntl K fd cmd a)) fd v))"
    if "table_ok v" for cmd a v
  proof -
    obtain r w1 where r: "synth_dispatch K ?OPS (fcntl_handler cmd a) (\<lambda>fd. sys (k_fcntl K fd cmd a)) fd v = (r, w1)" by fastforce
    have 1: "table_ok w1" using d [of cmd a v] r that by simp
    obtain e w2 where e: "wslcompat_synth_pin_fd K ?OPS fd w1 = (e, w2)" by fastforce
    show ?thesis
      using r e wsl.pin_none_table_ok [OF _ 1] wsl.pin_work_unpin_table_ok [OF _ _ 1] 1
      by (cases e) (simp_all add: synth_dispatch_excl_def split: option.split)
  qed
  have "table_ok v \<Longrightarrow> table_ok (snd (fcntl_val K ?OPS fd cmd a v))" for cmd a v
    by (simp add: fcntl_val_def case_prod_beta Let_def d x split: option.split)
  moreover have "table_ok (snd (flock_status_query K fd' fl v)) = table_ok v" for fd' fl v
    by (simp add: flock_status_query_def case_prod_beta Let_def split: option.split)
  ultimately show ?thesis
    using assms
    by (cases req) (simp_all add: fcntl_shim_def fcntl_lock_shim_def case_prod_beta Let_def passthru_table_ok split: option.split)
qed

section \<open>All calls\<close>

lemma spawn_next_table_ok: "table_ok (snd (spawn_next f w)) = table_ok w"
  by (rule table_ok_keeps) (simp add: spawn_next_def case_prod_beta Let_def keeps_synth_def)

lemmas step_table_ok = wsl.open_table_ok wsl.openat_table_ok wsl.close_table_ok wsl.dup_table_ok wsl.close_range_table_ok
  io_step_table_ok wsl.fstat_table_ok fcntl_table_ok ioctl_table_ok poll_table_ok select_table_ok epoll_ctl_table_ok
  mmap_table_ok wsl.around_exec_table_ok spawn_next_table_ok

lemma app_step_table_ok:
  assumes "table_ok w" and "app_step E c w = Some w'"
  shows "table_ok w'"
  using assms(2)
  by (cases c)
    (auto simp: app_step_def en_ops_def creat_shim_def system_shim_def popen_shim_def posix_spawn_shim_def execv_shim_def
      survivor_def step_table_ok assms(1) Let_def
      split: exec_result.splits dest: execve_table_ok [OF assms(1)] exec_replace_table_ok [OF assms(1)])

lemma app_run_table_ok: "table_ok w \<Longrightarrow> app_run E cs w = Some w' \<Longrightarrow> table_ok w'"
  by (induction cs arbitrary: w) (auto dest: app_step_table_ok split: option.splits)

text \<open>What a well-formed table says of the live count: it is the number of entries in use.\<close>

lemma table_ok_live:
  assumes "table_ok w"
  shows "unat (synth_live_entries w) = length (filter (\<lambda>e. refcount e = 1) (synth_table w))"
    and "wslcompat_synth_active w \<longleftrightarrow> (\<exists>e\<in>set (synth_table w). refcount e = 1)"
proof -
  have f: "filter (\<lambda>e. refcount e \<noteq> 0) (synth_table w) = filter (\<lambda>e. refcount e = 1) (synth_table w)"
    using assms by (intro filter_cong) (auto simp: table_ok_def rc01_def)
  have "length (filter (\<lambda>e. refcount e = 1) (synth_table w)) \<le> 64"
    using assms length_filter_le [of "\<lambda>e. refcount e = 1" "synth_table w"] by (simp add: table_ok_def)
  then show n: "unat (synth_live_entries w) = length (filter (\<lambda>e. refcount e = 1) (synth_table w))"
    using assms f by (simp add: table_ok_def live_inv_def live_count_def unat_of_nat)
  have "synth_live_entries w \<noteq> 0 \<longleftrightarrow> filter (\<lambda>e. refcount e = 1) (synth_table w) \<noteq> []"
    using n by (metis length_0_conv unat_eq_zero)
  then show "wslcompat_synth_active w \<longleftrightarrow> (\<exists>e\<in>set (synth_table w). refcount e = 1)"
    by (simp add: wslcompat_synth_active_def filter_empty_conv)
qed

end
