(* ===== verification/Refcount.thy ===== *)
theory Refcount
  imports Synth "HOL-Library.Multiset"
begin

text \<open>
  The reference count of one slot of the synthetic descriptor table, under concurrent threads.
  Every load, compare-and-exchange and store of \<^verbatim>\<open>synth_pin\<close>, \<^verbatim>\<open>wslcompat_synth_unpin\<close> and
  \<^verbatim>\<open>synth_register\<close> is one step of one thread; the threads are a multiset, and their steps
  interleave in any order.  The atomics are taken as sequentially consistent.  The sequential
  theories run each of these operations without interruption; the last section relates the two.
\<close>

section \<open>The slot and its threads\<close>

text \<open>
  What the other fields of the entry hold: what a previous owner left, a complete entry, or an
  entry whose handler has been released and whose probe is closed.
\<close>

datatype content = Blank | Ready | Released

text \<open>
  The slot.  \<open>live\<close> is its contribution to \<^verbatim>\<open>synth_live_entries\<close>; \<open>producer\<close> records whether the
  reference of \<^verbatim>\<open>synth_open\<close> is still to be dropped.
\<close>

record slot =
  rc :: int
  live :: int
  entry :: content
  producer :: bool

text \<open>
  Where a thread is: outside, in the loop of \<^verbatim>\<open>synth_pin\<close> or of \<^verbatim>\<open>wslcompat_synth_unpin\<close> with its
  \<^verbatim>\<open>cur\<close>, before each of the three steps of the cleaner, or before each of the three steps that
  follow the claim in \<^verbatim>\<open>synth_register\<close>.  With it, the number of references the thread holds.
\<close>

datatype pc = Outside | Pinning int | Unpinning int | Clean | Free | Discount | Claimed | Filling | Publish

type_synonym thr = "pc \<times> nat"

text \<open>
  The steps.  A weak compare-and-exchange may fail although the values agree.  A thread that
  decides in \<^verbatim>\<open>wslcompat_synth_post_close\<close> to drop the producer's reference takes it over first;
  with \<open>strict\<close> only one thread decides that for an entry.
\<close>

inductive tstep :: "bool \<Rightarrow> slot \<Rightarrow> thr \<Rightarrow> slot \<Rightarrow> thr \<Rightarrow> bool" for strict :: bool where
  pin_load: "tstep strict s (Outside, h) s (Pinning (rc s), h)"
| pin_cas: "cur > 0 \<Longrightarrow> rc s = cur \<Longrightarrow> tstep strict s (Pinning cur, h) (s\<lparr>rc := cur + 1\<rparr>) (Outside, Suc h)"
| pin_retry: "cur > 0 \<Longrightarrow> tstep strict s (Pinning cur, h) s (Pinning (rc s), h)"
| pin_fail: "cur \<le> 0 \<Longrightarrow> tstep strict s (Pinning cur, h) s (Outside, h)"
| unpin_load: "tstep strict s (Outside, Suc h) s (Unpinning (rc s), Suc h)"
| unpin_dec: "cur > 1 \<Longrightarrow> rc s = cur \<Longrightarrow> tstep strict s (Unpinning cur, Suc h) (s\<lparr>rc := cur - 1\<rparr>) (Outside, h)"
| unpin_last: "rc s = 1 \<Longrightarrow> tstep strict s (Unpinning 1, Suc h) (s\<lparr>rc := -1\<rparr>) (Clean, h)"
| unpin_retry: "cur > 0 \<Longrightarrow> tstep strict s (Unpinning cur, h) s (Unpinning (rc s), h)"
| unpin_gone: "cur \<le> 0 \<Longrightarrow> tstep strict s (Unpinning cur, Suc h) s (Outside, h)"
| clean: "tstep strict s (Clean, h) (s\<lparr>entry := Released\<rparr>) (Free, h)"
| free: "tstep strict s (Free, h) (s\<lparr>rc := 0\<rparr>) (Discount, h)"
| discount: "tstep strict s (Discount, h) (s\<lparr>live := live s - 1\<rparr>) (Outside, h)"
| claim: "rc s = 0 \<Longrightarrow> tstep strict s (Outside, h) (s\<lparr>rc := -1\<rparr>) (Claimed, h)"
| count: "tstep strict s (Claimed, h) (s\<lparr>live := live s + 1\<rparr>) (Filling, h)"
| fill: "tstep strict s (Filling, h) (s\<lparr>entry := Ready\<rparr>) (Publish, h)"
| publish: "tstep strict s (Publish, h) (s\<lparr>rc := 1, producer := True\<rparr>) (Outside, h)"
| drop_producer: "(strict \<Longrightarrow> producer s) \<Longrightarrow> tstep strict s (Outside, Suc h) (s\<lparr>producer := False\<rparr>) (Outside, Suc (Suc h))"

inductive rstep :: "bool \<Rightarrow> slot \<times> thr multiset \<Rightarrow> slot \<times> thr multiset \<Rightarrow> bool" for strict :: bool where
  step: "tstep strict s t s' t' \<Longrightarrow> rstep strict (s, add_mset t T) (s', add_mset t' T)"

text \<open>A free slot of the zeroed table and \<open>n\<close> threads without references.\<close>

definition rinit :: "nat \<Rightarrow> slot \<times> thr multiset" where
  "rinit n = (\<lparr>rc = 0, live = 0, entry = Blank, producer = False\<rparr>, replicate_mset n (Outside, 0))"

definition rreach :: "bool \<Rightarrow> nat \<Rightarrow> slot \<times> thr multiset \<Rightarrow> bool" where
  "rreach strict n c \<longleftrightarrow> (rstep strict)\<^sup>*\<^sup>* (rinit n) c"

section \<open>The invariant\<close>

definition refs :: "thr multiset \<Rightarrow> nat" where
  "refs T = sum_mset (image_mset snd T)"

text \<open>The threads that own the slot exclusively, and those that count in \<^verbatim>\<open>synth_live_entries\<close>.\<close>

definition owner :: "thr \<Rightarrow> bool" where
  "owner t \<longleftrightarrow> fst t \<in> {Clean, Free, Claimed, Filling, Publish}"

definition counted :: "thr \<Rightarrow> bool" where
  "counted t \<longleftrightarrow> fst t \<in> {Filling, Publish, Clean, Free, Discount}"

definition complete :: "thr \<Rightarrow> bool" where
  "complete t \<longleftrightarrow> fst t \<in> {Clean, Publish}"

definition num :: "(thr \<Rightarrow> bool) \<Rightarrow> thr multiset \<Rightarrow> nat" where
  "num P T = size (filter_mset P T)"

definition unpin_ok :: "thr \<Rightarrow> bool" where
  "unpin_ok t \<longleftrightarrow> (case fst t of Unpinning cur \<Rightarrow> cur > 0 \<and> snd t > 0 | _ \<Rightarrow> True)"

definition rinv :: "slot \<times> thr multiset \<Rightarrow> bool" where
  "rinv c \<longleftrightarrow>
     (let (s, T) = c
      in (rc s > 0 \<longrightarrow> rc s = (if producer s then 1 else 0) + int (refs T) \<and> num owner T = 0 \<and> entry s = Ready)
         \<and> (rc s \<le> 0 \<longrightarrow> refs T = 0 \<and> \<not> producer s \<and> num owner T = (if rc s = 0 then 0 else 1) \<and> rc s \<ge> -1)
         \<and> live s = (if rc s > 0 then 1 else 0) + int (num counted T)
         \<and> (num complete T > 0 \<longrightarrow> entry s = Ready)
         \<and> (\<forall>t\<in>#T. unpin_ok t))"

lemma refs_add [simp]: "refs (add_mset t T) = snd t + refs T"
  by (simp add: refs_def)

lemma num_add [simp]: "num P (add_mset t T) = (if P t then Suc (num P T) else num P T)"
  by (simp add: num_def)

lemma num_complete: "num complete T \<le> num owner T"
  by (induction T) (auto simp: complete_def owner_def num_def)

lemma num_none [simp]: "num P {#} = 0" "refs {#} = 0"
  by (simp_all add: num_def refs_def)

lemmas class_defs = owner_def counted_def complete_def unpin_ok_def

lemma rinv_init: "rinv (rinit n)"
proof -
  have "refs (replicate_mset n (Outside, 0)) = 0" "num P (replicate_mset n t) = (if P t then n else 0)" for P t
    by (induction n) simp_all
  then show ?thesis by (auto simp: rinv_def rinit_def class_defs)
qed

lemma rinv_tstep:
  assumes "tstep True s t s' t'" and "rinv (s, add_mset t T)"
  shows "rinv (s', add_mset t' T)"
  using assms num_complete [of T]
  by (cases rule: tstep.cases) (simp_all add: rinv_def class_defs split: if_splits)

lemma rinv_rstep: "rstep True c c' \<Longrightarrow> rinv c \<Longrightarrow> rinv c'"
  by (erule rstep.cases) (simp add: rinv_tstep)

lemma rreach_rinv: "rreach True n c \<Longrightarrow> rinv c"
  unfolding rreach_def by (induction rule: rtranclp_induct) (auto simp: rinv_init intro: rinv_rstep)

section \<open>Safety\<close>

lemma refs_member: "t \<in># T \<Longrightarrow> snd t \<le> refs T"
  by (auto dest!: multi_member_split)

lemma num_member: "t \<in># T \<Longrightarrow> P t \<Longrightarrow> num P T > 0"
  by (auto dest!: multi_member_split)


text \<open>One thread registers an entry, another pins it.\<close>

lemma rreach_step: "rreach strict n c \<Longrightarrow> rstep strict c c' \<Longrightarrow> rreach strict n c'"
  unfolding rreach_def by (rule rtranclp.rtrancl_into_rtrancl)

lemma rreach_tstep:
  "rreach strict n (s, add_mset t T) \<Longrightarrow> tstep strict s t s' t' \<Longrightarrow> rreach strict n (s', add_mset t' T)"
  by (erule rreach_step) (rule rstep.step)

definition published :: slot where
  "published = \<lparr>rc = 1, live = 1, entry = Ready, producer = True\<rparr>"

lemma register_run:
  "rreach strict (Suc n) (published, add_mset (Outside, 0) (replicate_mset n (Outside, 0)))"
proof -
  let ?T = "replicate_mset n (Outside, 0 :: nat)" and ?s = "\<lparr>rc = 0, live = 0, entry = Blank, producer = False\<rparr>"
  have "rreach strict (Suc n) (?s, add_mset (Outside, 0) ?T)" by (simp add: rreach_def rinit_def)
  from rreach_tstep [OF this tstep.claim] have "rreach strict (Suc n) (?s\<lparr>rc := -1\<rparr>, add_mset (Claimed, 0) ?T)" by simp
  from rreach_tstep [OF this tstep.count]
  have "rreach strict (Suc n) (?s\<lparr>rc := -1, live := 1\<rparr>, add_mset (Filling, 0) ?T)" by simp
  from rreach_tstep [OF this tstep.fill]
  have "rreach strict (Suc n) (?s\<lparr>rc := -1, live := 1, entry := Ready\<rparr>, add_mset (Publish, 0) ?T)" by simp
  from rreach_tstep [OF this tstep.publish] show ?thesis by (simp add: published_def)
qed

lemma pin_run:
  assumes "rreach strict n (s, add_mset (Outside, h) T)" and "rc s > 0"
  shows "rreach strict n (s\<lparr>rc := rc s + 1\<rparr>, add_mset (Outside, Suc h) T)"
proof -
  have "rreach strict n (s, add_mset (Pinning (rc s), h) T)" by (rule rreach_tstep [OF assms(1) tstep.pin_load])
  then show ?thesis by (rule rreach_tstep) (rule tstep.pin_cas [OF assms(2) refl])
qed


section \<open>Two threads that both drop the producer's reference\<close>

lemma unpin_run:
  assumes "rreach strict n (s, add_mset (Outside, Suc h) T)" and "rc s > 0"
  shows "rreach strict n (if rc s = 1 then (s\<lparr>rc := -1\<rparr>, add_mset (Clean, h) T)
                          else (s\<lparr>rc := rc s - 1\<rparr>, add_mset (Outside, h) T))"
proof -
  have l: "rreach strict n (s, add_mset (Unpinning (rc s), Suc h) T)" by (rule rreach_tstep [OF assms(1) tstep.unpin_load])
  show ?thesis
  proof (cases "rc s = 1")
    case True
    with l have "rreach strict n (s\<lparr>rc := -1\<rparr>, add_mset (Clean, h) T)"
      by (intro rreach_tstep [OF l]) (simp add: tstep.unpin_last)
    with True show ?thesis by simp
  next
    case False
    with assms(2) have "rreach strict n (s\<lparr>rc := rc s - 1\<rparr>, add_mset (Outside, h) T)"
      by (intro rreach_tstep [OF l] tstep.unpin_dec) simp_all
    with False show ?thesis by simp
  qed
qed

text \<open>
  Nothing in \<^verbatim>\<open>wslcompat_synth_post_close\<close> keeps a second thread from reaching the same decision,
  for instance when two threads close the last two descriptors of an entry at the same time:
  both have pinned it, and both find the probe lock free.  Without the restriction an entry is
  released under a thread that holds a reference.
\<close>

lemma double_drop:
  "\<exists>s T. rreach False 2 (s, T) \<and> (\<exists>t\<in>#T. snd t > 0 \<and> entry s = Released)"
proof -
  let ?s = "\<lambda>n p. \<lparr>rc = n, live = 1, entry = Ready, producer = p\<rparr>"
  have "rreach False 2 (?s 1 True, add_mset (Outside, 0) {#(Outside, 0)#})"
    using register_run [of False 1] by (simp add: numeral_2_eq_2 published_def)
  from pin_run [OF this] have "rreach False 2 (?s 2 True, add_mset (Outside, 0) {#(Outside, 1)#})"
    by (simp add: add_mset_commute)
  from pin_run [OF this] have "rreach False 2 (?s 3 True, add_mset (Outside, 1) {#(Outside, 1)#})" by simp
  from rreach_tstep [OF this [unfolded One_nat_def] tstep.drop_producer]
  have "rreach False 2 (?s 3 False, add_mset (Outside, 1) {#(Outside, 2)#})"
    by (simp add: add_mset_commute numeral_2_eq_2)
  from rreach_tstep [OF this [unfolded One_nat_def] tstep.drop_producer]
  have "rreach False 2 (?s 3 False, add_mset (Outside, Suc 1) {#(Outside, Suc 1)#})" by (simp add: numeral_2_eq_2)
  from unpin_run [OF this] have "rreach False 2 (?s 2 False, add_mset (Outside, Suc 1) {#(Outside, Suc 0)#})"
    by (simp add: add_mset_commute)
  from unpin_run [OF this] have "rreach False 2 (?s 1 False, add_mset (Outside, Suc 0) {#(Outside, Suc 0)#})" by simp
  from unpin_run [OF this] have "rreach False 2 (?s (-1) False, add_mset (Clean, 0) {#(Outside, Suc 0)#})" by simp
  from rreach_tstep [OF this tstep.clean]
  have "rreach False 2 (?s (-1) False\<lparr>entry := Released\<rparr>, {#(Free, 0), (Outside, Suc 0)#})" by simp
  then show ?thesis by (intro exI conjI) (assumption, rule bexI [of _ "(Outside, Suc 0)"], simp_all)
qed

section \<open>The sequential operations\<close>

text \<open>
  An operation that runs without interruption has the effect on the count that the
  sequential model gives it.
\<close>

lemma pin_sequential:
  assumes "rreach strict n (s, add_mset (Outside, h) T)" and "i < length (synth_table w)"
    and "rc s = refcount (synth_table w ! i)"
  shows "\<exists>h'. rreach strict n (s\<lparr>rc := refcount (synth_table (snd (synth_pin i w)) ! i)\<rparr>, add_mset (Outside, h') T)
    \<and> h' = (if fst (synth_pin i w) then Suc h else h)"
proof (cases "rc s > 0")
  case True
  with pin_run [OF assms(1) True] assms(2,3) show ?thesis by (simp add: synth_pin_def upd_entry_def)
next
  case False
  then have "synth_pin i w = (False, w)" using assms(3) by (simp add: synth_pin_def)
  moreover have "s\<lparr>rc := refcount (synth_table w ! i)\<rparr> = s" by (simp only: assms(3) [symmetric]) simp
  ultimately show ?thesis using assms(1) by simp
qed

context synth_handlers
begin

lemma unpin_sequential:
  assumes r: "rreach strict n (s, add_mset (Outside, Suc h) T)" and i: "i < length (synth_table w)"
    and c: "rc s = refcount (synth_table w ! i)" "rc s > 0"
  shows "\<exists>s'. rreach strict n (s', add_mset (Outside, h) T)
    \<and> rc s' = refcount (synth_table (wslcompat_synth_unpin K OPS i w) ! i)
    \<and> (rc s = 1 \<longrightarrow> entry s' = Released \<and> live s' = live s - 1)"
proof (cases "rc s = 1")
  case True
  from unpin_run [OF r c(2)] True have "rreach strict n (s\<lparr>rc := -1\<rparr>, add_mset (Clean, h) T)" by simp
  from rreach_tstep [OF rreach_tstep [OF rreach_tstep [OF this tstep.clean] tstep.free] tstep.discount]
  have "rreach strict n (s\<lparr>entry := Released, rc := 0, live := live s - 1\<rparr>, add_mset (Outside, h) T)" by simp
  moreover have "refcount (synth_table (wslcompat_synth_unpin K OPS i w) ! i) = 0"
  proof -
    have "refcount (cores (wslcompat_synth_unpin K OPS i w) ! i) = 0"
      using unpin_cores(1) [OF i, of K] True c(1) i by (simp add: nth_cores)
    moreover have "length (synth_table (wslcompat_synth_unpin K OPS i w)) = length (synth_table w)"
      using arg_cong [OF unpin_cores(1) [OF i, of K], of length] by simp
    ultimately show ?thesis using i by (simp add: nth_cores)
  qed
  ultimately show ?thesis using True by (intro exI conjI) (assumption, simp_all)
next
  case False
  from unpin_run [OF r c(2)] False have "rreach strict n (s\<lparr>rc := rc s - 1\<rparr>, add_mset (Outside, h) T)" by simp
  moreover have "refcount (synth_table (wslcompat_synth_unpin K OPS i w) ! i) = rc s - 1"
    using False c i by (simp add: wslcompat_synth_unpin_def Let_def upd_entry_def)
  ultimately show ?thesis using False by (intro exI conjI) (assumption, simp_all)
qed

end

end
