(* ===== verification/Statx.thy ===== *)
theory Statx
  imports Dispatch "HOL-Library.Product_Lexorder"
begin

text \<open>
  statx.c: the statx shim.  It supplies what the WSL1 kernel leaves out: the mount id, from
  the mount table of the process; whether a directory is a mount root; and the birth time,
  from the attribute the open shim writes when it creates a file, or the earlier of the two
  other times.  The kernel's own statx, the attribute calls and \<^verbatim>\<open>fstatat\<close> are parameters.
\<close>

section \<open>The data\<close>

abbreviation (input) PATH_MAX :: nat where "PATH_MAX \<equiv> 4096"

abbreviation (input) STATX_TYPE :: int where "STATX_TYPE \<equiv> 0x1"
abbreviation (input) STATX_MTIME :: int where "STATX_MTIME \<equiv> 0x40"
abbreviation (input) STATX_CTIME :: int where "STATX_CTIME \<equiv> 0x80"
abbreviation (input) STATX_INO :: int where "STATX_INO \<equiv> 0x100"
abbreviation (input) STATX_BTIME :: int where "STATX_BTIME \<equiv> 0x800"
abbreviation (input) STATX_MNT_ID :: int where "STATX_MNT_ID \<equiv> 0x1000"
abbreviation (input) STATX_ATTR_MOUNT_ROOT :: int where "STATX_ATTR_MOUNT_ROOT \<equiv> 0x2000"
abbreviation (input) AT_SYMLINK_NOFOLLOW :: int where "AT_SYMLINK_NOFOLLOW \<equiv> 0x100"
abbreviation (input) AT_NO_AUTOMOUNT :: int where "AT_NO_AUTOMOUNT \<equiv> 0x800"
abbreviation (input) S_IFMT :: int where "S_IFMT \<equiv> 0xF000"
abbreviation (input) S_IFDIR :: int where "S_IFDIR \<equiv> 0x4000"

record statx_timestamp =
  stx_sec :: int
  stx_nsec :: "32 word"

record statx =
  stx_mask :: int
  stx_attributes :: int
  stx_attributes_mask :: int
  stx_mode :: int
  stx_ino :: nat
  stx_dev_major :: "32 word"
  stx_dev_minor :: "32 word"
  stx_mnt_id :: "64 word"
  stx_btime :: statx_timestamp
  stx_mtime :: statx_timestamp
  stx_ctime :: statx_timestamp

record 'k statx_kernel =
  n_statx :: "int \<Rightarrow> cstring option \<Rightarrow> int \<Rightarrow> int \<Rightarrow> 'k \<Rightarrow> (int + statx) \<times> 'k"
  s_pread :: "int \<Rightarrow> nat \<Rightarrow> int \<Rightarrow> 'k \<Rightarrow> (int + bytes) \<times> 'k"
  s_fstatat :: "int \<Rightarrow> cstring \<Rightarrow> int \<Rightarrow> 'k \<Rightarrow> (int + stat) \<times> 'k"
  s_getxattr :: "cstring \<Rightarrow> cstring \<Rightarrow> nat \<Rightarrow> 'k \<Rightarrow> (int + bytes) \<times> 'k"
  s_lgetxattr :: "cstring \<Rightarrow> cstring \<Rightarrow> nat \<Rightarrow> 'k \<Rightarrow> (int + bytes) \<times> 'k"

section \<open>The mount id\<close>

definition statx_init :: "'k world \<Rightarrow> 'k world" where
  "statx_init = wslcompat_register_internal_fd Mount_fd"

definition statx_fini :: "'k kernel \<Rightarrow> 'k world \<Rightarrow> 'k world" where
  "statx_fini K w = (if islot w Mount_fd \<ge> 0 then snd (sys (k_close K (islot w Mount_fd)) w) else w)"

text \<open>The lazy open of the mount table: the descriptor to use, negative where there is none.\<close>

definition mount_fd_open :: "'k kernel \<Rightarrow> 'k world \<Rightarrow> int \<times> 'k world" where
  "mount_fd_open K w =
     (let fd = islot w Mount_fd
      in if fd < -1
         then (let (opened, w1) = sys (k_open K ''/proc/self/mountinfo'' (O_RDONLY OR O_CLOEXEC)) w
               in case opened of
                    None \<Rightarrow> (-1, w1\<lparr>islot := (islot w1)(Mount_fd := -1)\<rparr>)
                  | Some nfd \<Rightarrow>
                      (let w2 = (if islot w1 Mount_fd = -2
                                 then w1\<lparr>islot := (islot w1)(Mount_fd := nfd)\<rparr>
                                 else snd (sys (k_close K nfd) w1))
                       in (islot w2 Mount_fd, w2)))
         else (fd, w))"

text \<open>One line of the table: the id, the device numbers and what follows them.\<close>

definition mnt_line :: "cstring \<Rightarrow> (64 word \<times> 32 word \<times> 32 word \<times> cstring) option" where
  "mnt_line s =
     (let (mid, p1) = strtoull s;
          p2 = snd (strtoull p1);
          (maj, p3) = strtoull p2
      in case p3 of
           [] \<Rightarrow> None
         | c # p4 \<Rightarrow>
             (if c \<noteq> CHR '':'' then None
              else (let (mnr, p5) = strtoull p4 in Some (mid, ucast maj, ucast mnr, p5))))"

lemma digits_acc_length: "length (snd (digits_acc n s)) \<le> length s"
  by (induction n s rule: digits_acc.induct) auto

lemma c_sign_length: "length (snd (c_sign s)) \<le> length s"
  by (cases s) auto

lemma scan_dec_length:
  assumes "scan_dec s = Some (neg, n, r)"
  shows "length r \<le> length s"
proof -
  have "length (dropWhile is_space s) \<le> length s" by (rule length_dropWhile_le)
  moreover have "length (snd (c_sign (dropWhile is_space s))) \<le> length (dropWhile is_space s)"
    by (rule c_sign_length)
  moreover have "length r \<le> length (snd (c_sign (dropWhile is_space s)))"
    using assms digits_acc_length [of 0 "snd (c_sign (dropWhile is_space s))"]
    by (auto simp: scan_dec_def case_prod_beta Let_def split: list.splits if_splits)
  ultimately show ?thesis by linarith
qed

lemma strtoull_length: "length (snd (strtoull s)) \<le> length s"
  by (auto simp: strtoull_def dest: scan_dec_length split: option.split)

lemma mnt_line_length:
  assumes "mnt_line s = Some (i, a, b, r)"
  shows "length r < length s"
proof -
  define p1 where "p1 = snd (strtoull s)"
  define p2 where "p2 = snd (strtoull p1)"
  define p3 where "p3 = snd (strtoull p2)"
  obtain c p4 where p4: "p3 = c # p4" "r = snd (strtoull p4)"
    using assms
    by (auto simp: mnt_line_def case_prod_beta Let_def p1_def p2_def p3_def split: list.splits if_splits)
  have "length p1 \<le> length s" unfolding p1_def by (rule strtoull_length)
  moreover have "length p2 \<le> length p1" unfolding p2_def by (rule strtoull_length)
  moreover have "length p3 \<le> length p2" unfolding p3_def by (rule strtoull_length)
  moreover have "length r \<le> length p4" unfolding p4(2) by (rule strtoull_length)
  ultimately show ?thesis by (simp add: p4(1))
qed

lemma strchr_length: "strchr c s = Some t \<Longrightarrow> length t \<le> length s"
  by (metis (lifting) length_dropWhile_le list.case_eq_if not_None_eq option.inject list.collapse strchr_def)

function mnt_scan :: "cstring \<Rightarrow> 32 word \<Rightarrow> 32 word \<Rightarrow> 64 word" where
  "mnt_scan s maj mnr =
     (if s = [] then 0
      else case mnt_line s of
             None \<Rightarrow> 0
           | Some (mid, r_maj, r_min, p) \<Rightarrow>
               (if r_maj = maj \<and> r_min = mnr then mid
                else case strchr (CHR 0x0A) p of
                       None \<Rightarrow> 0
                     | Some q \<Rightarrow> mnt_scan (tl q) maj mnr))"
  by pat_completeness auto

termination
  by (relation "measure (\<lambda>(s, _). length s)")
    (auto dest!: mnt_line_length strchr_length)

declare mnt_scan.simps [simp del]

definition lookup_mnt_id :: "'k kernel \<Rightarrow> 'k statx_kernel \<Rightarrow> 32 word \<Rightarrow> 32 word \<Rightarrow> 'k world \<Rightarrow> 64 word \<times> 'k world" where
  "lookup_mnt_id K X maj mnr w =
     (let (fd, w1) = mount_fd_open K w
      in if fd < 0 then (0, w1)
         else (let (r, w2) = sys (s_pread X fd 8191 0) w1
               in case r of
                    None \<Rightarrow> (0, w2)
                  | Some b \<Rightarrow> (if b = [] then (0, w2) else (mnt_scan (cstr b) maj mnr, w2))))"

section \<open>Mount roots\<close>

text \<open>\<^verbatim>\<open>makedev\<close> of the C library.\<close>

definition makedev :: "32 word \<Rightarrow> 32 word \<Rightarrow> 64 word" where
  "makedev maj mnr =
     (push_bit 32 (ucast (maj AND 0xfffff000)) OR push_bit 8 (ucast (maj AND 0xfff)))
     OR (push_bit 12 (ucast (mnr AND 0xffffff00)) OR ucast (mnr AND 0xff))"

definition is_mount_root ::
  "'k statx_kernel \<Rightarrow> int \<Rightarrow> cstring option \<Rightarrow> int \<Rightarrow> statx \<Rightarrow> 'k world \<Rightarrow> bool \<times> 'k world" where
  "is_mount_root X dirfd pathname flags stx w =
     (if \<not> has_flag (stx_mask stx) STATX_TYPE \<or> stx_mode stx AND S_IFMT \<noteq> S_IFDIR then (False, w)
      else if \<not> has_flag (stx_mask stx) STATX_INO then (False, w)
      else
        (let dev = makedev (stx_dev_major stx) (stx_dev_minor stx);
             verdict = (\<lambda>(r, w1). case r of
                          None \<Rightarrow> (False, w1)
                        | Some parent \<Rightarrow> (unat dev \<noteq> st_dev parent \<or> stx_ino stx = st_ino parent, w1))
         in case pathname of
              None \<Rightarrow> verdict (sys (s_fstatat X dirfd ''..'' (flags AND AT_NO_AUTOMOUNT)) w)
            | Some p \<Rightarrow>
                (if p = [] then verdict (sys (s_fstatat X dirfd ''..'' (flags AND AT_NO_AUTOMOUNT)) w)
                 else if length p + 3 \<ge> PATH_MAX then (False, w)
                 else verdict (sys (s_fstatat X dirfd (p @ ''/..'') (flags AND AT_NO_AUTOMOUNT)) w))))"

section \<open>Birth time\<close>

definition stx_ts_min :: "statx_timestamp \<Rightarrow> statx_timestamp \<Rightarrow> statx_timestamp" where
  "stx_ts_min a b =
     (if stx_sec a < stx_sec b then a
      else if stx_sec b < stx_sec a then b
      else if stx_nsec a < stx_nsec b then a
      else b)"

text \<open>The path the attribute is read through.\<close>

definition btime_target :: "int \<Rightarrow> cstring \<Rightarrow> cstring" where
  "btime_target dirfd p =
     (if hd p \<noteq> CHR ''/'' \<and> dirfd \<noteq> AT_FDCWD
      then snprintf_str PATH_MAX (''/proc/self/fd/'' @ show_int dirfd @ ''/'' @ p)
      else p)"

text \<open>
  \<^verbatim>\<open>sscanf(buf, "%lld.%u", ...)\<close> on the attribute: with one conversion only the seconds have
  been stored, and the call counts as failed.
\<close>

definition scan_btime :: "bytes \<Rightarrow> statx_timestamp \<Rightarrow> bool \<times> statx_timestamp" where
  "scan_btime b ts =
     (case sscanf_lld_dot_u (cstr b) of
        Some (sec, nsec) \<Rightarrow> (True, ts\<lparr>stx_sec := sec, stx_nsec := nsec\<rparr>)
      | None \<Rightarrow>
          (case scan_dec (cstr b) of
             None \<Rightarrow> (False, ts)
           | Some (neg, n, _) \<Rightarrow>
               (False, ts\<lparr>stx_sec := clamp_long (if neg then - int n else int n)\<rparr>)))"

definition read_btime_xattr ::
  "'k kernel \<Rightarrow> 'k ops_table \<Rightarrow> 'k libc_io \<Rightarrow> 'k statx_kernel \<Rightarrow> int \<Rightarrow> cstring option \<Rightarrow> int
   \<Rightarrow> statx_timestamp \<Rightarrow> 'k world \<Rightarrow> (bool \<times> statx_timestamp) \<times> 'k world" where
  "read_btime_xattr K OPS N X dirfd pathname flags ts w =
     (case pathname of
        None \<Rightarrow> ((False, ts), w)
      | Some p \<Rightarrow>
          (let (r, w1) =
                 (if p \<noteq> []
                  then (if has_flag flags AT_SYMLINK_NOFOLLOW
                        then sys (s_lgetxattr X (btime_target dirfd p) BTIME_XATTR 63) w
                        else sys (s_getxattr X (btime_target dirfd p) BTIME_XATTR 63) w)
                  else if dirfd = AT_FDCWD then sys (s_getxattr X ''.'' BTIME_XATTR 63) w
                  else fgetxattr_shim K OPS N dirfd BTIME_XATTR 63 w)
           in case r of
                None \<Rightarrow> ((False, ts), w1)
              | Some b \<Rightarrow> (scan_btime b ts, w1)))"

section \<open>statx\<close>

definition statx_forced :: int where
  "statx_forced = STATX_INO OR (STATX_TYPE OR (STATX_MTIME OR STATX_CTIME))"

definition statx_mnt_id ::
  "'k kernel \<Rightarrow> 'k statx_kernel \<Rightarrow> int \<Rightarrow> statx \<Rightarrow> 'k world \<Rightarrow> statx \<times> 'k world" where
  "statx_mnt_id K X want stx w =
     (if has_flag want STATX_MNT_ID \<and> \<not> has_flag (stx_mask stx) STATX_MNT_ID
      then (let (mid, w1) = lookup_mnt_id K X (stx_dev_major stx) (stx_dev_minor stx) w;
                stx1 = stx\<lparr>stx_mnt_id := mid\<rparr>
            in (if mid \<noteq> 0 then stx1\<lparr>stx_mask := stx_mask stx1 OR STATX_MNT_ID\<rparr> else stx1, w1))
      else (stx, w))"

definition statx_mount_root ::
  "'k statx_kernel \<Rightarrow> int \<Rightarrow> cstring option \<Rightarrow> int \<Rightarrow> statx \<Rightarrow> 'k world \<Rightarrow> statx \<times> 'k world" where
  "statx_mount_root X dirfd pathname flags stx w =
     (if has_flag (stx_attributes_mask stx) STATX_ATTR_MOUNT_ROOT then (stx, w)
      else (let (b, w1) = is_mount_root X dirfd pathname flags stx w;
                stx1 = (if b then stx\<lparr>stx_attributes := stx_attributes stx OR STATX_ATTR_MOUNT_ROOT\<rparr> else stx)
            in (stx1\<lparr>stx_attributes_mask := stx_attributes_mask stx1 OR STATX_ATTR_MOUNT_ROOT\<rparr>, w1)))"

definition statx_btime ::
  "'k kernel \<Rightarrow> 'k ops_table \<Rightarrow> 'k libc_io \<Rightarrow> 'k statx_kernel \<Rightarrow> int \<Rightarrow> cstring option \<Rightarrow> int \<Rightarrow> int
   \<Rightarrow> statx \<Rightarrow> 'k world \<Rightarrow> statx \<times> 'k world" where
  "statx_btime K OPS N X dirfd pathname flags want stx w =
     (if has_flag want STATX_BTIME \<and> \<not> has_flag (stx_mask stx) STATX_BTIME
      then (let ((ok, ts), w1) = read_btime_xattr K OPS N X dirfd pathname flags (stx_btime stx) w;
                stx1 = stx\<lparr>stx_btime := ts\<rparr>
            in if ok then (stx1\<lparr>stx_mask := stx_mask stx1 OR STATX_BTIME\<rparr>, w1)
               else if has_flag (stx_mask stx1) STATX_MTIME \<and> has_flag (stx_mask stx1) STATX_CTIME
               then (stx1\<lparr>stx_btime := stx_ts_min (stx_mtime stx1) (stx_ctime stx1),
                          stx_mask := stx_mask stx1 OR STATX_BTIME\<rparr>, w1)
               else (stx1, w1))
      else (stx, w))"

definition statx_shim ::
  "'k kernel \<Rightarrow> 'k ops_table \<Rightarrow> 'k libc_io \<Rightarrow> 'k statx_kernel \<Rightarrow> int \<Rightarrow> cstring option \<Rightarrow> int \<Rightarrow> int
   \<Rightarrow> ('k, statx) call" where
  "statx_shim K OPS N X dirfd pathname flags want w =
     (if passthru ''statx'' w then sys (n_statx X dirfd pathname flags want) w
      else
        (let (r, w1) = sys (n_statx X dirfd pathname flags (want OR statx_forced)) w
         in case r of
              None \<Rightarrow> (None, w1)
            | Some stx \<Rightarrow>
                (let (stx1, w2) = statx_mnt_id K X want stx w1;
                     (stx2, w3) = statx_mount_root X dirfd pathname flags stx1 w2;
                     (stx3, w4) = statx_btime K OPS N X dirfd pathname flags want stx2 w3
                 in (Some (stx3\<lparr>stx_mask := stx_mask stx3 AND NOT (statx_forced AND NOT want)\<rparr>), w4))))"

section \<open>The recorded birth time\<close>

lemma NUL_not_digit: "\<not> is_digit NUL"
  by (simp add: is_digit_def NUL_def)

lemma show_nat_no_NUL: "NUL \<notin> set (show_nat n)"
  using show_nat_digits [of n] NUL_not_digit by auto

lemma show_int_no_NUL: "NUL \<notin> set (show_int i)"
  by (auto simp: show_int_def show_nat_no_NUL) (simp add: NUL_def)

lemma print_btime_no_NUL: "0 \<le> nsec \<Longrightarrow> NUL \<notin> set (print_btime sec nsec)"
  by (auto simp: print_btime_def zero_pad_def show_int_no_NUL) (simp_all add: NUL_def)

lemma cstr_no_NUL: "NUL \<notin> set s \<Longrightarrow> cstr s = s"
  unfolding cstr_def by (metis (mono_tags, lifting) takeWhile_eq_all_conv)

lemma length_show_int:
  assumes "LONG_MIN \<le> i" and "i \<le> LONG_MAX"
  shows "length (show_int i) \<le> 20"
proof -
  have "nat \<bar>i\<bar> < 10 ^ 19" using assms by (simp add: LONG_MIN_def LONG_MAX_def)
  then have "length (show_nat (nat \<bar>i\<bar>)) \<le> 19" by (rule length_show_nat) simp
  then show ?thesis by (cases "i < 0") (simp_all add: show_int_def)
qed

text \<open>The 32 bytes of \<^verbatim>\<open>record_btime_now\<close> hold every time there is.\<close>

lemma length_print_btime:
  assumes "LONG_MIN \<le> sec" and "sec \<le> LONG_MAX" and "0 \<le> nsec" and "nsec < 10 ^ 9"
  shows "length (print_btime sec nsec) \<le> 30"
proof -
  have "nat nsec < 10 ^ 9" using assms by simp
  then have "length (show_nat (nat nsec)) \<le> 9" by (rule length_show_nat) simp
  with length_show_int [OF assms(1,2)] assms(3) show ?thesis
    by (simp add: print_btime_def zero_pad_def show_int_def)
qed

lemma scan_print_btime:
  assumes "LONG_MIN \<le> sec" and "sec \<le> LONG_MAX" and "0 \<le> nsec" and "nsec < 10 ^ 9"
  shows "scan_btime (snprintf_str 32 (print_btime sec nsec)) ts
           = (True, ts\<lparr>stx_sec := sec, stx_nsec := of_int nsec\<rparr>)"
proof -
  have same: "cstr (snprintf_str 32 (print_btime sec nsec)) = print_btime sec nsec"
    using length_print_btime [OF assms] print_btime_no_NUL [OF assms(3)]
    by (simp add: snprintf_str_def cstr_no_NUL)
  have pad: "scan_dec (zero_pad 9 (show_nat (nat nsec))) = Some (False, nat nsec, [])"
    using scan_dec_zero_pad [of "[]" 9 "nat nsec"] by simp
  have small: "\<not> ULONG_MAX < nat nsec" using assms by (simp add: ULONG_MAX_def)
  have cast: "ucast (word_of_int nsec :: 64 word) = (word_of_int nsec :: 32 word)"
    using assms by (simp add: unsigned_of_int take_bit_int_eq_self)
  have "sscanf_lld_dot_u (print_btime sec nsec) = Some (sec, of_int nsec)"
    using assms scan_dec_show_int [of "CHR ''.'' # zero_pad 9 (show_nat (nat nsec))" sec]
    by (simp add: sscanf_lld_dot_u_def print_btime_def show_int_def [of nsec] is_digit_def pad strtoull_def
        small cast clamp_long_def)
  then show ?thesis by (simp add: scan_btime_def same)
qed

text \<open>A call that does not change the part \<open>a\<close> of the kernel's state.\<close>

definition keeps :: "('k \<Rightarrow> 'v) \<Rightarrow> ('k \<Rightarrow> 'a \<times> 'k) \<Rightarrow> bool" where
  "keeps a f \<longleftrightarrow> (\<forall>k. a (snd (f k)) = a k)"

lemma keeps_sys [simp]: "keeps a f \<Longrightarrow> a (kst (snd (sys f w))) = a (kst w)"
  by (auto simp: keeps_def sys_def split: prod.split sum.split) (metis snd_conv)+

text \<open>The calls statx makes before it looks for the birth time leave an attribute alone.\<close>

definition statx_keeps :: "('k \<Rightarrow> 'v) \<Rightarrow> 'k kernel \<Rightarrow> 'k statx_kernel \<Rightarrow> bool" where
  "statx_keeps a K X \<longleftrightarrow>
     (\<forall>d p f m. keeps a (n_statx X d p f m)) \<and> (\<forall>fd n off. keeps a (s_pread X fd n off))
     \<and> (\<forall>d p f. keeps a (s_fstatat X d p f)) \<and> (\<forall>p f. keeps a (k_open K p f)) \<and> (\<forall>fd. keeps a (k_close K fd))"

lemma mount_fd_open_keeps: "statx_keeps a K X \<Longrightarrow> a (kst (snd (mount_fd_open K w))) = a (kst w)"
  by (simp add: statx_keeps_def mount_fd_open_def case_prod_beta Let_def split: option.split)

lemma lookup_mnt_id_keeps: "statx_keeps a K X \<Longrightarrow> a (kst (snd (lookup_mnt_id K X maj mnr w))) = a (kst w)"
  using mount_fd_open_keeps [of a K X w]
  by (simp add: statx_keeps_def lookup_mnt_id_def case_prod_beta Let_def split: option.split)

lemma is_mount_root_keeps:
  "statx_keeps a K X \<Longrightarrow> a (kst (snd (is_mount_root X dirfd p flags stx w))) = a (kst w)"
  by (simp add: statx_keeps_def is_mount_root_def case_prod_beta Let_def split: option.split)

lemma statx_mnt_id_keeps:
  assumes "statx_mnt_id K X want stx w = (stx', w')"
  shows "statx_keeps a K X \<Longrightarrow> a (kst w') = a (kst w)"
    and "stx_mask stx' = stx_mask stx \<or> stx_mask stx' = stx_mask stx OR STATX_MNT_ID"
    and "stx_btime stx' = stx_btime stx" and "stx_mtime stx' = stx_mtime stx" and "stx_ctime stx' = stx_ctime stx"
  using assms lookup_mnt_id_keeps [of a K X "stx_dev_major stx" "stx_dev_minor stx" w]
  by (auto simp: statx_mnt_id_def Let_def split: if_splits prod.splits)

lemma statx_mount_root_keeps:
  assumes "statx_mount_root X dirfd p flags stx w = (stx', w')"
  shows "statx_keeps a K X \<Longrightarrow> a (kst w') = a (kst w)"
    and "stx_mask stx' = stx_mask stx" and "stx_btime stx' = stx_btime stx"
    and "stx_mtime stx' = stx_mtime stx" and "stx_ctime stx' = stx_ctime stx"
  using assms is_mount_root_keeps [of a K X dirfd p flags stx w]
  by (auto simp: statx_mount_root_def Let_def split: if_splits prod.splits)

lemma statx_forced_bits: "bit statx_forced n \<longleftrightarrow> n = 0 \<or> n = 6 \<or> n = 7 \<or> n = 8"
proof -
  have "bit statx_forced n \<longleftrightarrow> bit (2 ^ 8 OR (2 ^ 0 OR (2 ^ 6 OR 2 ^ 7)) :: int) n" by (simp add: statx_forced_def)
  also have "\<dots> \<longleftrightarrow> n = 0 \<or> n = 6 \<or> n = 7 \<or> n = 8" by (simp only: bit_or_iff bit_exp_iff) auto
  finally show ?thesis .
qed

lemma btime_flag: "has_flag f STATX_BTIME \<longleftrightarrow> bit f 11"
  using has_flag_bit [of f 11] by simp

lemma mnt_id_bit: "bit (f OR STATX_MNT_ID) n \<longleftrightarrow> bit f n \<or> n = 12"
  using bit_exp_iff [of 12 n, where 'a = int] by (auto simp: bit_or_iff)

lemma btime_bit: "bit (f OR STATX_BTIME) n \<longleftrightarrow> bit f n \<or> n = 11"
  using bit_exp_iff [of 11 n, where 'a = int] by (auto simp: bit_or_iff)

text \<open>The mask a caller sees, bit by bit.\<close>

lemma statx_mask_bits:
  assumes "\<not> passthru ''statx'' w" and "n_statx X dirfd p flags (want OR statx_forced) (kst w) = (Inr stx, k)"
    and "statx_shim K OPS N X dirfd p flags want w = (Some out, w')"
  shows "n \<noteq> 11 \<Longrightarrow> n \<noteq> 12 \<Longrightarrow> bit (stx_mask out) n \<longleftrightarrow> bit (stx_mask stx) n \<and> (bit statx_forced n \<longrightarrow> bit want n)"
    and "bit (stx_mask stx) n \<Longrightarrow> bit want n \<Longrightarrow> bit (stx_mask out) n"
    and "bit (stx_mask out) n \<Longrightarrow> bit want n \<or> bit (stx_mask stx) n"
proof -
  define w1 where "w1 = w\<lparr>kst := k\<rparr>"
  have s: "sys (n_statx X dirfd p flags (want OR statx_forced)) w = (Some stx, w1)"
    using assms(2) by (simp add: sys_def w1_def)
  obtain stx1 w2 where 1: "statx_mnt_id K X want stx w1 = (stx1, w2)" by fastforce
  obtain stx2 w3 where 2: "statx_mount_root X dirfd p flags stx1 w2 = (stx2, w3)" by fastforce
  obtain stx3 w4 where 3: "statx_btime K OPS N X dirfd p flags want stx2 w3 = (stx3, w4)" by fastforce
  have out: "stx_mask out = stx_mask stx3 AND NOT (statx_forced AND NOT want)"
    using assms(1,3) s 1 2 3 by (auto simp: statx_shim_def)
  have m1: "stx_mask stx1 = stx_mask stx \<or> stx_mask stx1 = stx_mask stx OR STATX_MNT_ID \<and> has_flag want STATX_MNT_ID"
    using 1 by (auto simp: statx_mnt_id_def Let_def split: if_splits prod.splits)
  have m2: "stx_mask stx2 = stx_mask stx1" by (rule statx_mount_root_keeps [OF 2])
  have m3: "stx_mask stx3 = stx_mask stx2 \<or> stx_mask stx3 = stx_mask stx2 OR STATX_BTIME \<and> has_flag want STATX_BTIME"
    using 3 by (auto simp: statx_btime_def Let_def split: if_splits prod.splits)
  have mnt: "has_flag want STATX_MNT_ID \<longleftrightarrow> bit want 12" using has_flag_bit [of want 12] by simp
  have bits: "bit (stx_mask out) n \<longleftrightarrow> bit (stx_mask stx3) n \<and> (bit statx_forced n \<longrightarrow> bit want n)" for n
    by (auto simp: out bit_and_iff bit_or_iff bit_not_iff)
  show "n \<noteq> 11 \<Longrightarrow> n \<noteq> 12 \<Longrightarrow> bit (stx_mask out) n \<longleftrightarrow> bit (stx_mask stx) n \<and> (bit statx_forced n \<longrightarrow> bit want n)"
    using m1 m2 m3 bits [of n] by (auto simp: mnt_id_bit btime_bit)
  show "bit (stx_mask stx) n \<Longrightarrow> bit want n \<Longrightarrow> bit (stx_mask out) n"
    using m1 m2 m3 bits [of n] by (auto simp: mnt_id_bit btime_bit)
  show "bit (stx_mask out) n \<Longrightarrow> bit want n \<or> bit (stx_mask stx) n"
    using m1 m2 m3 bits [of n] mnt by (auto simp: mnt_id_bit btime_bit btime_flag)
qed

text \<open>
  C10: A file created under the library reports its creation time: after the open shim has
  recorded the time the clock shows, a statx of the file that asks for the birth time, which
  the kernel does not supply, returns exactly those seconds and nanoseconds and says so in
  the mask.  The kernel is assumed to keep extended attributes: a set attribute is read back
  through the file's path, and the calls statx makes on the way do not change it.
\<close>

theorem statx_recorded_btime:
  assumes "\<not> passthru ''statx'' w" and "p \<noteq> []"
    and clock: "k_clock_gettime K CLOCK_REALTIME (kst w) = (Inr (sec, nsec), kst w)"
    and range: "LONG_MIN \<le> sec" "sec \<le> LONG_MAX" "0 \<le> nsec" "nsec < 10 ^ 9"
    and set_attr: "\<And>v k. \<exists>k'. k_fsetxattr K fd BTIME_XATTR v XATTR_CREATE k = (Inr 0, k') \<and> attr k' = Some v"
    and get_attr: "\<And>v k. attr k = Some v \<Longrightarrow>
          (if has_flag flags AT_SYMLINK_NOFOLLOW then s_lgetxattr X else s_getxattr X)
            (btime_target dirfd p) BTIME_XATTR 63 k = (Inr v, k)"
    and frame: "statx_keeps attr K X"
    and stat: "\<And>k. fst (n_statx X dirfd (Some p) flags (want OR statx_forced) k) = Inr stx"
    and "has_flag want STATX_BTIME" and "\<not> has_flag (stx_mask stx) STATX_BTIME"
  shows "\<exists>out w'. statx_shim K OPS N X dirfd (Some p) flags want (record_btime_now K fd w) = (Some out, w')
           \<and> stx_sec (stx_btime out) = sec \<and> stx_nsec (stx_btime out) = of_int nsec
           \<and> has_flag (stx_mask out) STATX_BTIME"
proof -
  define v where "v = snprintf_str 32 (print_btime sec nsec)"
  define w0 where "w0 = record_btime_now K fd w"
  have "sys (k_clock_gettime K CLOCK_REALTIME) w = (Some (sec, nsec), w)"
    using clock by (simp add: sys_def)
  then have a0: "attr (kst w0) = Some v"
    using set_attr [of v "kst w"] by (auto simp: w0_def record_btime_now_def v_def sys_def)
  have "same_lib w w0" by (simp add: w0_def)
  with assms(1) have pass: "\<not> passthru ''statx'' w0" by (simp add: passthru_def same_libD)
  obtain w1 where 0: "sys (n_statx X dirfd (Some p) flags (want OR statx_forced)) w0 = (Some stx, w1)"
    using stat [of "kst w0"] by (cases "n_statx X dirfd (Some p) flags (want OR statx_forced) (kst w0)") (simp add: sys_def)
  obtain stx1 w2 where 1: "statx_mnt_id K X want stx w1 = (stx1, w2)" by fastforce
  obtain stx2 w3 where 2: "statx_mount_root X dirfd (Some p) flags stx1 w2 = (stx2, w3)" by fastforce
  have "attr (kst w1) = attr (kst w0)"
    using frame 0 keeps_sys [of attr "n_statx X dirfd (Some p) flags (want OR statx_forced)" w0] by (simp add: statx_keeps_def)
  with a0 frame have a3: "attr (kst w3) = Some v"
    using statx_mnt_id_keeps(1) [OF 1 frame] statx_mount_root_keeps(1) [OF 2 frame] by simp
  have nb: "\<not> bit (stx_mask stx2) 11"
    using statx_mnt_id_keeps(2) [OF 1] statx_mount_root_keeps(2) [OF 2] assms(13) by (auto simp: btime_flag mnt_id_bit)
  have "read_btime_xattr K OPS N X dirfd (Some p) flags (stx_btime stx2) w3
          = ((True, (stx_btime stx2)\<lparr>stx_sec := sec, stx_nsec := of_int nsec\<rparr>), w3)"
    using get_attr [OF a3] assms(2) scan_print_btime [OF range]
    by (auto simp: read_btime_xattr_def sys_def v_def split: if_splits)
  with nb assms(12) have 3: "statx_btime K OPS N X dirfd (Some p) flags want stx2 w3
      = (stx2\<lparr>stx_btime := (stx_btime stx2)\<lparr>stx_sec := sec, stx_nsec := of_int nsec\<rparr>,
              stx_mask := stx_mask stx2 OR STATX_BTIME\<rparr>, w3)"
    by (simp add: statx_btime_def btime_flag)
  show ?thesis
    using pass 0 1 2 3 by (auto simp: statx_shim_def w0_def [symmetric] btime_flag bit_and_iff bit_not_iff
        btime_bit bit_or_iff statx_forced_bits)
qed

definition example_attr_kernel :: "bytes option kernel" where
  "example_attr_kernel =
     null_kernel\<lparr>k_clock_gettime := (\<lambda>_ k. (Inr (1700000000, 5), k)),
                 k_fsetxattr := (\<lambda>_ _ v _ _. (Inr 0, Some v))\<rparr>"

definition example_statx :: statx where
  "example_statx =
     \<lparr>stx_mask = 0x7ff, stx_attributes = 0, stx_attributes_mask = 0, stx_mode = 0x81a4, stx_ino = 7,
      stx_dev_major = 8, stx_dev_minor = 17, stx_mnt_id = 0, stx_btime = \<lparr>stx_sec = 0, stx_nsec = 0\<rparr>,
      stx_mtime = \<lparr>stx_sec = 1800000000, stx_nsec = 7\<rparr>, stx_ctime = \<lparr>stx_sec = 1800000000, stx_nsec = 9\<rparr>\<rparr>"

definition example_statx_kernel :: "bytes option statx_kernel" where
  "example_statx_kernel =
     \<lparr>n_statx = (\<lambda>_ _ _ _ k. (Inr example_statx, k)), s_pread = (\<lambda>_ _ _ k. (Inl ENOSYS, k)),
      s_fstatat = (\<lambda>_ _ _ k. (Inl ENOSYS, k)),
      s_getxattr = (\<lambda>_ _ _ k. (case k of None \<Rightarrow> Inl 61 | Some v \<Rightarrow> Inr v, k)),
      s_lgetxattr = (\<lambda>_ _ _ k. (case k of None \<Rightarrow> Inl 61 | Some v \<Rightarrow> Inr v, k))\<rparr>"

theorem statx_recorded_btime_witness:
  "\<exists>out w'. statx_shim example_attr_kernel (\<lambda>_. no_ops) null_io example_statx_kernel AT_FDCWD (Some ''f'') 0
       STATX_BTIME (record_btime_now example_attr_kernel 3 (static_world None)) = (Some out, w')
     \<and> stx_sec (stx_btime out) = 1700000000 \<and> stx_nsec (stx_btime out) = of_int 5
     \<and> has_flag (stx_mask out) STATX_BTIME"
proof (rule statx_recorded_btime [where attr = "\<lambda>k. k" and stx = example_statx])
  show "\<not> passthru ''statx'' (static_world None)" by code_simp
  show "statx_keeps (\<lambda>k. k) example_attr_kernel example_statx_kernel"
    by (simp add: statx_keeps_def keeps_def example_attr_kernel_def example_statx_kernel_def null_kernel_def)
qed (simp_all add: example_attr_kernel_def example_statx_kernel_def example_statx_def static_world_def
    LONG_MIN_def LONG_MAX_def has_flag_def)

section \<open>The mount table\<close>

text \<open>A line of \<^verbatim>\<open>/proc/self/mountinfo\<close>: id, parent, device, and the fields not looked at.\<close>

definition mountinfo_line :: "nat \<times> nat \<times> nat \<times> nat \<times> cstring \<Rightarrow> cstring" where
  "mountinfo_line = (\<lambda>(mid, par, maj, mnr, rest).
     show_nat mid @ '' '' @ show_nat par @ '' '' @ show_nat maj @ '':'' @ show_nat mnr @ rest @ [CHR 0x0A])"

definition mountinfo_row :: "nat \<times> nat \<times> nat \<times> nat \<times> cstring \<Rightarrow> bool" where
  "mountinfo_row = (\<lambda>(mid, par, maj, mnr, rest).
     mid < 2 ^ 64 \<and> maj < 2 ^ 32 \<and> mnr < 2 ^ 32 \<and> no_digit rest \<and> CHR 0x0A \<notin> set rest \<and> NUL \<notin> set rest)"

lemma strtoull_space_show:
  assumes "no_digit r" and "n < 2 ^ 64"
  shows "strtoull (CHR '' '' # show_nat n @ r) = (of_nat n, r)"
  using assms by (simp add: strtoull_def scan_dec_show scan_dec_space ULONG_MAX_def)

lemma strtoull_rest_space_show:
  assumes "no_digit r"
  shows "snd (strtoull (CHR '' '' # show_nat n @ r)) = r"
  using assms by (simp add: strtoull_def scan_dec_show scan_dec_space)

lemma ucast_of_small: "n < 2 ^ 32 \<Longrightarrow> ucast (of_nat n :: 64 word) = (of_nat n :: 32 word)"
  by (simp add: unsigned_of_nat take_bit_nat_eq_self)

lemma mnt_line_row:
  assumes "mountinfo_row (mid, par, maj, mnr, rest)"
  shows "mnt_line (mountinfo_line (mid, par, maj, mnr, rest) @ s)
           = Some (of_nat mid, of_nat maj, of_nat mnr, rest @ CHR 0x0A # s)"
proof -
  have d: "\<not> is_digit (CHR 0x0A)" "\<not> is_digit (CHR '' '')" "\<not> is_digit (CHR '':'')" by code_simp+
  have r: "no_digit (rest @ CHR 0x0A # s)" using assms d by (cases rest) (auto simp: mountinfo_row_def)
  have 1: "strtoull (show_nat mid @ CHR '' '' # t) = (of_nat mid, CHR '' '' # t)" for t
    using assms d by (simp add: strtoull_show mountinfo_row_def)
  have 2: "snd (strtoull (CHR '' '' # show_nat par @ CHR '' '' # t)) = CHR '' '' # t" for t
    using d by (simp add: strtoull_rest_space_show)
  have 3: "strtoull (CHR '' '' # show_nat maj @ CHR '':'' # t) = (of_nat maj, CHR '':'' # t)" for t
    using assms d by (simp add: strtoull_space_show mountinfo_row_def)
  have 4: "strtoull (show_nat mnr @ rest @ CHR 0x0A # s) = (of_nat mnr, rest @ CHR 0x0A # s)"
    using assms r by (simp add: strtoull_show mountinfo_row_def)
  show ?thesis
    using assms by (simp add: mnt_line_def mountinfo_line_def 1 2 3 4 ucast_of_small mountinfo_row_def)
qed

lemma mountinfo_line_ne [simp]: "mountinfo_line row \<noteq> []"
  by (cases row) (simp add: mountinfo_line_def)

lemma strchr_skip: "c \<notin> set xs \<Longrightarrow> strchr c (xs @ c # ys) = Some (c # ys)"
  by (induction xs) (auto simp: strchr_def)

lemma of_nat_eq_small: "m < 2 ^ 32 \<Longrightarrow> n < 2 ^ 32 \<Longrightarrow> (of_nat m :: 32 word) = of_nat n \<longleftrightarrow> m = n"
  by (simp add: word_of_nat_eq_iff take_bit_nat_eq_self)

lemma mnt_scan_rows:
  assumes "list_all mountinfo_row rows" and "maj < 2 ^ 32" and "mnr < 2 ^ 32"
  shows "mnt_scan (concat (map mountinfo_line rows)) (of_nat maj) (of_nat mnr)
           = (case find (\<lambda>(_, _, a, b, _). a = maj \<and> b = mnr) rows of None \<Rightarrow> 0 | Some (mid, _) \<Rightarrow> of_nat mid)"
  using assms(1)
proof (induction rows)
  case Nil
  then show ?case by (simp add: mnt_scan.simps)
next
  case (Cons row rows)
  obtain mid par a b rest where row: "row = (mid, par, a, b, rest)" by (cases row)
  let ?s = "concat (map mountinfo_line rows)"
  have ok: "mountinfo_row (mid, par, a, b, rest)" using Cons.prems row by simp
  then have small: "a < 2 ^ 32" "b < 2 ^ 32" and nl: "CHR 0x0A \<notin> set rest" by (auto simp: mountinfo_row_def)
  show ?case
    using Cons.IH Cons.prems mnt_line_row [OF ok, of ?s] strchr_skip [OF nl, of ?s]
    by (simp add: row mnt_scan.simps [of "mountinfo_line _ @ _"] of_nat_eq_small [OF small(1) assms(2)]
        of_nat_eq_small [OF small(2) assms(3)])
qed

lemma mountinfo_no_NUL: "list_all mountinfo_row rows \<Longrightarrow> NUL \<notin> set (concat (map mountinfo_line rows))"
proof (induction rows)
  case (Cons row rows)
  have "NUL \<noteq> CHR '' ''" "NUL \<noteq> CHR '':''" "NUL \<noteq> CHR 0x0A" by (simp_all add: NUL_def)
  then have "NUL \<notin> set (mountinfo_line row)"
    using Cons.prems by (cases row) (auto simp: mountinfo_row_def mountinfo_line_def show_nat_no_NUL)
  with Cons show ?case by simp
qed simp

text \<open>
  C28: The mount id comes from the right line: for every table the kernel can write into the
  8191 bytes read, the id returned is that of the first mount with the file's device
  numbers, and 0 (no id) where there is none.
\<close>

theorem lookup_mnt_id_finds:
  assumes "list_all mountinfo_row rows" and "maj < 2 ^ 32" and "mnr < 2 ^ 32"
    and "islot w Mount_fd = fd" and "0 \<le> fd"
    and "s_pread X fd 8191 0 (kst w) = (Inr (concat (map mountinfo_line rows)), kst w)"
  shows "lookup_mnt_id K X (of_nat maj) (of_nat mnr) w
           = (case find (\<lambda>(_, _, a, b, _). a = maj \<and> b = mnr) rows of None \<Rightarrow> 0 | Some (mid, _) \<Rightarrow> of_nat mid, w)"
proof -
  have "mount_fd_open K w = (fd, w)" using assms(4,5) by (simp add: mount_fd_open_def)
  moreover have "sys (s_pread X fd 8191 0) w = (Some (concat (map mountinfo_line rows)), w)"
    using assms(6) by (simp add: sys_def)
  ultimately show ?thesis
    using mnt_scan_rows [OF assms(1-3)] cstr_no_NUL [OF mountinfo_no_NUL [OF assms(1)]] assms(5)
    by (cases rows) (auto simp: lookup_mnt_id_def mountinfo_line_def split: prod.splits)
qed

theorem lookup_mnt_id_finds_witness:
  "lookup_mnt_id null_kernel
      (example_statx_kernel\<lparr>s_pread := (\<lambda>_ _ _ k. (Inr (concat (map mountinfo_line
         [(20, 1, 0, 2, '' / / rw''), (31, 20, 8, 17, '' / /mnt rw'')])), k))\<rparr>)
      (of_nat 8) (of_nat 17) ((static_world None)\<lparr>islot := (\<lambda>_. 7)\<rparr>)
    = (31, (static_world None)\<lparr>islot := (\<lambda>_. 7)\<rparr>)"
proof -
  let ?rows = "[(20, 1, 0, 2, '' / / rw''), (31, 20, 8, 17, '' / /mnt rw'')] :: (nat \<times> nat \<times> nat \<times> nat \<times> cstring) list"
  have "list_all mountinfo_row ?rows"
    by (simp add: mountinfo_row_def is_digit_def NUL_def)
  then show ?thesis
    using lookup_mnt_id_finds [of ?rows 8 17 "(static_world None)\<lparr>islot := (\<lambda>_. 7)\<rparr>" 7
      "example_statx_kernel\<lparr>s_pread := (\<lambda>_ _ _ k. (Inr (concat (map mountinfo_line ?rows)), k))\<rparr>" null_kernel]
    by simp
qed

section \<open>Without a record\<close>

lemma stx_ts_min_key:
  "(stx_sec (stx_ts_min a b), stx_nsec (stx_ts_min a b)) = min (stx_sec a, stx_nsec a) (stx_sec b, stx_nsec b)"
  by (auto simp: stx_ts_min_def min_def)

text \<open>Where nothing was recorded the birth time is the earlier of the other two.\<close>

lemma statx_btime_fallback:
  assumes "has_flag want STATX_BTIME" and "\<not> has_flag (stx_mask stx) STATX_BTIME"
    and "read_btime_xattr K OPS N X dirfd p flags (stx_btime stx) w = ((False, ts), w1)"
    and "has_flag (stx_mask stx) STATX_MTIME" and "has_flag (stx_mask stx) STATX_CTIME"
  shows "statx_btime K OPS N X dirfd p flags want stx w
           = (stx\<lparr>stx_btime := stx_ts_min (stx_mtime stx) (stx_ctime stx), stx_mask := stx_mask stx OR STATX_BTIME\<rparr>, w1)"
  using assms by (simp add: statx_btime_def)

lemma scan_btime_empty: "scan_btime [] ts = (False, ts)"
  by (simp add: scan_btime_def sscanf_lld_dot_u_def scan_dec_def cstr_def)

end
