(* ===== verification/Clock.thy ===== *)
theory Clock
  imports Tunables "HOL-Library.Signed_Division"
begin

text \<open>
  clock.c: the clocks WSL1 lacks.  CLOCK_BOOTTIME sleeps on CLOCK_MONOTONIC, CLOCK_TAI is
  CLOCK_REALTIME with an offset, a sleep on the process CPU clock polls \<^verbatim>\<open>getrusage\<close>, and the
  encoded CPU clock ids of \<^verbatim>\<open>clock_getcpuclockid\<close> are read from \<^verbatim>\<open>getrusage\<close>.  The polling
  loop ends only if the process uses CPU time, so it is a partial function: \<open>None\<close> is a
  sleep that never returns.  \<^verbatim>\<open>long long\<close> arithmetic wraps at 64 bits.
\<close>

section \<open>Time arithmetic\<close>

abbreviation (input) CLOCK_MONOTONIC :: int where "CLOCK_MONOTONIC \<equiv> 1"
abbreviation (input) CLOCK_PROCESS_CPUTIME_ID :: int where "CLOCK_PROCESS_CPUTIME_ID \<equiv> 2"
abbreviation (input) CLOCK_BOOTTIME :: int where "CLOCK_BOOTTIME \<equiv> 7"
abbreviation (input) CLOCK_TAI :: int where "CLOCK_TAI \<equiv> 11"
abbreviation (input) TIMER_ABSTIME :: int where "TIMER_ABSTIME \<equiv> 1"
abbreviation (input) RUSAGE_SELF :: int where "RUSAGE_SELF \<equiv> 0"
abbreviation (input) RUSAGE_THREAD :: int where "RUSAGE_THREAD \<equiv> 1"
abbreviation (input) TAI_UTC_DEFAULT :: int where "TAI_UTC_DEFAULT \<equiv> 37"
abbreviation (input) WIN_TICK_NS :: int where "WIN_TICK_NS \<equiv> 15625000"

type_synonym timeval = "int \<times> int"

text \<open>
  The next \<^verbatim>\<open>clock_nanosleep\<close> returns an error number, and what it stored through a non-null
  \<^verbatim>\<open>rem\<close>; the other calls fail with errno.  The \<open>bool\<close> says whether the pointer is non-null.
\<close>

record 'k clock_kernel =
  n_clock_nanosleep :: "int \<Rightarrow> int \<Rightarrow> timespec option \<Rightarrow> bool \<Rightarrow> 'k \<Rightarrow> (int \<times> timespec option) \<times> 'k"
  n_clock_getres :: "int \<Rightarrow> bool \<Rightarrow> 'k \<Rightarrow> (int + timespec) \<times> 'k"
  n_clock_gettime :: "int \<Rightarrow> bool \<Rightarrow> 'k \<Rightarrow> (int + timespec) \<times> 'k"
  r_getrusage :: "int \<Rightarrow> 'k \<Rightarrow> (int + timeval \<times> timeval) \<times> 'k"
  r_gettid :: "'k \<Rightarrow> int"

definition s64 :: "int \<Rightarrow> int" where
  "s64 x = signed_take_bit 63 x"

definition tv_to_ns :: "timeval \<Rightarrow> int" where
  "tv_to_ns tv = s64 (s64 (fst tv * 1000000000) + s64 (snd tv * 1000))"

definition ns_to_ts :: "int \<Rightarrow> timespec" where
  "ns_to_ts ns = (ns sdiv 1000000000, ns smod 1000000000)"

definition rusage_cpu_ns :: "'k clock_kernel \<Rightarrow> int \<Rightarrow> 'k world \<Rightarrow> (int + int) \<times> 'k world" where
  "rusage_cpu_ns C who w =
     (let (r, w1) = sys (r_getrusage C who) w
      in case r of
           None \<Rightarrow> (Inl (errno w1), w1)
         | Some (ut, st) \<Rightarrow> (Inr (s64 (tv_to_ns ut + tv_to_ns st)), w1))"

section \<open>clock_nanosleep\<close>

type_synonym 'k sleep = "'k world \<Rightarrow> (int \<times> timespec option) \<times> 'k world"

definition next_nanosleep :: "'k clock_kernel \<Rightarrow> int \<Rightarrow> int \<Rightarrow> timespec option \<Rightarrow> bool \<Rightarrow> 'k sleep" where
  "next_nanosleep C clk flags req rem w =
     (let (r, k) = n_clock_nanosleep C clk flags req rem (kst w) in (r, w\<lparr>kst := k\<rparr>))"

definition handle_boottime :: "'k clock_kernel \<Rightarrow> int \<Rightarrow> timespec \<Rightarrow> bool \<Rightarrow> 'k sleep" where
  "handle_boottime C flags req rem = next_nanosleep C CLOCK_MONOTONIC flags (Some req) rem"

text \<open>The instant of CLOCK_REALTIME that is the instant \<open>req\<close> of CLOCK_TAI.\<close>

definition tai_adjust :: "int \<Rightarrow> timespec \<Rightarrow> timespec" where
  "tai_adjust offset req =
     (if fst req \<ge> offset then (s64 (fst req - offset), snd req) else (0, 0))"

definition tai_offset :: "'k world \<Rightarrow> int" where
  "tai_offset w = wslcompat_tunable_int (options w) ''taioffset'' TAI_UTC_DEFAULT"

definition handle_tai :: "'k clock_kernel \<Rightarrow> int \<Rightarrow> timespec \<Rightarrow> bool \<Rightarrow> 'k sleep" where
  "handle_tai C flags req rem w =
     (if \<not> has_flag flags TIMER_ABSTIME then next_nanosleep C CLOCK_REALTIME flags (Some req) rem w
      else next_nanosleep C CLOCK_REALTIME flags (Some (tai_adjust (tai_offset w) req)) rem w)"

text \<open>The body of the polling loop: leave with a result, or go on with a new reading.\<close>

definition cputime_step ::
  "'k clock_kernel \<Rightarrow> int \<Rightarrow> bool \<Rightarrow> int \<Rightarrow> int \<Rightarrow> 'k world
   \<Rightarrow> ((int \<times> timespec option) + int) \<times> 'k world" where
  "cputime_step C flags rem target now w =
     (let sleep_ns = max (s64 (target - now)) WIN_TICK_NS;
          ((rc, _), w1) = next_nanosleep C CLOCK_MONOTONIC 0 (Some (ns_to_ts sleep_ns)) False w
      in if rc \<noteq> 0
         then (if rc \<noteq> EINTR then (Inl (rc, None), w1)
               else if rem \<and> \<not> has_flag flags TIMER_ABSTIME
               then (case rusage_cpu_ns C RUSAGE_SELF w1 of
                       (Inr cur, w2) \<Rightarrow> (Inl (rc, Some (ns_to_ts (max (s64 (target - cur)) 0))), w2)
                     | (Inl _, w2) \<Rightarrow> (Inl (rc, None), w2))
               else (Inl (rc, None), w1))
         else (case rusage_cpu_ns C RUSAGE_SELF w1 of
                 (Inl e, w2) \<Rightarrow> (Inl (e, None), w2)
               | (Inr now', w2) \<Rightarrow> (Inr now', w2)))"

partial_function (option) cputime_loop ::
  "'k clock_kernel \<Rightarrow> int \<Rightarrow> bool \<Rightarrow> int \<Rightarrow> int \<Rightarrow> 'k world \<Rightarrow> ((int \<times> timespec option) \<times> 'k world) option" where
  "cputime_loop C flags rem target now w =
     (if now < target
      then (case cputime_step C flags rem target now w of
              (Inl r, w1) \<Rightarrow> Some (r, w1)
            | (Inr now', w1) \<Rightarrow> cputime_loop C flags rem target now' w1)
      else Some ((0, if rem \<and> \<not> has_flag flags TIMER_ABSTIME then Some (0, 0) else None), w))"

declare cputime_loop.simps [code]

definition cputime_target :: "int \<Rightarrow> timespec \<Rightarrow> int \<Rightarrow> int" where
  "cputime_target flags req now =
     (let t = s64 (s64 (fst req * 1000000000) + snd req)
      in if has_flag flags TIMER_ABSTIME then t else s64 (t + now))"

definition handle_process_cputime ::
  "'k clock_kernel \<Rightarrow> int \<Rightarrow> timespec \<Rightarrow> bool \<Rightarrow> 'k world \<Rightarrow> ((int \<times> timespec option) \<times> 'k world) option" where
  "handle_process_cputime C flags req rem w =
     (if fst req < 0 \<or> snd req < 0 \<or> snd req \<ge> 1000000000 then Some ((EINVAL, None), w)
      else case rusage_cpu_ns C RUSAGE_SELF w of
             (Inl e, w1) \<Rightarrow> Some ((e, None), w1)
           | (Inr now, w1) \<Rightarrow> cputime_loop C flags rem (cputime_target flags req now) now w1)"

text \<open>The dispatch table, in order; \<open>None\<close> in a handler's result is a sleep without end.\<close>

definition dispatch ::
  "'k clock_kernel \<Rightarrow> (int \<times> (int \<Rightarrow> timespec \<Rightarrow> bool \<Rightarrow> 'k world \<Rightarrow> ((int \<times> timespec option) \<times> 'k world) option)) list" where
  "dispatch C =
     [(CLOCK_BOOTTIME, \<lambda>flags req rem w. Some (handle_boottime C flags req rem w)),
      (CLOCK_TAI, \<lambda>flags req rem w. Some (handle_tai C flags req rem w)),
      (CLOCK_PROCESS_CPUTIME_ID, handle_process_cputime C)]"

definition clock_nanosleep_shim ::
  "'k clock_kernel \<Rightarrow> int \<Rightarrow> int \<Rightarrow> timespec option \<Rightarrow> bool \<Rightarrow> 'k world \<Rightarrow> ((int \<times> timespec option) \<times> 'k world) option" where
  "clock_nanosleep_shim C clockid flags request remain w =
     (if passthru ''clock_nanosleep'' w then Some (next_nanosleep C clockid flags request remain w)
      else case request of
             None \<Rightarrow> Some ((EFAULT, None), w)
           | Some req \<Rightarrow>
               (case map_of (dispatch C) clockid of
                  Some fn \<Rightarrow> fn flags req remain w
                | None \<Rightarrow> Some (next_nanosleep C clockid flags request remain w)))"

section \<open>clock_getres and clock_gettime\<close>

definition clock_getres_shim :: "'k clock_kernel \<Rightarrow> int \<Rightarrow> bool \<Rightarrow> ('k, timespec) call" where
  "clock_getres_shim C clockid res w =
     (if passthru ''clock_getres'' w then sys (n_clock_getres C clockid res) w
      else if clockid = CLOCK_TAI then sys (n_clock_getres C CLOCK_REALTIME res) w
      else sys (n_clock_getres C clockid res) w)"

definition handle_tai_gettime :: "'k clock_kernel \<Rightarrow> bool \<Rightarrow> ('k, timespec) call" where
  "handle_tai_gettime C tp w =
     (let (r, w1) = sys (n_clock_gettime C CLOCK_REALTIME tp) w
      in case r of
           None \<Rightarrow> (None, w1)
         | Some ts \<Rightarrow> (Some (s64 (fst ts + tai_offset w1), snd ts), w1))"

definition encoded_cpuclock_who :: "'k kernel \<Rightarrow> 'k clock_kernel \<Rightarrow> int \<Rightarrow> 'k world \<Rightarrow> int" where
  "encoded_cpuclock_who K C clockid w =
     (if clockid \<ge> 0 then -1
      else if clockid AND 3 \<noteq> 2 then -1
      else
        (let decoded = NOT (drop_bit 3 clockid);
             (who, self) = (if has_flag clockid 4 then (RUSAGE_THREAD, r_gettid C (kst w))
                            else (RUSAGE_SELF, k_getpid K (kst w)))
         in if decoded \<noteq> 0 \<and> decoded \<noteq> self then -1 else who))"

definition clock_gettime_shim :: "'k kernel \<Rightarrow> 'k clock_kernel \<Rightarrow> int \<Rightarrow> bool \<Rightarrow> ('k, timespec) call" where
  "clock_gettime_shim K C clockid tp w =
     (if passthru ''clock_gettime'' w then sys (n_clock_gettime C clockid tp) w
      else
        (let who = encoded_cpuclock_who K C clockid w
         in if who \<ge> 0
            then (case rusage_cpu_ns C who w of
                    (Inl _, w1) \<Rightarrow> (None, w1)
                  | (Inr ns, w1) \<Rightarrow> (if \<not> tp then fail_with EFAULT w1 else (Some (ns_to_ts ns), w1)))
            else if clockid = CLOCK_TAI then handle_tai_gettime C tp w
            else sys (n_clock_gettime C clockid tp) w))"

section \<open>Sleeping on the CPU clock\<close>

lemma s64_id: "- (2 ^ 63) \<le> x \<Longrightarrow> x < 2 ^ 63 \<Longrightarrow> s64 x = x"
  by (simp add: s64_def signed_take_bit_int_eq_self)

lemma s64_range: "- (2 ^ 63) \<le> s64 x" "s64 x < 2 ^ 63"
  using signed_take_bit_int_greater_eq_minus_exp [of 63 x] signed_take_bit_int_less_exp [of 63 x]
  by (simp_all add: s64_def)

text \<open>The CPU time of the process, in nanoseconds, in a state of the kernel.\<close>

definition cpu_ns :: "'k clock_kernel \<Rightarrow> 'k \<Rightarrow> int" where
  "cpu_ns C k = (case fst (r_getrusage C RUSAGE_SELF k) of
     Inl _ \<Rightarrow> 0 | Inr (ut, st) \<Rightarrow> s64 (tv_to_ns ut + tv_to_ns st))"

lemma cpu_ns_range: "cpu_ns C k < 2 ^ 63"
proof (cases "fst (r_getrusage C RUSAGE_SELF k)")
  case (Inr u)
  then show ?thesis
    using s64_range(2) [of "tv_to_ns (fst u) + tv_to_ns (snd u)"] by (simp add: cpu_ns_def case_prod_beta)
qed (simp add: cpu_ns_def)

definition usage_readable :: "'k clock_kernel \<Rightarrow> bool" where
  "usage_readable C \<longleftrightarrow> (\<forall>k. \<exists>u. r_getrusage C RUSAGE_SELF k = (Inr u, k))"

lemma rusage_reads: "usage_readable C \<Longrightarrow> rusage_cpu_ns C RUSAGE_SELF w = (Inr (cpu_ns C (kst w)), w)"
  unfolding usage_readable_def
  by (elim allE [of _ "kst w"] exE) (auto simp: rusage_cpu_ns_def cpu_ns_def sys_def)

text \<open>A round that sleeps goes on with the CPU time read after the sleep.\<close>

lemma cputime_step_ok:
  assumes "usage_readable C"
    and "n_clock_nanosleep C CLOCK_MONOTONIC 0 (Some (ns_to_ts (max (s64 (target - now)) WIN_TICK_NS))) False (kst w)
           = ((0, r), k')"
  shows "cputime_step C flags rem target now w = (Inr (cpu_ns C k'), w\<lparr>kst := k'\<rparr>)"
  using assms(2) rusage_reads [OF assms(1), of "w\<lparr>kst := k'\<rparr>"]
  by (simp add: cputime_step_def next_nanosleep_def)

lemma cputime_loop_done:
  "\<not> now < target \<Longrightarrow> cputime_loop C flags rem target now w
     = Some ((0, if rem \<and> \<not> has_flag flags TIMER_ABSTIME then Some (0, 0) else None), w)"
  by (simp add: cputime_loop.simps)

lemma cputime_loop_completes:
  assumes usage: "usage_readable C"
    and progress: "\<And>k ts. cpu_ns C k < target \<Longrightarrow>
          \<exists>r k'. n_clock_nanosleep C CLOCK_MONOTONIC 0 (Some ts) False k = ((0, r), k') \<and> cpu_ns C k < cpu_ns C k'"
  shows "\<exists>k. cputime_loop C flags rem target (cpu_ns C (kst w)) w
             = Some ((0, if rem \<and> \<not> has_flag flags TIMER_ABSTIME then Some (0, 0) else None), w\<lparr>kst := k\<rparr>)
           \<and> target \<le> cpu_ns C k"
proof (induction "nat (target - cpu_ns C (kst w))" arbitrary: w rule: less_induct)
  case less
  show ?case
  proof (cases "cpu_ns C (kst w) < target")
    case True
    then obtain r k' where k': "n_clock_nanosleep C CLOCK_MONOTONIC 0
          (Some (ns_to_ts (max (s64 (target - cpu_ns C (kst w))) WIN_TICK_NS))) False (kst w) = ((0, r), k')"
        "cpu_ns C (kst w) < cpu_ns C k'"
      using progress by blast
    have "cputime_loop C flags rem target (cpu_ns C (kst w)) w
            = cputime_loop C flags rem target (cpu_ns C k') (w\<lparr>kst := k'\<rparr>)"
      using True by (simp add: cputime_loop.simps [of C flags rem target "cpu_ns C (kst w)"]
          cputime_step_ok [OF usage k'(1)])
    moreover have "nat (target - cpu_ns C k') < nat (target - cpu_ns C (kst w))"
      using True k'(2) by simp
    ultimately show ?thesis using less [of "w\<lparr>kst := k'\<rparr>"] by simp
  next
    case False
    then show ?thesis by (intro exI [of _ "kst w"]) (simp add: cputime_loop_done)
  qed
qed

text \<open>Whatever the kernel does, a sleep that reports success has waited long enough.\<close>

lemma cputime_step_reading:
  assumes "usage_readable C" and "cputime_step C flags rem target now w = (Inr now', w1)"
  shows "now' = cpu_ns C (kst w1)"
  using assms by (auto simp: cputime_step_def rusage_reads Let_def split: prod.splits if_splits)

lemma cputime_step_leaves:
  assumes "usage_readable C" and "cputime_step C flags rem target now w = (Inl (rc, r), w1)"
  shows "rc \<noteq> 0"
  using assms by (auto simp: cputime_step_def rusage_reads Let_def split: prod.splits if_splits)

lemma cputime_loop_no_early_return:
  assumes "usage_readable C" and "cputime_loop C flags rem target now w = Some y"
    and "now = cpu_ns C (kst w)" and "fst (fst y) = 0"
  shows "target \<le> cpu_ns C (kst (snd y))"
proof -
  have "usage_readable C \<longrightarrow> now = cpu_ns C (kst w) \<longrightarrow> fst (fst y) = 0 \<longrightarrow> target \<le> cpu_ns C (kst (snd y))"
  proof (rule cputime_loop.raw_induct [where P = "\<lambda>C flags rem target now w y.
      usage_readable C \<longrightarrow> now = cpu_ns C (kst w) \<longrightarrow> fst (fst y) = 0 \<longrightarrow> target \<le> cpu_ns C (kst (snd y))",
      OF _ assms(2)])
    fix f :: "'a clock_kernel \<Rightarrow> int \<Rightarrow> bool \<Rightarrow> int \<Rightarrow> int \<Rightarrow> 'a world \<Rightarrow> ((int \<times> timespec option) \<times> 'a world) option"
      and C flags rem target now w y
    assume IH: "\<And>C flags rem target now w y. f C flags rem target now w = Some y \<Longrightarrow>
        usage_readable C \<longrightarrow> now = cpu_ns C (kst w) \<longrightarrow> fst (fst y) = 0 \<longrightarrow> target \<le> cpu_ns C (kst (snd y))"
      and eq: "(if now < target
        then (case cputime_step C flags rem target now w of
                (Inl r, w1) \<Rightarrow> Some (r, w1) | (Inr now', w1) \<Rightarrow> f C flags rem target now' w1)
        else Some ((0, if rem \<and> \<not> has_flag flags TIMER_ABSTIME then Some (0, 0) else None), w)) = Some y"
    show "usage_readable C \<longrightarrow> now = cpu_ns C (kst w) \<longrightarrow> fst (fst y) = 0 \<longrightarrow> target \<le> cpu_ns C (kst (snd y))"
    proof (intro impI)
      assume u: "usage_readable C" and n: "now = cpu_ns C (kst w)" and z: "fst (fst y) = 0"
      obtain res w1 where st: "cputime_step C flags rem target now w = (res, w1)" by fastforce
      show "target \<le> cpu_ns C (kst (snd y))"
        using eq IH [of C flags rem target _ w1 y] u n z st cputime_step_reading [OF u, of flags rem target now w _ w1]
          cputime_step_leaves [OF u, of flags rem target now w _ _ w1]
        by (cases res) (auto split: if_splits)
    qed
  qed
  with assms(1,3,4) show ?thesis by blast
qed

text \<open>The remaining time an interrupted relative sleep reports.\<close>

lemma cputime_step_interrupted:
  assumes "usage_readable C" and "\<not> has_flag flags TIMER_ABSTIME"
    and "n_clock_nanosleep C CLOCK_MONOTONIC 0 (Some (ns_to_ts (max (s64 (target - now)) WIN_TICK_NS))) False (kst w)
           = ((EINTR, r), k')"
  shows "cputime_step C flags True target now w
           = (Inl (EINTR, Some (ns_to_ts (max (s64 (target - cpu_ns C k')) 0))), w\<lparr>kst := k'\<rparr>)"
  using assms(2,3) rusage_reads [OF assms(1), of "w\<lparr>kst := k'\<rparr>"]
  by (simp add: cputime_step_def next_nanosleep_def)

text \<open>
  C19: A sleep on the process CPU clock ends, and not too early: when every pause of the
  polling loop lets the process use some CPU time, \<^verbatim>\<open>clock_nanosleep\<close> returns 0, at a moment
  when the CPU time has reached the requested instant, or grown by the requested amount
  where the sleep is relative, and the remaining time it stores is 0.
\<close>

theorem cputime_sleep_completes:
  assumes "\<not> passthru ''clock_nanosleep'' w" and usage: "usage_readable C"
    and req: "0 \<le> sec" "0 \<le> nsec" "nsec < 10 ^ 9"
    and target: "target = sec * 10 ^ 9 + nsec + (if has_flag flags TIMER_ABSTIME then 0 else cpu_ns C (kst w))"
    and "sec * 10 ^ 9 + nsec < 2 ^ 63" and "0 \<le> cpu_ns C (kst w)" and "target < 2 ^ 63"
    and progress: "\<And>k ts. cpu_ns C k < target \<Longrightarrow>
          \<exists>r k'. n_clock_nanosleep C CLOCK_MONOTONIC 0 (Some ts) False k = ((0, r), k') \<and> cpu_ns C k < cpu_ns C k'"
  shows "\<exists>k. clock_nanosleep_shim C CLOCK_PROCESS_CPUTIME_ID flags (Some (sec, nsec)) rem w
             = Some ((0, if rem \<and> \<not> has_flag flags TIMER_ABSTIME then Some (0, 0) else None), w\<lparr>kst := k\<rparr>)
           \<and> target \<le> cpu_ns C k"
proof -
  have "s64 (sec * 1000000000) = sec * 1000000000" "s64 (sec * 1000000000 + nsec) = sec * 1000000000 + nsec"
    using req assms(7) by (auto intro!: s64_id)
  then have "cputime_target flags (sec, nsec) (cpu_ns C (kst w)) = target"
    using req target assms(8,9) by (auto simp: cputime_target_def intro!: s64_id)
  then show ?thesis
    using cputime_loop_completes [OF usage progress, where flags = flags and rem = rem and w = w] rusage_reads [OF usage, of w] assms(1) req
    by (simp add: clock_nanosleep_shim_def dispatch_def handle_process_cputime_def)
qed

definition example_clock :: "nat clock_kernel" where
  "example_clock =
     \<lparr>n_clock_nanosleep = (\<lambda>_ _ _ _ k. ((0, None), k + 20)), n_clock_getres = (\<lambda>_ _ k. (Inl ENOSYS, k)),
      n_clock_gettime = (\<lambda>_ _ k. (Inr (int k, 0), k)),
      r_getrusage = (\<lambda>_ k. (Inr ((int (min k 1000), 0), (0, 0)), k)), r_gettid = (\<lambda>_. 42)\<rparr>"

lemma example_clock_cpu: "cpu_ns example_clock k = int (min k 1000) * 10 ^ 9"
proof -
  have "int (min k 1000) * 1000000000 < 2 ^ 63" "0 \<le> int (min k 1000) * 1000000000" by simp_all
  then have "s64 (int (min k 1000) * 1000000000) = int (min k 1000) * 1000000000" by (intro s64_id) simp_all
  moreover have "s64 0 = 0" by (simp add: s64_id)
  ultimately show ?thesis by (simp add: cpu_ns_def example_clock_def tv_to_ns_def)
qed

theorem cputime_sleep_completes_witness:
  "\<exists>k. clock_nanosleep_shim example_clock CLOCK_PROCESS_CPUTIME_ID 0 (Some (100, 0)) True (static_world 7)
         = Some ((0, if True \<and> \<not> has_flag 0 TIMER_ABSTIME then Some (0, 0) else None), (static_world 7)\<lparr>kst := k\<rparr>)
       \<and> 107 * 10 ^ 9 \<le> cpu_ns example_clock k"
proof (rule cputime_sleep_completes)
  show "\<not> passthru ''clock_nanosleep'' (static_world (7 :: nat))" by code_simp
  show "usage_readable example_clock" by (simp add: usage_readable_def example_clock_def)
  show "\<exists>r k'. n_clock_nanosleep example_clock CLOCK_MONOTONIC 0 (Some ts) False k = ((0, r), k')
          \<and> cpu_ns example_clock k < cpu_ns example_clock k'" if "cpu_ns example_clock k < 107 * 10 ^ 9" for k ts
    using that by (simp add: example_clock_cpu) (simp add: example_clock_def)
qed (simp_all add: example_clock_cpu static_world_def has_flag_def)

text \<open>
  The seconds of a request are multiplied without a check: the longest request there is
  wraps to an instant in the past and the sleep returns at once.
\<close>

lemma cputime_target_wraps:
  assumes "\<not> passthru ''clock_nanosleep'' w" and "usage_readable C" and "0 \<le> cpu_ns C (kst w)"
  shows "clock_nanosleep_shim C CLOCK_PROCESS_CPUTIME_ID 0 (Some (2 ^ 63 - 1, 0)) False w = Some ((0, None), w)"
proof -
  have "s64 ((2 ^ 63 - 1) * 1000000000) = - 1000000000" "s64 (- 1000000000) = - 1000000000" by (simp_all add: s64_def)
  moreover have "s64 (- 1000000000 + cpu_ns C (kst w)) = - 1000000000 + cpu_ns C (kst w)"
    using assms(3) cpu_ns_range [of C "kst w"] by (intro s64_id) simp_all
  ultimately show ?thesis
    using assms rusage_reads [OF assms(2), of w]
    by (simp add: clock_nanosleep_shim_def dispatch_def handle_process_cputime_def cputime_target_def
        cputime_loop_done has_flag_def)
qed

section \<open>Encoded CPU clocks and CLOCK_TAI\<close>

text \<open>The ids the C library makes: \<^verbatim>\<open>MAKE_PROCESS_CPUCLOCK\<close> and \<^verbatim>\<open>MAKE_THREAD_CPUCLOCK\<close> of the scheduler clock.\<close>

definition cpuclock_id :: "int \<Rightarrow> bool \<Rightarrow> int" where
  "cpuclock_id pid thread = push_bit 3 (NOT pid) OR (if thread then 6 else 2)"

lemma cpuclock_id_parts:
  assumes "0 \<le> pid"
  shows "cpuclock_id pid thread < 0" and "cpuclock_id pid thread AND 3 = 2"
    and "NOT (drop_bit 3 (cpuclock_id pid thread)) = pid" and "has_flag (cpuclock_id pid thread) 4 = thread"
proof -
  have low: "push_bit 3 x AND y = 0" if "y = 3 \<or> y = 4" for x y :: int
  proof -
    have "push_bit 3 x AND y = push_bit 3 x AND take_bit 3 y" using that by auto
    also have "\<dots> = 0" by (rule bit_eqI) (simp only: bit_and_iff bit_push_bit_iff bit_take_bit_iff bit_0_eq, simp)
    finally show ?thesis .
  qed
  show "cpuclock_id pid thread < 0"
    using assms by (auto simp: cpuclock_id_def or_negative_int_iff not_negative_int_iff)
  show "cpuclock_id pid thread AND 3 = 2"
    by (auto simp: cpuclock_id_def bit.conj_disj_distrib2 low)
  show "NOT (drop_bit 3 (cpuclock_id pid thread)) = pid"
    by (simp add: cpuclock_id_def drop_bit_push_bit)
  show "has_flag (cpuclock_id pid thread) 4 = thread"
    by (auto simp: cpuclock_id_def has_flag_def bit.conj_disj_distrib2 low)
qed



text \<open>
  CLOCK_TAI is consistent: sleeping until the TAI time just read is sleeping until the
  CLOCK_REALTIME time behind it.
\<close>

lemma tai_gettime_nanosleep:
  assumes "sys (n_clock_gettime C CLOCK_REALTIME tp) w = (Some (sec, nsec), w1)"
    and "0 \<le> sec" and "- (2 ^ 62) < tai_offset w" "tai_offset w < 2 ^ 62" and "sec < 2 ^ 62"
  obtains ts where "handle_tai_gettime C tp w = (Some ts, w1)" and "tai_adjust (tai_offset w1) ts = (sec, nsec)"
proof -
  have "same_lib w w1" using sys_same_lib [of w "n_clock_gettime C CLOCK_REALTIME tp"] assms(1) by simp
  then have o: "tai_offset w1 = tai_offset w" by (simp add: tai_offset_def same_libD)
  have "s64 (sec + tai_offset w) = sec + tai_offset w" "s64 sec = sec" using assms by (auto intro!: s64_id)
  then show ?thesis
    using that [of "(sec + tai_offset w, nsec)"] assms(1,2) by (simp add: handle_tai_gettime_def tai_adjust_def o)
qed

end
