(* ===== verification/Copy.thy ===== *)
theory Copy
  imports Dispatch
begin

text \<open>
  copy_file_range.c: the fallback copy through a 4096-byte buffer, used where the kernel has
  no \<^verbatim>\<open>copy_file_range\<close>.  It reads and writes through the library's own pread, pwrite and lseek
  shims.  A \<^verbatim>\<open>pwrite\<close> that returns 0 repeats the same write for ever, so the loops are partial
  functions; \<open>None\<close> is a call that does not return.
\<close>

section \<open>The shim\<close>

abbreviation (input) SEEK_SET :: int where "SEEK_SET \<equiv> 0"
abbreviation (input) SEEK_CUR :: int where "SEEK_CUR \<equiv> 1"

text \<open>The call's own next definition; offsets behind non-null pointers are returned updated.\<close>

type_synonym 'k copy_next =
  "int \<Rightarrow> int option \<Rightarrow> int \<Rightarrow> int option \<Rightarrow> nat \<Rightarrow> int \<Rightarrow> 'k \<Rightarrow> (int + int \<times> int option \<times> int option) \<times> 'k"

text \<open>The inner loop writes out the buffer: \<open>False\<close> where a write failed.\<close>

partial_function (option) write_loop ::
  "'k kernel \<Rightarrow> 'k ops_table \<Rightarrow> 'k libc_io \<Rightarrow> int \<Rightarrow> bytes \<Rightarrow> nat \<Rightarrow> int \<Rightarrow> 'k world \<Rightarrow> (bool \<times> 'k world) option" where
  "write_loop K OPS N fd_out buf written off_out w =
     (if written < length buf
      then (case pwrite_shim K OPS N fd_out (drop written buf) (off_out + int written) w of
              (None, w1) \<Rightarrow> Some (False, w1)
            | (Some n, w1) \<Rightarrow> write_loop K OPS N fd_out buf (written + nat n) off_out w1)
      else Some (True, w))"

text \<open>Why the outer loop ended: the end of the input or of the request, or an error.\<close>

datatype copy_end = Copied | Copy_failed

partial_function (option) copy_loop ::
  "'k kernel \<Rightarrow> 'k ops_table \<Rightarrow> 'k libc_io \<Rightarrow> int \<Rightarrow> int \<Rightarrow> int \<Rightarrow> int \<Rightarrow> nat \<Rightarrow> int \<Rightarrow> 'k world
   \<Rightarrow> ((copy_end \<times> int \<times> int \<times> int) \<times> 'k world) option" where
  "copy_loop K OPS N fd_in off_in fd_out off_out len tot w =
     (if len > 0
      then (case pread_shim K OPS N fd_in (min len 4096) off_in w of
              (None, w1) \<Rightarrow> Some ((Copy_failed, tot, off_in, off_out), w1)
            | (Some b, w1) \<Rightarrow>
                (if b = [] then Some ((Copied, tot, off_in, off_out), w1)
                 else Option.bind (write_loop K OPS N fd_out b 0 off_out w1) (\<lambda>(ok, w2).
                        if ok then copy_loop K OPS N fd_in (off_in + int (length b)) fd_out (off_out + int (length b))
                                     (len - length b) (tot + int (length b)) w2
                        else Some ((Copy_failed, tot, off_in, off_out), w2))))
      else Some ((Copied, tot, off_in, off_out), w))"

text \<open>The offsets the caller's pointers hold afterwards.\<close>

definition ptr_out :: "int option \<Rightarrow> int \<Rightarrow> int option" where
  "ptr_out p v = (case p of None \<Rightarrow> None | Some _ \<Rightarrow> Some v)"

text \<open>Setting the file position after a copy from or to the current one.\<close>

definition seek_back ::
  "'k kernel \<Rightarrow> 'k ops_table \<Rightarrow> 'k libc_io \<Rightarrow> int option \<Rightarrow> int \<Rightarrow> int \<Rightarrow> 'k world \<Rightarrow> 'k world" where
  "seek_back K OPS N p fd off w = (if p = None then snd (lseek_shim K OPS N fd off SEEK_SET w) else w)"

definition copy_file_range_shim ::
  "'k kernel \<Rightarrow> 'k ops_table \<Rightarrow> 'k libc_io \<Rightarrow> 'k copy_next \<Rightarrow> int \<Rightarrow> int option \<Rightarrow> int \<Rightarrow> int option \<Rightarrow> nat \<Rightarrow> int
   \<Rightarrow> 'k world \<Rightarrow> ((int \<times> int option \<times> int option) option \<times> 'k world) option" where
  "copy_file_range_shim K OPS N nxt fd_in off_in fd_out off_out len flags w =
     (let (r, w1) = sys (nxt fd_in off_in fd_out off_out len flags) w
      in if r \<noteq> None \<or> errno w1 \<noteq> ENOSYS \<or> passthru ''copy_file_range'' w1 then Some (r, w1)
         else
           (let (cur_in, w2) = lseek_shim K OPS N fd_in 0 SEEK_CUR w1;
                (cur_out, w3) = lseek_shim K OPS N fd_out 0 SEEK_CUR w2;
                oin = (case off_in of Some v \<Rightarrow> v | None \<Rightarrow> fd_or_minus1 cur_in);
                oout = (case off_out of Some v \<Rightarrow> v | None \<Rightarrow> fd_or_minus1 cur_out)
            in if oin = -1 \<or> oout = -1 then Some (None, w3)
               else
                 map_option (\<lambda>((e, tot, i, u), w4).
                   case e of
                     Copy_failed \<Rightarrow> (if tot > 0 then Some (tot, ptr_out off_in i, ptr_out off_out u) else None, w4)
                   | Copied \<Rightarrow> (Some (tot, ptr_out off_in i, ptr_out off_out u),
                                seek_back K OPS N off_out fd_out u (seek_back K OPS N off_in fd_in i w4)))
                   (copy_loop K OPS N fd_in oin fd_out oout len 0 w3)))"

section \<open>What is copied\<close>

text \<open>The contents of a file after writing \<open>b\<close> at \<open>off\<close>; a hole reads as zeros.\<close>

definition patch :: "bytes \<Rightarrow> nat \<Rightarrow> bytes \<Rightarrow> bytes" where
  "patch xs off b =
     (if b = [] then xs
      else take off (xs @ replicate (off - length xs) NUL) @ b @ drop (off + length b) xs)"

lemma patch_Nil [simp]: "patch xs off [] = xs"
  by (simp add: patch_def)

lemma patch_append: "patch (patch xs off a) (off + length a) b = patch xs off (a @ b)"
proof (cases "a = [] \<or> b = []")
  case False
  let ?p = "take off (xs @ replicate (off - length xs) NUL)"
  have "length ?p = off" by simp
  with False show ?thesis by (simp add: patch_def ac_simps)
qed auto

text \<open>
  Documented behaviour of file I/O on an input file with contents \<open>src\<close> and an output file
  with contents \<open>out\<close>: pread returns some bytes at the offset, none only at the end of the
  file; pwrite writes some of them; neither moves the file position, which only lseek does.
\<close>

definition file_io ::
  "'k libc_io \<Rightarrow> int \<Rightarrow> int \<Rightarrow> bytes \<Rightarrow> ('k \<Rightarrow> bytes) \<Rightarrow> (int \<Rightarrow> 'k \<Rightarrow> int) \<Rightarrow> bool" where
  "file_io N fd_in fd_out src out pos \<longleftrightarrow>
     (\<forall>n off k. 0 < n \<longrightarrow> 0 \<le> off \<longrightarrow> (\<exists>m k'. n_pread N fd_in n off k = (Inr (take m (drop (nat off) src)), k')
        \<and> m \<le> n \<and> nat off + m \<le> max (nat off) (length src) \<and> (m = 0 \<longrightarrow> length src \<le> nat off)
        \<and> out k' = out k \<and> (\<forall>fd. pos fd k' = pos fd k)))
     \<and> (\<forall>b off k. b \<noteq> [] \<longrightarrow> 0 \<le> off \<longrightarrow> (\<exists>n k'. n_pwrite N fd_out b off k = (Inr (int n), k')
        \<and> 1 \<le> n \<and> n \<le> length b \<and> out k' = patch (out k) (nat off) (take n b) \<and> (\<forall>fd. pos fd k' = pos fd k)))
     \<and> (\<forall>fd k. n_lseek N fd 0 SEEK_CUR k = (Inr (pos fd k), k))
     \<and> (\<forall>fd off k. \<exists>k'. n_lseek N fd off SEEK_SET k = (Inr off, k') \<and> out k' = out k
          \<and> (\<forall>fd'. pos fd' k' = (if fd' = fd then off else pos fd' k)))"

lemma file_io_pread:
  assumes "file_io N fd_in fd_out src out pos" and "0 < n" and "0 \<le> off"
  obtains m k' where "pread_shim K OPS N fd_in n off w = (Some (take m (drop (nat off) src)), w\<lparr>kst := k'\<rparr>)"
    and "m \<le> n" and "nat off + m \<le> max (nat off) (length src)" and "m = 0 \<longrightarrow> length src \<le> nat off"
    and "out k' = out (kst w)" and "\<forall>fd. pos fd k' = pos fd (kst w)"
proof -
  have "\<exists>m k'. n_pread N fd_in n off (kst w) = (Inr (take m (drop (nat off) src)), k')
        \<and> m \<le> n \<and> nat off + m \<le> max (nat off) (length src) \<and> (m = 0 \<longrightarrow> length src \<le> nat off)
        \<and> out k' = out (kst w) \<and> (\<forall>fd. pos fd k' = pos fd (kst w))"
    using assms unfolding file_io_def by blast
  then show ?thesis using that by (auto simp: pread_shim_def synth_shim_e_def sys_def)
qed

lemma file_io_pwrite:
  assumes "file_io N fd_in fd_out src out pos" and "b \<noteq> []" and "0 \<le> off"
  obtains n k' where "pwrite_shim K OPS N fd_out b off w = (Some (int n), w\<lparr>kst := k'\<rparr>)"
    and "1 \<le> n" and "n \<le> length b" and "out k' = patch (out (kst w)) (nat off) (take n b)"
    and "\<forall>fd. pos fd k' = pos fd (kst w)"
proof -
  have "\<exists>n k'. n_pwrite N fd_out b off (kst w) = (Inr (int n), k') \<and> 1 \<le> n \<and> n \<le> length b
      \<and> out k' = patch (out (kst w)) (nat off) (take n b) \<and> (\<forall>fd. pos fd k' = pos fd (kst w))"
    using assms unfolding file_io_def by blast
  then show ?thesis using that by (auto simp: pwrite_shim_def synth_shim_e_def sys_def)
qed

lemma file_io_seek:
  assumes "file_io N fd_in fd_out src out pos"
  shows "lseek_shim K OPS N fd 0 SEEK_CUR w = (Some (pos fd (kst w)), w)"
    and "\<exists>k'. lseek_shim K OPS N fd off SEEK_SET w = (Some off, w\<lparr>kst := k'\<rparr>) \<and> out k' = out (kst w)
          \<and> (\<forall>fd'. pos fd' k' = (if fd' = fd then off else pos fd' (kst w)))"
proof -
  have "n_lseek N fd 0 SEEK_CUR (kst w) = (Inr (pos fd (kst w)), kst w)"
    using assms unfolding file_io_def by blast
  then show "lseek_shim K OPS N fd 0 SEEK_CUR w = (Some (pos fd (kst w)), w)"
    by (simp add: lseek_shim_def synth_shim_e_def sys_def)
  have "\<exists>k'. n_lseek N fd off SEEK_SET (kst w) = (Inr off, k') \<and> out k' = out (kst w)
          \<and> (\<forall>fd'. pos fd' k' = (if fd' = fd then off else pos fd' (kst w)))"
    using assms unfolding file_io_def by blast
  then show "\<exists>k'. lseek_shim K OPS N fd off SEEK_SET w = (Some off, w\<lparr>kst := k'\<rparr>) \<and> out k' = out (kst w)
          \<and> (\<forall>fd'. pos fd' k' = (if fd' = fd then off else pos fd' (kst w)))"
    by (auto simp: lseek_shim_def synth_shim_e_def sys_def)
qed

text \<open>The buffer is written out completely, however short the single writes are.\<close>

lemma write_loop_all:
  assumes "file_io N fd_in fd_out src out pos" and "0 \<le> off" and "wr \<le> length b"
  shows "\<exists>k. write_loop K OPS N fd_out b wr off w = Some (True, w\<lparr>kst := k\<rparr>)
           \<and> out k = patch (out (kst w)) (nat off + wr) (drop wr b) \<and> (\<forall>fd. pos fd k = pos fd (kst w))"
  using assms(3)
proof (induction "length b - wr" arbitrary: wr w rule: less_induct)
  case less
  show ?case
  proof (cases "wr < length b")
    case True
    then obtain n k' where n: "pwrite_shim K OPS N fd_out (drop wr b) (off + int wr) w = (Some (int n), w\<lparr>kst := k'\<rparr>)"
      "1 \<le> n" "n \<le> length (drop wr b)" "out k' = patch (out (kst w)) (nat (off + int wr)) (take n (drop wr b))"
      "\<forall>fd. pos fd k' = pos fd (kst w)"
      using file_io_pwrite [OF assms(1), of "drop wr b" "off + int wr" K OPS w] assms(2) by auto
    have dec: "length b - (wr + n) < length b - wr" "wr + n \<le> length b" using True n(2,3) by auto
    from less.hyps [OF dec, of "w\<lparr>kst := k'\<rparr>"] obtain k where
      k: "write_loop K OPS N fd_out b (wr + n) off (w\<lparr>kst := k'\<rparr>) = Some (True, w\<lparr>kst := k\<rparr>)"
        "out k = patch (out k') (nat off + (wr + n)) (drop (wr + n) b)" "\<forall>fd. pos fd k = pos fd k'"
      by auto
    have "out k = patch (out (kst w)) (nat off + wr) (take n (drop wr b) @ drop (wr + n) b)"
      using patch_append [of "out (kst w)" "nat off + wr" "take n (drop wr b)" "drop (wr + n) b"] n(3,4) k(2) assms(2)
      by (simp add: nat_add_distrib add.assoc)
    also have "take n (drop wr b) @ drop (wr + n) b = drop wr b"
      by (metis append_take_drop_id add.commute drop_drop)
    finally show ?thesis
      using True n(1,5) k(1,3) by (intro exI [of _ k], subst write_loop.simps) simp
  next
    case False
    with less.prems show ?thesis by (intro exI [of _ "kst w"]) (simp add: write_loop.simps)
  qed
qed

text \<open>The copy loop ends, with exactly the bytes there were.\<close>

lemma copy_loop_copies:
  assumes "file_io N fd_in fd_out src out pos" and "0 \<le> i" and "0 \<le> u"
  shows "\<exists>k. copy_loop K OPS N fd_in i fd_out u len tot w
             = Some ((Copied, tot + int (min len (length src - nat i)), i + int (min len (length src - nat i)),
                      u + int (min len (length src - nat i))), w\<lparr>kst := k\<rparr>)
           \<and> out k = patch (out (kst w)) (nat u) (take len (drop (nat i) src)) \<and> (\<forall>fd. pos fd k = pos fd (kst w))"
  using assms(2,3)
proof (induction len arbitrary: i u tot w rule: less_induct)
  case (less len)
  show ?case
  proof (cases "len = 0")
    case True
    then show ?thesis by (intro exI [of _ "kst w"]) (simp add: copy_loop.simps)
  next
    case False
    then obtain m k1 where m: "pread_shim K OPS N fd_in (min len 4096) i w = (Some (take m (drop (nat i) src)), w\<lparr>kst := k1\<rparr>)"
      "m \<le> min len 4096" "nat i + m \<le> max (nat i) (length src)" "m = 0 \<longrightarrow> length src \<le> nat i"
      "out k1 = out (kst w)" "\<forall>fd. pos fd k1 = pos fd (kst w)"
      using file_io_pread [OF assms(1), of "min len 4096" i K OPS w] less.prems by auto
    let ?b = "take m (drop (nat i) src)"
    have len_b: "length ?b = m" using m(3) by simp
    show ?thesis
    proof (cases "m = 0")
      case True
      with m False show ?thesis by (intro exI [of _ k1]) (simp add: copy_loop.simps)
    next
      case nonzero: False
      then have ne: "?b \<noteq> []" using len_b by force
      obtain k2 where k2: "write_loop K OPS N fd_out ?b 0 u (w\<lparr>kst := k1\<rparr>) = Some (True, w\<lparr>kst := k2\<rparr>)"
        "out k2 = patch (out k1) (nat u) ?b" "\<forall>fd. pos fd k2 = pos fd k1"
        using write_loop_all [OF assms(1) less.prems(2), of 0 ?b K OPS "w\<lparr>kst := k1\<rparr>"] by auto
      have step: "copy_loop K OPS N fd_in i fd_out u len tot w
          = copy_loop K OPS N fd_in (i + int m) fd_out (u + int m) (len - m) (tot + int m) (w\<lparr>kst := k2\<rparr>)"
        using False ne m(1) k2(1) len_b by (subst copy_loop.simps) simp
      have collapse: "kst (w\<lparr>kst := k2\<rparr>) = k2" "(w\<lparr>kst := k2\<rparr>)\<lparr>kst := k\<rparr> = w\<lparr>kst := k\<rparr>" for k by simp_all
      have "len - m < len" "0 \<le> i + int m" "0 \<le> u + int m" using False nonzero less.prems by auto
      from less.IH [OF this, of "tot + int m" "w\<lparr>kst := k2\<rparr>"] obtain k where
        k: "copy_loop K OPS N fd_in (i + int m) fd_out (u + int m) (len - m) (tot + int m) (w\<lparr>kst := k2\<rparr>)
             = Some ((Copied, tot + int m + int (min (len - m) (length src - nat (i + int m))),
                      i + int m + int (min (len - m) (length src - nat (i + int m))),
                      u + int m + int (min (len - m) (length src - nat (i + int m)))), w\<lparr>kst := k\<rparr>)"
           "out k = patch (out k2) (nat (u + int m)) (take (len - m) (drop (nat (i + int m)) src))"
           "\<forall>fd. pos fd k = pos fd k2"
        by (simp only: collapse) blast
      have nats: "nat (i + int m) = nat i + m" "nat (u + int m) = nat u + m" using less.prems by auto
      have fits: "m \<le> len" "nat i + m \<le> length src" using m(2,3) nonzero by (auto simp: max_def split: if_splits)
      then have "m + min (len - m) (length src - (nat i + m)) = min len (length src - nat i)"
        by (auto simp: min_def)
      then have sum: "int m + int (min (len - m) (length src - (nat i + m))) = int (min len (length src - nat i))"
        by (simp only: flip: of_nat_add)
      have "out k = patch (out (kst w)) (nat u) (?b @ take (len - m) (drop (nat i + m) src))"
        using k(2) k2(2) m(5) patch_append [of "out (kst w)" "nat u" ?b] len_b nats by simp
      also have "?b @ take (len - m) (drop (nat i + m) src) = take len (drop (nat i) src)"
        using m(2) take_add [of m "len - m" "drop (nat i) src"] by (simp add: add.commute)
      finally show ?thesis
        using step k(1,3) k2(3) m(6) sum nats by (intro exI [of _ k] conjI) (simp_all only: nats add.assoc simp_thms)
    qed
  qed
qed

lemma seek_back_pos:
  assumes "file_io N fd_in fd_out src out pos"
  shows "\<exists>k. seek_back K OPS N p fd off w = w\<lparr>kst := k\<rparr> \<and> out k = out (kst w)
           \<and> (\<forall>fd'. pos fd' k = (if p = None \<and> fd' = fd then off else pos fd' (kst w)))"
proof (cases p)
  case None
  obtain k where "lseek_shim K OPS N fd off SEEK_SET w = (Some off, w\<lparr>kst := k\<rparr>)" "out k = out (kst w)"
    "\<forall>fd'. pos fd' k = (if fd' = fd then off else pos fd' (kst w))"
    using file_io_seek(2) [OF assms, of K OPS fd off w] by blast
  with None show ?thesis by (intro exI [of _ k]) (simp add: seek_back_def)
next
  case Some
  then show ?thesis by (intro exI [of _ "kst w"]) (simp add: seek_back_def)
qed

text \<open>
  C22: Where the kernel has no \<^verbatim>\<open>copy_file_range\<close>, the fallback returns, and has copied the
  bytes of the input from its offset on, as many as asked for or as there are, to the output
  at its offset, changing nothing else there, however short the single reads and writes;
  it returns their number, and moves exactly the offsets a native call moves: the caller's
  where pointers are given, the file positions where they are null.
\<close>

theorem copy_file_range_copies:
  assumes "file_io N fd_in fd_out src out pos" and "fd_in \<noteq> fd_out"
    and "nxt fd_in off_in fd_out off_out len flags (kst w) = (Inl ENOSYS, kst w)"
    and "\<not> passthru ''copy_file_range'' w"
    and start: "i = (case off_in of Some v \<Rightarrow> v | None \<Rightarrow> pos fd_in (kst w))"
               "u = (case off_out of Some v \<Rightarrow> v | None \<Rightarrow> pos fd_out (kst w))" "0 \<le> i" "0 \<le> u"
    and num: "n = int (min len (length src - nat i))"
  shows "\<exists>w'. copy_file_range_shim K OPS N nxt fd_in off_in fd_out off_out len flags w
             = Some (Some (n, ptr_out off_in (i + n), ptr_out off_out (u + n)), w')
           \<and> out (kst w') = patch (out (kst w)) (nat u) (take len (drop (nat i) src))
           \<and> pos fd_in (kst w') = (if off_in = None then i + n else pos fd_in (kst w))
           \<and> pos fd_out (kst w') = (if off_out = None then u + n else pos fd_out (kst w))"
proof -
  let ?w1 = "w\<lparr>errno := ENOSYS\<rparr>"
  have nx: "sys (nxt fd_in off_in fd_out off_out len flags) w = (None, ?w1)" using assms(3) by (simp add: sys_def)
  have pass: "\<not> passthru ''copy_file_range'' ?w1" using assms(4) by (simp add: passthru_def)
  have seek: "lseek_shim K OPS N fd 0 SEEK_CUR ?w1 = (Some (pos fd (kst w)), ?w1)" for fd
    using file_io_seek(1) [OF assms(1), of K OPS fd ?w1] by simp
  have io: "(case off_in of Some v \<Rightarrow> v | None \<Rightarrow> fd_or_minus1 (Some (pos fd_in (kst w)))) = i"
    "(case off_out of Some v \<Rightarrow> v | None \<Rightarrow> fd_or_minus1 (Some (pos fd_out (kst w)))) = u"
    using start by (simp_all add: fd_or_minus1_def split: option.splits)
  obtain k where k: "copy_loop K OPS N fd_in i fd_out u len 0 ?w1 = Some ((Copied, n, i + n, u + n), ?w1\<lparr>kst := k\<rparr>)"
    "out k = patch (out (kst w)) (nat u) (take len (drop (nat i) src))" "\<forall>fd. pos fd k = pos fd (kst w)"
    using copy_loop_copies [OF assms(1) start(3,4), of K OPS len 0 ?w1] num by auto
  obtain k1 where k1: "seek_back K OPS N off_in fd_in (i + n) (?w1\<lparr>kst := k\<rparr>) = ?w1\<lparr>kst := k1\<rparr>" "out k1 = out k"
    "\<forall>fd. pos fd k1 = (if off_in = None \<and> fd = fd_in then i + n else pos fd k)"
    using seek_back_pos [OF assms(1), of K OPS off_in fd_in "i + n" "?w1\<lparr>kst := k\<rparr>"] by (auto cong: if_cong)
  obtain k2 where k2: "seek_back K OPS N off_out fd_out (u + n) (?w1\<lparr>kst := k1\<rparr>) = ?w1\<lparr>kst := k2\<rparr>" "out k2 = out k1"
    "\<forall>fd. pos fd k2 = (if off_out = None \<and> fd = fd_out then u + n else pos fd k1)"
    using seek_back_pos [OF assms(1), of K OPS off_out fd_out "u + n" "?w1\<lparr>kst := k1\<rparr>"] by (auto cong: if_cong)
  have "i \<noteq> -1" "u \<noteq> -1" using start(3,4) by simp_all
  then have run: "copy_file_range_shim K OPS N nxt fd_in off_in fd_out off_out len flags w
      = Some (Some (n, ptr_out off_in (i + n), ptr_out off_out (u + n)), ?w1\<lparr>kst := k2\<rparr>)"
    unfolding copy_file_range_shim_def using pass by (simp add: nx seek io k(1) k1(1) k2(1) del: option.case)
  have "out k2 = patch (out (kst w)) (nat u) (take len (drop (nat i) src))"
    using k(2) k1(2) k2(2) by (simp only:)
  moreover have "pos fd_in k2 = (if off_in = None then i + n else pos fd_in (kst w))"
    using k(3) k1(3) k2(3) assms(2) by (simp only: simp_thms if_False)
  moreover have "pos fd_out k2 = (if off_out = None then u + n else pos fd_out (kst w))"
    using k(3) k1(3) k2(3) assms(2) [symmetric] by (simp only: simp_thms if_False)
  ultimately show ?thesis using run by (intro exI [of _ "?w1\<lparr>kst := k2\<rparr>"]) simp
qed

text \<open>A kernel that reads at most two bytes at a time and writes one, the state being the output and the positions.\<close>

definition example_files :: "(bytes \<times> (int \<Rightarrow> int)) libc_io" where
  "example_files = null_io\<lparr>
     n_pread := (\<lambda>_ n off k. (Inr (take (min (min n 2) (5 - nat off)) (drop (nat off) ''hello'')), k)),
     n_pwrite := (\<lambda>_ b off k. (Inr 1, (patch (fst k) (nat off) (take 1 b), snd k))),
     n_lseek := (\<lambda>fd off wh k. if wh = SEEK_CUR then (Inr (snd k fd), k) else (Inr off, (fst k, (snd k)(fd := off))))\<rparr>"

theorem copy_file_range_copies_witness:
  "\<exists>w'. copy_file_range_shim null_kernel (\<lambda>_. no_ops) example_files (\<lambda>_ _ _ _ _ _ k. (Inl ENOSYS, k)) 3 None 4 (Some 2) 9 0
          (static_world (''abcdefgh'', (\<lambda>_. 1))) = Some (Some (4, None, Some 6), w')
     \<and> fst (kst w') = ''abellogh'' \<and> snd (kst w') 3 = 5 \<and> snd (kst w') 4 = 1"
proof -
  let ?w = "static_world (''abcdefgh'', (\<lambda>_. 1)) :: (bytes \<times> (int \<Rightarrow> int)) world"
  have io: "file_io example_files 3 4 ''hello'' fst (\<lambda>fd k. snd k fd)"
    unfolding file_io_def
  proof (intro conjI allI impI)
    fix n :: nat and off :: int and k :: "bytes \<times> (int \<Rightarrow> int)"
    assume n: "0 < n"
    let ?m = "min (min n 2) (5 - nat off)"
    have "?m \<le> n" "nat off + ?m \<le> max (nat off) 5" by simp_all
    moreover have "?m = 0 \<longrightarrow> 5 \<le> nat off" using n by (simp add: min_def)
    moreover have "n_pread example_files 3 n off k = (Inr (take ?m (drop (nat off) ''hello'')), k)"
      by (simp add: example_files_def)
    moreover have five: "length ''hello'' = 5" by simp
    ultimately show "\<exists>m k'. n_pread example_files 3 n off k = (Inr (take m (drop (nat off) ''hello'')), k') \<and> m \<le> n
        \<and> nat off + m \<le> max (nat off) (length ''hello'') \<and> (m = 0 \<longrightarrow> length ''hello'' \<le> nat off)
        \<and> fst k' = fst k \<and> (\<forall>fd. snd k' fd = snd k fd)"
      unfolding five by (intro exI [of _ ?m] exI [of _ k] conjI) (assumption | simp only: simp_thms)+
  next
    fix b :: bytes and off :: int and k :: "bytes \<times> (int \<Rightarrow> int)"
    assume "b \<noteq> []"
    then show "\<exists>n k'. n_pwrite example_files 4 b off k = (Inr (int n), k') \<and> 1 \<le> n \<and> n \<le> length b
        \<and> fst k' = patch (fst k) (nat off) (take n b) \<and> (\<forall>fd. snd k' fd = snd k fd)"
      by (intro exI [of _ 1] exI [of _ "(patch (fst k) (nat off) (take 1 b), snd k)"])
        (simp add: example_files_def Suc_le_eq)
  next
    fix fd off :: int and k :: "bytes \<times> (int \<Rightarrow> int)"
    show "\<exists>k'. n_lseek example_files fd off SEEK_SET k = (Inr off, k') \<and> fst k' = fst k
        \<and> (\<forall>fd'. snd k' fd' = (if fd' = fd then off else snd k fd'))"
      by (intro exI [of _ "(fst k, (snd k)(fd := off))"]) (simp add: example_files_def)
  qed (simp add: example_files_def)
  have pass: "\<not> passthru ''copy_file_range'' ?w" by code_simp
  have "\<exists>w'. copy_file_range_shim null_kernel (\<lambda>_. no_ops) example_files (\<lambda>_ _ _ _ _ _ k. (Inl ENOSYS, k)) 3 None 4 (Some 2) 9 0 ?w
             = Some (Some (4, ptr_out None (1 + 4), ptr_out (Some 2) (2 + 4)), w')
           \<and> fst (kst w') = patch (fst (kst ?w)) (nat 2) (take 9 (drop (nat 1) ''hello''))
           \<and> snd (kst w') 3 = (if None = (None :: int option) then 1 + 4 else snd (kst ?w) 3)
           \<and> snd (kst w') 4 = (if Some (2 :: int) = None then 2 + 4 else snd (kst ?w) 4)"
    by (rule copy_file_range_copies [OF io]) (use pass in \<open>simp_all add: static_world_def\<close>)
  moreover have "patch (fst (kst ?w)) (nat 2) (take 9 (drop (nat 1) ''hello'')) = ''abellogh''"
    by (simp add: static_world_def patch_def)
  ultimately show ?thesis by (simp add: ptr_out_def static_world_def)
qed

text \<open>A \<^verbatim>\<open>pwrite\<close> that keeps returning 0 makes the call hang.\<close>

lemma write_loop_hangs:
  assumes "\<And>b off w. pwrite_shim K OPS N fd_out b off w = (Some 0, w)" and "wr < length b"
  shows "write_loop K OPS N fd_out b wr off w = None"
proof (rule ccontr)
  assume "write_loop K OPS N fd_out b wr off w \<noteq> None"
  then obtain y where "write_loop K OPS N fd_out b wr off w = Some y" by blast
  then have "(\<forall>b off w. pwrite_shim K OPS N fd_out b off w = (Some 0, w)) \<longrightarrow> \<not> wr < length b"
    by (rule write_loop.raw_induct [where P = "\<lambda>K OPS N fd_out b wr off w y.
          (\<forall>b off w. pwrite_shim K OPS N fd_out b off w = (Some 0, w)) \<longrightarrow> \<not> wr < length b", rotated])
      (rule impI, auto split: if_splits)
  with assms show False by blast
qed

end
