(* ===== verification/Rename.thy ===== *)
theory Rename
  imports Tunables
begin

text \<open>
  rename.c: \<^verbatim>\<open>renameat2\<close>.  \<^verbatim>\<open>RENAME_NOREPLACE\<close>, which the WSL1 kernel does not know, is a link to the
  new name followed by the removal of the old one.
\<close>

section \<open>The shim\<close>

abbreviation (input) RENAME_NOREPLACE :: int where "RENAME_NOREPLACE \<equiv> 1"

record 'k rename_kernel =
  n_renameat2 :: "int \<Rightarrow> cstring \<Rightarrow> int \<Rightarrow> cstring \<Rightarrow> int \<Rightarrow> 'k \<Rightarrow> (int + int) \<times> 'k"
  c_linkat :: "int \<Rightarrow> cstring \<Rightarrow> int \<Rightarrow> cstring \<Rightarrow> int \<Rightarrow> 'k \<Rightarrow> (int + int) \<times> 'k"
  c_unlinkat :: "int \<Rightarrow> cstring \<Rightarrow> int \<Rightarrow> 'k \<Rightarrow> (int + int) \<times> 'k"
  c_renameat :: "int \<Rightarrow> cstring \<Rightarrow> int \<Rightarrow> cstring \<Rightarrow> 'k \<Rightarrow> (int + int) \<times> 'k"

definition renameat2_shim ::
  "'k rename_kernel \<Rightarrow> int \<Rightarrow> cstring \<Rightarrow> int \<Rightarrow> cstring \<Rightarrow> int \<Rightarrow> ('k, int) call" where
  "renameat2_shim R olddirfd oldpath newdirfd newpath flags w =
     (if passthru ''renameat2'' w then sys (n_renameat2 R olddirfd oldpath newdirfd newpath flags) w
      else if flags = RENAME_NOREPLACE
      then (case sys (c_linkat R olddirfd oldpath newdirfd newpath 0) w of
              (None, w1) \<Rightarrow> (None, w1)
            | (Some _, w1) \<Rightarrow> sys (c_unlinkat R olddirfd oldpath 0) w1)
      else if flags = 0 then sys (c_renameat R olddirfd oldpath newdirfd newpath) w
      else sys (n_renameat2 R olddirfd oldpath newdirfd newpath flags) w)"

section \<open>No name is replaced\<close>

text \<open>
  The names of a file system, and what link(2) and unlink(2) promise: a link is only made to a
  name that does not exist, both leave every other name alone, and a failed call changes nothing.
  \<open>res\<close> is the name a directory descriptor and a path stand for.
\<close>

definition links :: "('k \<Rightarrow> 'n \<rightharpoonup> nat) \<Rightarrow> (int \<Rightarrow> cstring \<Rightarrow> 'n) \<Rightarrow> 'k rename_kernel \<Rightarrow> bool" where
  "links fs res R \<longleftrightarrow>
     (\<forall>od op nd np k v k'. c_linkat R od op nd np 0 k = (Inr v, k') \<longrightarrow>
        (\<exists>i. fs k (res od op) = Some i \<and> fs k (res nd np) = None \<and> fs k' = (fs k)(res nd np \<mapsto> i)))
     \<and> (\<forall>od op nd np k e k'. c_linkat R od op nd np 0 k = (Inl e, k') \<longrightarrow> fs k' = fs k)"

definition unlinks :: "('k \<Rightarrow> 'n \<rightharpoonup> nat) \<Rightarrow> (int \<Rightarrow> cstring \<Rightarrow> 'n) \<Rightarrow> 'k rename_kernel \<Rightarrow> bool" where
  "unlinks fs res R \<longleftrightarrow>
     (\<forall>d p k v k'. c_unlinkat R d p 0 k = (Inr v, k') \<longrightarrow> fs k' = (fs k)(res d p := None))
     \<and> (\<forall>d p k e k'. c_unlinkat R d p 0 k = (Inl e, k') \<longrightarrow> fs k' = fs k)"

text \<open>The contract of \<^verbatim>\<open>RENAME_NOREPLACE\<close>: the file moves to a name that was free.\<close>

definition renamed :: "'n \<Rightarrow> 'n \<Rightarrow> ('n \<rightharpoonup> nat) \<Rightarrow> ('n \<rightharpoonup> nat) \<Rightarrow> bool" where
  "renamed old new m m' \<longleftrightarrow> (\<exists>i. m old = Some i \<and> m new = None \<and> m' = m(new \<mapsto> i, old := None))"

text \<open>
  C24: \<^verbatim>\<open>renameat2\<close> with \<^verbatim>\<open>RENAME_NOREPLACE\<close> meets its contract when it succeeds: the new name did not
  exist, it is the file now, and the old name is gone.  A failed call has changed nothing, except
  that the file may have both names, when the old one could be linked but not removed.  No
  other name changes, and no existing name is ever replaced.
\<close>

theorem renameat2_noreplace:
  assumes l: "links fs res R" and u: "unlinks fs res R" and np: "\<not> passthru ''renameat2'' w"
    and r: "renameat2_shim R od op nd np RENAME_NOREPLACE w = (res', w')"
  shows "if res' \<noteq> None then renamed (res od op) (res nd np) (fs (kst w)) (fs (kst w'))
      else fs (kst w') = fs (kst w)
        \<or> (\<exists>i. fs (kst w) (res od op) = Some i \<and> fs (kst w) (res nd np) = None
               \<and> fs (kst w') = (fs (kst w))(res nd np \<mapsto> i))"
proof (cases rule: sys_cases [of "c_linkat R od op nd np 0" w])
  case (ok v k)
  obtain i where i: "fs (kst w) (res od op) = Some i" "fs (kst w) (res nd np) = None"
    "fs k = (fs (kst w))(res nd np \<mapsto> i)"
    using l ok(1) unfolding links_def by blast
  let ?w1 = "w\<lparr>kst := k\<rparr>"
  have s: "sys (c_unlinkat R od op 0) ?w1 = (res', w')" using r np ok(2) by (simp add: renameat2_shim_def)
  show ?thesis
  proof (cases rule: sys_cases [of "c_unlinkat R od op 0" ?w1])
    case (ok v' k')
    then have "fs k' = (fs k)(res od op := None)" using u unfolding unlinks_def by auto
    with i ok(2) s show ?thesis by (auto simp: renamed_def)
  next
    case (err e k')
    then have "fs k' = fs k" using u unfolding unlinks_def by auto
    with i err(2) s show ?thesis by auto
  qed
next
  case (err e k)
  then have "fs k = fs (kst w)" using l unfolding links_def by blast
  with err(2) r np show ?thesis by (auto simp: renameat2_shim_def)
qed

text \<open>The file system as the kernel state itself.\<close>

definition example_rename :: "((int \<times> cstring) \<rightharpoonup> nat) rename_kernel" where
  "example_rename =
     \<lparr>n_renameat2 = (\<lambda>_ _ _ _ _ m. (Inl EINVAL, m)),
      c_linkat = (\<lambda>od op nd np _ m. case m (od, op) of
         None \<Rightarrow> (Inl ENOENT, m)
       | Some i \<Rightarrow> if m (nd, np) = None then (Inr 0, m((nd, np) \<mapsto> i)) else (Inl EEXIST, m)),
      c_unlinkat = (\<lambda>d p _ m. if m (d, p) = None then (Inl ENOENT, m) else (Inr 0, m((d, p) := None))),
      c_renameat = (\<lambda>_ _ _ _ m. (Inl EINVAL, m))\<rparr>"

theorem renameat2_noreplace_witness:
  "renamed (AT_FDCWD, ''a'') (AT_FDCWD, ''b'') [(AT_FDCWD, ''a'') \<mapsto> 7]
     (kst (snd (renameat2_shim example_rename AT_FDCWD ''a'' AT_FDCWD ''b'' RENAME_NOREPLACE
                  (static_world [(AT_FDCWD, ''a'') \<mapsto> 7]))))"
proof -
  let ?w = "static_world [(AT_FDCWD, ''a'') \<mapsto> 7] :: ((int \<times> cstring) \<rightharpoonup> nat) world"
  have l: "links (\<lambda>m. m) Pair example_rename"
    by (auto simp: links_def example_rename_def split: option.splits if_splits)
  have u: "unlinks (\<lambda>m. m) Pair example_rename"
    by (auto simp: unlinks_def example_rename_def split: if_splits)
  have np: "\<not> passthru ''renameat2'' ?w"
    by (simp add: passthru_def wslcompat_enabled_def static_world_def wslcompat_tunable_list_def tunable_list_mem_def
        wslcompat_tunable_str_def)
  obtain r w' where s: "renameat2_shim example_rename AT_FDCWD ''a'' AT_FDCWD ''b'' RENAME_NOREPLACE ?w = (r, w')"
    by fastforce
  then have "r = Some 0"
    using np by (auto simp: renameat2_shim_def sys_def example_rename_def static_world_def)
  with renameat2_noreplace [OF l u np s] s show ?thesis by (simp add: static_world_def)
qed

end
