(* ===== verification/Sockopt.thy ===== *)
theory Sockopt
  imports Tunables
begin

text \<open>
  getsockopt.c and setsockopt.c: \<^verbatim>\<open>SO_REUSEPORT\<close> read and written as \<^verbatim>\<open>SO_REUSEADDR\<close>, and the
  \<^verbatim>\<open>SO_DOMAIN\<close> and \<^verbatim>\<open>SO_PROTOCOL\<close> of a Unix socket, which the WSL1 kernel does not answer.
\<close>

section \<open>The shims\<close>

abbreviation (input) SOL_SOCKET :: int where "SOL_SOCKET \<equiv> 1"
abbreviation (input) SO_REUSEADDR :: int where "SO_REUSEADDR \<equiv> 2"
abbreviation (input) SO_REUSEPORT :: int where "SO_REUSEPORT \<equiv> 15"
abbreviation (input) SO_PROTOCOL :: int where "SO_PROTOCOL \<equiv> 38"
abbreviation (input) SO_DOMAIN :: int where "SO_DOMAIN \<equiv> 39"
abbreviation (input) AF_UNIX :: nat where "AF_UNIX \<equiv> 1"

text \<open>The caller's buffer and its length variable; \<open>None\<close> is a null pointer.\<close>

record sobuf =
  optval :: "bytes option"
  optlen :: "nat option"

record 'k sock_kernel =
  n_getsockopt :: "int \<Rightarrow> int \<Rightarrow> int \<Rightarrow> sobuf \<Rightarrow> 'k \<Rightarrow> ((int + int) \<times> 'k) \<times> sobuf"
  n_setsockopt :: "int \<Rightarrow> int \<Rightarrow> int \<Rightarrow> bytes option \<Rightarrow> nat \<Rightarrow> 'k \<Rightarrow> (int + int) \<times> 'k"
  c_getsockname :: "int \<Rightarrow> 'k \<Rightarrow> (int + nat) \<times> 'k"

text \<open>The next \<^verbatim>\<open>getsockopt\<close>: its result and the buffer it leaves.\<close>

definition next_getsockopt ::
  "'k sock_kernel \<Rightarrow> int \<Rightarrow> int \<Rightarrow> int \<Rightarrow> sobuf \<Rightarrow> 'k world \<Rightarrow> (int option \<times> sobuf) \<times> 'k world" where
  "next_getsockopt S sockfd level optname b w =
     (let (r, w1) = sys (\<lambda>k. fst (n_getsockopt S sockfd level optname b k)) w
      in ((r, snd (n_getsockopt S sockfd level optname b (kst w))), w1))"

definition memset0 :: "nat \<Rightarrow> bytes \<Rightarrow> bytes" where
  "memset0 n b = replicate n NUL @ drop n b"

text \<open>The two answers for a Unix socket.\<close>

definition unix_sockopt :: "int \<Rightarrow> nat \<Rightarrow> bytes \<Rightarrow> nat \<Rightarrow> sobuf option" where
  "unix_sockopt optname family val len =
     (if optname = SO_DOMAIN \<and> len \<ge> 2
      then Some \<lparr>optval = Some ([char_of (family mod 256), char_of (family div 256)] @ drop 2 (memset0 len val)), optlen = Some 2\<rparr>
      else if optname = SO_PROTOCOL \<and> len \<ge> 4 then Some \<lparr>optval = Some (memset0 4 val), optlen = Some 4\<rparr>
      else None)"

definition getsockopt_shim ::
  "'k sock_kernel \<Rightarrow> int \<Rightarrow> int \<Rightarrow> int \<Rightarrow> sobuf \<Rightarrow> 'k world \<Rightarrow> (int option \<times> sobuf) \<times> 'k world" where
  "getsockopt_shim S sockfd level optname b0 w =
     (let ((result, b), w1) = next_getsockopt S sockfd level optname b0 w
      in if result \<noteq> None \<or> passthru ''getsockopt'' w1 then ((result, b), w1)
         else if errno w1 \<noteq> EINVAL \<and> errno w1 \<noteq> ENOPROTOOPT then ((result, b), w1)
         else if errno w1 = ENOPROTOOPT \<and> level = SOL_SOCKET \<and> optname = SO_REUSEPORT
         then next_getsockopt S sockfd level SO_REUSEADDR b w1
         else case (optlen b, optval b) of
                (Some len, Some val) \<Rightarrow>
                  (if level \<noteq> SOL_SOCKET then ((result, b), w1)
                   else case sys (c_getsockname S sockfd) w1 of
                          (None, w2) \<Rightarrow> ((result, b), w2)
                        | (Some family, w2) \<Rightarrow>
                            (if family \<noteq> AF_UNIX then ((result, b), w2)
                             else case unix_sockopt optname family val len of
                                    Some b' \<Rightarrow> ((Some 0, b'), w2)
                                  | None \<Rightarrow> ((result, b), w2)))
              | _ \<Rightarrow> ((result, b), w1))"

definition setsockopt_shim ::
  "'k sock_kernel \<Rightarrow> int \<Rightarrow> int \<Rightarrow> int \<Rightarrow> bytes option \<Rightarrow> nat \<Rightarrow> ('k, int) call" where
  "setsockopt_shim S sockfd level optname val len w =
     (if passthru ''setsockopt'' w then sys (n_setsockopt S sockfd level optname val len) w
      else sys (n_setsockopt S sockfd level
                  (if level = SOL_SOCKET \<and> optname = SO_REUSEPORT then SO_REUSEADDR else optname) val len) w)"

section \<open>Port sharing\<close>

text \<open>
  A kernel that stores the socket options but does not know \<^verbatim>\<open>SO_REUSEPORT\<close>: a write of another
  option is what a later read of it returns, a read of \<^verbatim>\<open>SO_REUSEPORT\<close> is refused and changes nothing.
\<close>

definition keeps_options :: "'k sock_kernel \<Rightarrow> bool" where
  "keeps_options S \<longleftrightarrow>
     (\<forall>fd v k r k' b. n_setsockopt S fd SOL_SOCKET SO_REUSEADDR (Some v) (length v) k = (Inr r, k') \<longrightarrow>
        n_getsockopt S fd SOL_SOCKET SO_REUSEADDR b k' = ((Inr 0, k'), \<lparr>optval = Some v, optlen = Some (length v)\<rparr>))
     \<and> (\<forall>fd b k. n_getsockopt S fd SOL_SOCKET SO_REUSEPORT b k = ((Inl ENOPROTOOPT, k), b))"

text \<open>A program that sets \<^verbatim>\<open>SO_REUSEPORT\<close> reads back what it set.\<close>

lemma reuseport_roundtrip:
  assumes k: "keeps_options S" and np: "\<not> passthru ''setsockopt'' w" "\<not> passthru ''getsockopt'' w"
    and s: "setsockopt_shim S fd SOL_SOCKET SO_REUSEPORT (Some v) (length v) w = (Some r, w1)"
  shows "\<exists>w2. getsockopt_shim S fd SOL_SOCKET SO_REUSEPORT b w1
    = ((Some 0, \<lparr>optval = Some v, optlen = Some (length v)\<rparr>), w2)"
proof -
  have set: "sys (n_setsockopt S fd SOL_SOCKET SO_REUSEADDR (Some v) (length v)) w = (Some r, w1)"
    using s np(1) by (simp add: setsockopt_shim_def)
  obtain k' where w1: "w1 = w\<lparr>kst := k'\<rparr>"
    and k': "n_setsockopt S fd SOL_SOCKET SO_REUSEADDR (Some v) (length v) (kst w) = (Inr r, k')"
    using set by (cases rule: sys_cases [of "n_setsockopt S fd SOL_SOCKET SO_REUSEADDR (Some v) (length v)" w]) auto
  have g: "n_getsockopt S fd SOL_SOCKET SO_REUSEADDR b k' = ((Inr 0, k'), \<lparr>optval = Some v, optlen = Some (length v)\<rparr>)"
    "n_getsockopt S fd SOL_SOCKET SO_REUSEPORT b k' = ((Inl ENOPROTOOPT, k'), b)"
    using k k' unfolding keeps_options_def by blast+
  have "passthru ''getsockopt'' (w\<lparr>kst := x, errno := e\<rparr>) = passthru ''getsockopt'' w" for x e
    by (simp add: passthru_def)
  with np(2) show ?thesis
    by (simp add: getsockopt_shim_def next_getsockopt_def sys_def w1 g)
qed

text \<open>
  The domain of a Unix socket is the family, in two bytes; the length reported is 2, where the
  kernel reports that of an \<^verbatim>\<open>int\<close>.  An \<^verbatim>\<open>int\<close> the caller passed holds the right value all the same.
\<close>

lemma unix_domain:
  assumes "length val = 4"
  shows "unix_sockopt SO_DOMAIN AF_UNIX val 4 = Some \<lparr>optval = Some [CHR 0x01, NUL, NUL, NUL], optlen = Some 2\<rparr>"
proof -
  have "replicate 4 NUL = [NUL, NUL, NUL, NUL]" by (simp add: numeral_eq_Suc)
  moreover have "char_of (1 :: nat) = CHR 0x01" by code_simp
  moreover have "char_of (0 :: nat) = NUL" by code_simp
  ultimately show ?thesis using assms by (simp add: unix_sockopt_def memset0_def)
qed

text \<open>A successful call is passed on as it is, and a failed one only becomes a success for the two options.\<close>

lemma getsockopt_success:
  assumes "getsockopt_shim S fd level optname b w = ((Some r, b'), w')"
  shows "(\<exists>v. fst (n_getsockopt S fd level optname b (kst w)) = (Inr r, v))
    \<or> level = SOL_SOCKET \<and> optname \<in> {SO_REUSEPORT, SO_DOMAIN, SO_PROTOCOL}"
  using assms
  by (cases rule: sys_cases [of "\<lambda>k. fst (n_getsockopt S fd level optname b k)" w])
    (auto simp: getsockopt_shim_def next_getsockopt_def unix_sockopt_def Let_def split: if_splits option.splits prod.splits)

end
