(* ===== verification/Syscall.thy ===== *)
theory Syscall
  imports Exec Mmap
begin

text \<open>
  syscall.c: the \<^verbatim>\<open>syscall\<close> function.  A raw call goes to the kernel, except that \<^verbatim>\<open>execve\<close> and
  \<^verbatim>\<open>mmap\<close> are handed to the shims of those names when the \<^verbatim>\<open>syscall\<close> tunable lists them and the
  thread is not already inside such a redirection.
\<close>

section \<open>The shim\<close>

text \<open>The arguments, by the number of the call; the last case is every other number.\<close>

datatype sysargs =
    Sys_execve cstring argv argv
  | Sys_mmap mmap_args
  | Sys_other int "64 word list"

datatype 'k sys_result = Returned "64 word option" "'k world" | Image exec_call 'k

record 'k raw_kernel =
  r_syscall :: "sysargs \<Rightarrow> 'k \<Rightarrow> (int + 64 word) \<times> 'k"
  r_execve :: "cstring \<Rightarrow> argv \<Rightarrow> argv \<Rightarrow> 'k \<Rightarrow> (int + unit) \<times> 'k"

text \<open>\<^verbatim>\<open>sym_next(syscall, ...)\<close>.\<close>

definition next_syscall :: "'k raw_kernel \<Rightarrow> sysargs \<Rightarrow> 'k world \<Rightarrow> 'k sys_result" where
  "next_syscall Y a w =
     (case a of
        Sys_execve p argv envp \<Rightarrow>
          (case r_execve Y p argv envp (kst w) of
             (Inr _, k) \<Rightarrow> Image (Execve p argv envp) k
           | (Inl e, k) \<Rightarrow> Returned None (w\<lparr>kst := k, errno := e\<rparr>))
      | _ \<Rightarrow> (let (r, w1) = sys (r_syscall Y a) w in Returned r w1))"

text \<open>\<^verbatim>\<open>SYSCALL_REDIRECT\<close>: whether the call is redirected, by the value of the thread's \<^verbatim>\<open>redir\<close>.\<close>

definition redirected :: "int \<Rightarrow> sysargs \<Rightarrow> 'k world \<Rightarrow> bool" where
  "redirected redir a w =
     (case a of
        Sys_execve _ _ _ \<Rightarrow> wslcompat_tunable_list (options w) ''syscall'' ''execve'' \<and> redir = 0
      | Sys_mmap _ \<Rightarrow> wslcompat_tunable_list (options w) ''syscall'' ''mmap'' \<and> redir = 0
      | Sys_other _ _ \<Rightarrow> False)"

text \<open>
  The result and the value of \<^verbatim>\<open>redir\<close> afterwards.  \<open>execve_sh\<close> and \<open>mmap_sh\<close> are the two shims as
  functions of the \<^verbatim>\<open>redir\<close> they run under, which their own raw calls see.
\<close>

definition syscall_shim ::
  "'k raw_kernel \<Rightarrow> (int \<Rightarrow> cstring \<Rightarrow> argv \<Rightarrow> argv \<Rightarrow> 'k world \<Rightarrow> 'k exec_result) \<Rightarrow> (int \<Rightarrow> mmap_args \<Rightarrow> ('k, 64 word) call)
   \<Rightarrow> int \<Rightarrow> sysargs \<Rightarrow> 'k world \<Rightarrow> 'k sys_result \<times> int" where
  "syscall_shim Y execve_sh mmap_sh redir a w =
     (if redirected redir a w
      then (case a of
              Sys_execve p argv envp \<Rightarrow>
                (case execve_sh (redir + 1) p argv envp w of
                   Replaced c k \<Rightarrow> Image c k | Exec_failed w1 \<Rightarrow> Returned None w1)
            | Sys_mmap m \<Rightarrow> (let (r, w1) = mmap_sh (redir + 1) m w in Returned r w1)
            | Sys_other _ _ \<Rightarrow> next_syscall Y a w,
            redir + 1 - 1)
      else (next_syscall Y a w, redir))"

section \<open>Redirection\<close>

text \<open>The counter is back at its value when the call returns, and a second level is never entered.\<close>

lemma syscall_redir [simp]: "snd (syscall_shim Y X M redir a w) = redir"
  by (simp add: syscall_shim_def)

lemma syscall_inside: "redir \<noteq> 0 \<Longrightarrow> syscall_shim Y X M redir a w = (next_syscall Y a w, redir)"
  by (simp add: syscall_shim_def redirected_def split: sysargs.split)

text \<open>Without the tunable the function is the kernel's.\<close>

lemma tunable_list_absent: "wslcompat_tunable_str opts key None = None \<Longrightarrow> \<not> wslcompat_tunable_list opts key x"
proof -
  assume "wslcompat_tunable_str opts key None = None"
  then have "\<forall>p\<in>set opts. opt_key p \<noteq> key"
    by (auto simp: wslcompat_tunable_str_def find_None_iff split: option.splits)
  then have "find_index (\<lambda>p. opt_key p = key) opts = None" by (simp add: find_index_None_iff)
  then show ?thesis by (simp add: wslcompat_tunable_list_def tunable_list_mem_def)
qed

lemma syscall_default:
  assumes "wslcompat_tunable_str (options w) ''syscall'' None = None"
  shows "syscall_shim Y X M redir a w = (next_syscall Y a w, redir)"
  using tunable_list_absent [OF assms] by (simp add: syscall_shim_def redirected_def split: sysargs.split)

text \<open>
  The probe that the mmap shim makes with a raw call, a plain anonymous mapping, is the
  kernel's even when it is redirected: the shim passes on an mmap without the flags it emulates,
  whatever the kernel answers other than EBADF.
\<close>

lemma mmap_plain:
  assumes "\<not> has_flag (ma_flags m) (MAP_FIXED_NOREPLACE OR MAP_LOCKED)"
    and "\<And>k k'. n_mmap M m k \<noteq> (Inl EBADF, k')"
  shows "mmap_shim K OPS M m w = sys (n_mmap M m) w"
proof (cases rule: sys_cases [of "n_mmap M m" w])
  case (ok v k)
  then show ?thesis by (simp add: mmap_shim_def)
next
  case (err e k)
  then have "e \<noteq> EBADF" using assms(2) by auto
  with err(2) assms(1) show ?thesis by (simp add: mmap_shim_def)
qed

lemma redirected_probe:
  assumes "\<not> has_flag (ma_flags m) (MAP_FIXED_NOREPLACE OR MAP_LOCKED)"
    and "\<And>k k'. n_mmap M m k \<noteq> (Inl EBADF, k')" and "r_syscall Y (Sys_mmap m) = n_mmap M m"
  shows "syscall_shim Y X (\<lambda>_. mmap_shim K OPS M) redir (Sys_mmap m) w = (next_syscall Y (Sys_mmap m) w, redir)"
  using assms(3)
  by (simp add: syscall_shim_def redirected_def next_syscall_def mmap_plain [OF assms(1,2)])

text \<open>A redirected exec is the exec of the shim, with what that guarantees of the image.\<close>

lemma redirected_execve:
  assumes "wslcompat_tunable_list (options w) ''syscall'' ''execve''"
  shows "syscall_shim Y (\<lambda>_. execve_shim K OPS N null_open E) M 0 (Sys_execve p argv envp) w
    = (case execve_shim K OPS N null_open E p argv envp w of
         Replaced c k \<Rightarrow> Image c k | Exec_failed w1 \<Rightarrow> Returned None w1, 0)"
  using assms by (simp add: syscall_shim_def redirected_def)

end
