(* ===== verification/Logging.thy ===== *)
theory Logging
  imports Tunables Internal
begin

text \<open>
  logging.c: the debug log.  The descriptor of the log file is opened on the first message that
  is wanted, by whichever thread comes first, and is one of the library's internal descriptors.
  The other theories leave the log calls out; the lemmas at the end say when that is exact.
\<close>

section \<open>The log\<close>

abbreviation (input) WSLLOG_ERROR :: int where "WSLLOG_ERROR \<equiv> 0"
abbreviation (input) WSLLOG_WARNING :: int where "WSLLOG_WARNING \<equiv> 1"
abbreviation (input) WSLLOG_INFO :: int where "WSLLOG_INFO \<equiv> 2"
abbreviation (input) WSLLOG_DEBUG :: int where "WSLLOG_DEBUG \<equiv> 3"
abbreviation (input) WSLLOG_TRACE :: int where "WSLLOG_TRACE \<equiv> 4"

record 'k log_kernel =
  l_open :: "cstring \<Rightarrow> int \<Rightarrow> int \<Rightarrow> 'k \<Rightarrow> (int + int) \<times> 'k"
  l_writev :: "int \<Rightarrow> bytes list \<Rightarrow> 'k \<Rightarrow> (int + int) \<times> 'k"

definition logging_init :: "'k world \<Rightarrow> 'k world" where
  "logging_init = wslcompat_register_internal_fd Debugfd"

definition logging_fini :: "'k kernel \<Rightarrow> 'k world \<Rightarrow> 'k world" where
  "logging_fini K w = (if islot w Debugfd \<ge> 0 then snd (sys (k_close K (islot w Debugfd)) w) else w)"

text \<open>The level, read from the tunable the first time.\<close>

definition log_level :: "'k world \<Rightarrow> 'k world" where
  "log_level w = (if loglevel w < 0 then w\<lparr>loglevel := wslcompat_tunable_int (options w) ''debug'' 0\<rparr> else w)"

definition logfile :: "'k world \<Rightarrow> cstring" where
  "logfile w = (case wslcompat_tunable_str (options w) ''logfile'' (Some ''/dev/tty'') of
                  Some s \<Rightarrow> s | None \<Rightarrow> ''/dev/tty'')"

text \<open>
  The lazy open.  \<open>others\<close> is what other threads do between the open and the
  \<^verbatim>\<open>atomic_compare_exchange_strong\<close>; the result is the descriptor to use, negative where there
  is none.
\<close>

definition debugfd_open :: "'k kernel \<Rightarrow> 'k log_kernel \<Rightarrow> ('k world \<Rightarrow> 'k world) \<Rightarrow> 'k world \<Rightarrow> int \<times> 'k world" where
  "debugfd_open K L others w =
     (let fd = islot w Debugfd
      in if fd < -1
         then
           (let (r, w1) = sys (l_open L (logfile w) (O_WRONLY OR O_CREAT OR O_APPEND OR O_CLOEXEC) 384) w;
                new_fd = fd_or_minus1 r;
                w2 = others w1
            in if islot w2 Debugfd = -2 then (new_fd, w2\<lparr>islot := (islot w2)(Debugfd := new_fd)\<rparr>)
               else (islot w2 Debugfd, if new_fd \<ge> 0 then snd (sys (k_close K new_fd) w2) else w2))
         else (fd, w))"

text \<open>The three vectors of a message; \<open>msg\<close> is the formatted text, before it is cut to the buffer.\<close>

definition log_iov :: "int \<Rightarrow> cstring \<Rightarrow> cstring \<Rightarrow> bytes list" where
  "log_iov pid tag msg =
     (let prefix = ''[wsl] '' @ show_int pid @ '' '' @ tag @ '': '';
          n0 = (if length prefix \<ge> 64 then 63 else length prefix);
          n1 = (if length msg \<ge> 512 then 511 else length msg)
      in [take n0 (take 63 prefix), take n1 (take 511 msg), [CHR 0x0A]])"

definition wslcompat_debug_log ::
  "'k kernel \<Rightarrow> 'k log_kernel \<Rightarrow> ('k world \<Rightarrow> 'k world) \<Rightarrow> int \<Rightarrow> cstring \<Rightarrow> cstring \<Rightarrow> 'k world \<Rightarrow> int \<times> 'k world" where
  "wslcompat_debug_log K L others level tag msg w =
     (let w1 = log_level w
      in if level > loglevel w1 then (0, w1)
         else
           (let (fd, w2) = debugfd_open K L others w1
            in if fd < 0 then (-1, w2)
               else
                 (let (r, w3) = sys (l_writev L fd (log_iov (k_getpid K (kst w2)) tag msg)) w2
                  in (fd_or_minus1 r, w3))))"

section \<open>What is written\<close>

text \<open>One line of at most 575 bytes, whatever the lengths of the tag and the message.\<close>

lemma log_iov_line:
  "concat (log_iov pid tag msg) = take 63 (''[wsl] '' @ show_int pid @ '' '' @ tag @ '': '') @ take 511 msg @ [CHR 0x0A]"
  "length (concat (log_iov pid tag msg)) \<le> 575"
  by (simp_all add: log_iov_def Let_def)

text \<open>A message that is not wanted touches neither the kernel nor errno.\<close>

lemma log_level_same:
  "kst (log_level w) = kst w" "errno (log_level w) = errno w" "islot (log_level w) = islot w"
  "options (log_level w) = options w" "synth_table (log_level w) = synth_table w"
  by (simp_all add: log_level_def)

lemma log_unwanted:
  assumes "loglevel (log_level w) < level"
  shows "wslcompat_debug_log K L others level tag msg w = (0, log_level w)"
  using assms by (simp add: wslcompat_debug_log_def Let_def)

text \<open>Without a \<^verbatim>\<open>debug\<close> tunable nothing but errors is wanted.\<close>

lemma log_default:
  assumes "loglevel w < 0" and "wslcompat_tunable_str (options w) ''debug'' None = None" and "WSLLOG_ERROR < level"
  shows "wslcompat_debug_log K L others level tag msg w = (0, w\<lparr>loglevel := 0\<rparr>)"
  using assms by (simp add: wslcompat_debug_log_def log_level_def wslcompat_tunable_int_def Let_def)

text \<open>
  With tracing on, a log file that cannot be opened puts the error of that open in errno, and
  the shims that look at errno after a trace message see it.
\<close>

lemma log_clobbers_errno:
  assumes "level \<le> loglevel w" and "0 \<le> loglevel w" and "islot w Debugfd = -2"
    and "l_open L (logfile w) (O_WRONLY OR O_CREAT OR O_APPEND OR O_CLOEXEC) 384 (kst w) = (Inl e, k)"
  shows "wslcompat_debug_log K L id level tag msg w
    = (-1, w\<lparr>kst := k, errno := e, islot := (islot w)(Debugfd := -1)\<rparr>)"
proof -
  have "sys (l_open L (logfile w) (O_WRONLY OR O_CREAT OR O_APPEND OR O_CLOEXEC) 384) w = (None, w\<lparr>kst := k, errno := e\<rparr>)"
    using assms(4) by (simp add: sys_def)
  with assms(1-3) show ?thesis
    by (simp add: wslcompat_debug_log_def debugfd_open_def log_level_def fd_or_minus1_def Let_def)
qed

section \<open>One descriptor for all threads\<close>

text \<open>
  The descriptors that are open, as the kernel keeps them: an open adds one that was not open, a
  close takes one away, failed or not.
\<close>

definition opens_fresh :: "('k \<Rightarrow> int set) \<Rightarrow> 'k log_kernel \<Rightarrow> bool" where
  "opens_fresh fds L \<longleftrightarrow>
     (\<forall>p f m k fd k'. l_open L p f m k = (Inr fd, k') \<longrightarrow> fd \<ge> 0 \<and> fd \<notin> fds k \<and> fds k' = insert fd (fds k))
     \<and> (\<forall>p f m k e k'. l_open L p f m k = (Inl e, k') \<longrightarrow> fds k' = fds k)"

definition closes :: "('k \<Rightarrow> int set) \<Rightarrow> 'k kernel \<Rightarrow> bool" where
  "closes fds K \<longleftrightarrow> (\<forall>fd k. fds (snd (k_close K fd k)) = fds k - {fd})"

lemma opens_freshD:
  assumes "opens_fresh fds L"
  shows "l_open L p f m k = (Inr fd, k') \<Longrightarrow> fd \<ge> 0 \<and> fd \<notin> fds k \<and> fds k' = insert fd (fds k)"
    and "l_open L p f m k = (Inl e, k') \<Longrightarrow> fds k' = fds k"
  using assms unfolding opens_fresh_def by blast+

lemma closesD: "closes fds K \<Longrightarrow> fds (snd (k_close K fd k)) = fds k - {fd}"
  by (simp add: closes_def)

text \<open>
  Whatever the other threads store in \<^verbatim>\<open>debugfd\<close> meanwhile, no descriptor is leaked: what is open
  afterwards and was not before is the one in \<^verbatim>\<open>debugfd\<close>.
\<close>

lemma debugfd_open_no_leak:
  assumes f: "opens_fresh fds L" and c: "closes fds K" and o: "\<And>v. kst (others v) = kst v"
    and r: "debugfd_open K L others w = (fd, w')"
  shows "fds (kst w') \<subseteq> fds (kst w) \<union> {islot w' Debugfd}" and "fd = islot w' Debugfd"
proof -
  let ?open = "l_open L (logfile w) (O_WRONLY OR O_CREAT OR O_APPEND OR O_CLOEXEC) 384"
  have "fds (kst w') \<subseteq> fds (kst w) \<union> {islot w' Debugfd} \<and> fd = islot w' Debugfd"
  proof (cases "islot w Debugfd < -1")
    case False
    with r show ?thesis by (auto simp: debugfd_open_def Let_def)
  next
    case True
    show ?thesis
    proof (cases rule: sys_cases [of ?open w])
      case (ok v k)
      have v: "v \<ge> 0" "fds k = insert v (fds (kst w))"
        using opens_freshD(1) [OF f ok(1)] by simp_all
      let ?w2 = "others (w\<lparr>kst := k\<rparr>)"
      have k2: "kst ?w2 = k" by (simp add: o)
      have cl: "fds (kst (snd (sys (k_close K v) ?w2))) = fds k - {v}"
        using closesD [OF c, of v k] k2 by (cases rule: sys_cases [of "k_close K v" ?w2]) simp_all
      show ?thesis using True r ok(2) v k2 cl by (auto simp: debugfd_open_def fd_or_minus1_def Let_def split: if_splits)
    next
      case (err e k)
      have "fds k = fds (kst w)"
        by (rule opens_freshD(2) [OF f err(1)])
      with True r err(2) o show ?thesis by (auto simp: debugfd_open_def fd_or_minus1_def Let_def split: if_splits)
    qed
  qed
  then show "fds (kst w') \<subseteq> fds (kst w) \<union> {islot w' Debugfd}" and "fd = islot w' Debugfd" by auto
qed

end
