(* ===== verification/Shim.thy ===== *)
theory Shim
  imports World
begin

text \<open>
  shim.h: finding the next definition of an interposed function.  Every C file declares the
  functions it calls with \<^verbatim>\<open>SHIM_INIT\<close>; \<^verbatim>\<open>sym_next\<close> calls one of them, looking all of them up first if
  it is used before the file's constructor has run.  The other theories call the next function
  directly; the lemmas say when that is the same.
\<close>

section \<open>Lazy resolution\<close>

text \<open>The static pointers \<^verbatim>\<open>sym_f\<close> of a file, and the constructor \<^verbatim>\<open>_shim_init\<close> over its list of names.\<close>

type_synonym 'f syms = "cstring \<rightharpoonup> 'f"

primrec shim_init :: "(cstring \<rightharpoonup> 'f) \<Rightarrow> cstring list \<Rightarrow> 'f syms \<Rightarrow> 'f syms" where
  "shim_init dlsym [] syms = syms"
| "shim_init dlsym (n # ns) syms = shim_init dlsym ns (syms(n := dlsym n))"

definition shim_resolved :: "(cstring \<rightharpoonup> 'f) \<Rightarrow> cstring list \<Rightarrow> cstring \<Rightarrow> 'f syms \<Rightarrow> bool \<times> 'f syms" where
  "shim_resolved dlsym names func syms =
     (if syms func = None
      then (let syms' = shim_init dlsym names syms in (syms' func \<noteq> None, syms'))
      else (True, syms))"

definition sym_next ::
  "(cstring \<rightharpoonup> ('k, 'a) call) \<Rightarrow> cstring list \<Rightarrow> cstring \<Rightarrow> ('k, 'a) call syms \<Rightarrow> 'k world
   \<Rightarrow> ('a option \<times> 'k world) \<times> ('k, 'a) call syms" where
  "sym_next dlsym names func syms w =
     (let (ok, syms') = shim_resolved dlsym names func syms
      in (case syms' func of
            Some f \<Rightarrow> if ok then f w else fail_with ENOSYS w
          | None \<Rightarrow> fail_with ENOSYS w, syms'))"

section \<open>What is called\<close>

lemma shim_init_apply: "shim_init dlsym names syms n = (if n \<in> set names then dlsym n else syms n)"
  by (induction names arbitrary: syms) auto

text \<open>The pointers a file can have: null, or what the dynamic linker says.\<close>

definition syms_ok :: "(cstring \<rightharpoonup> 'f) \<Rightarrow> 'f syms \<Rightarrow> bool" where
  "syms_ok dlsym syms \<longleftrightarrow> (\<forall>n. syms n = None \<or> syms n = dlsym n)"

lemma syms_ok_start: "syms_ok dlsym (\<lambda>_. None)"
  by (simp add: syms_ok_def)

lemma syms_ok_init: "syms_ok dlsym syms \<Longrightarrow> syms_ok dlsym (shim_init dlsym names syms)"
  by (simp add: syms_ok_def shim_init_apply)

lemma syms_ok_sym_next: "syms_ok dlsym syms \<Longrightarrow> syms_ok dlsym (snd (sym_next dlsym names func syms w))"
  by (simp add: sym_next_def shim_resolved_def Let_def syms_ok_init)

text \<open>Before, during and after the constructors, a call reaches the next function, or fails with ENOSYS if there is none.\<close>

lemma sym_next_calls:
  assumes "syms_ok dlsym syms" and "func \<in> set names"
  shows "fst (sym_next dlsym names func syms w) = (case dlsym func of Some f \<Rightarrow> f w | None \<Rightarrow> fail_with ENOSYS w)"
  using spec [OF assms(1) [unfolded syms_ok_def], of func] assms(2)
  by (auto simp: sym_next_def shim_resolved_def shim_init_apply Let_def split: option.split)

end
