(* ===== verification/Xattr_locks.thy ===== *)
theory Xattr_locks
  imports Fcntl "HOL-Library.Monad_Syntax"
begin

text \<open>
  future/xattr_locks.c: a draft of byte-range locks kept in extended attributes of the file, not
  part of the build.  Eight attributes are slots; each holds the owner's pid and start time
  and the range, as text.  The C library functions it calls are the fields of a record.
\<close>

section \<open>The draft\<close>

abbreviation (input) MAX_SLOTS :: nat where "MAX_SLOTS \<equiv> 8"
abbreviation (input) EAGAIN :: int where "EAGAIN \<equiv> 11"
abbreviation (input) ESRCH :: int where "ESRCH \<equiv> 3"
abbreviation (input) ENOLCK :: int where "ENOLCK \<equiv> 37"

record 'k xlock_kernel =
  x_getpid :: "'k \<Rightarrow> int"
  x_open :: "cstring \<Rightarrow> int \<Rightarrow> 'k \<Rightarrow> (int + int) \<times> 'k"
  x_read :: "int \<Rightarrow> nat \<Rightarrow> 'k \<Rightarrow> (int + bytes) \<times> 'k"
  x_close :: "int \<Rightarrow> 'k \<Rightarrow> (int + int) \<times> 'k"
  x_kill :: "int \<Rightarrow> int \<Rightarrow> 'k \<Rightarrow> (int + int) \<times> 'k"
  x_flock :: "int \<Rightarrow> int \<Rightarrow> 'k \<Rightarrow> (int + int) \<times> 'k"
  x_fgetxattr :: "int \<Rightarrow> cstring \<Rightarrow> nat \<Rightarrow> 'k \<Rightarrow> (int + bytes) \<times> 'k"
  x_fsetxattr :: "int \<Rightarrow> cstring \<Rightarrow> bytes \<Rightarrow> int \<Rightarrow> 'k \<Rightarrow> (int + int) \<times> 'k"
  x_fremovexattr :: "int \<Rightarrow> cstring \<Rightarrow> 'k \<Rightarrow> (int + int) \<times> 'k"
  x_usleep :: "int \<Rightarrow> 'k \<Rightarrow> (int + int) \<times> 'k"
  x_fcntl :: "int \<Rightarrow> fcntl_req \<Rightarrow> 'k \<Rightarrow> (int + int) \<times> 'k"
  x_stack :: "'k \<Rightarrow> bytes"

text \<open>
  \<open>x_stack\<close> is what an uninitialised array of the C code holds.  The walk over the blanks of a
  stat line, and the number after them.
\<close>

fun skip_blanks :: "nat \<Rightarrow> cstring \<Rightarrow> cstring" where
  "skip_blanks 0 p = p"
| "skip_blanks (Suc n) [] = []"
| "skip_blanks (Suc n) (c # p) = (if c = CHR '' '' then skip_blanks n p else skip_blanks (Suc n) p)"

definition parse_start_time :: "cstring \<Rightarrow> 64 word" where
  "parse_start_time s =
     (case strrchr (CHR '')'') s of
        None \<Rightarrow> 0
      | Some p \<Rightarrow>
          (case scan_dec (skip_blanks 19 p) of None \<Rightarrow> 0 | Some _ \<Rightarrow> fst (strtoull (skip_blanks 19 p))))"

definition get_start_time :: "'k xlock_kernel \<Rightarrow> int \<Rightarrow> 'k world \<Rightarrow> 64 word \<times> 'k world" where
  "get_start_time X pid w =
     (case sys (x_open X (''/proc/'' @ show_int pid @ ''/stat'') O_RDONLY) w of
        (None, w1) \<Rightarrow> (0, w1)
      | (Some fd, w1) \<Rightarrow>
          (let (n, w2) = sys (x_read X fd 511) w1;
               (c, w3) = sys (x_close X fd) w2
           in case n of
                None \<Rightarrow> (0, w3)
              | Some buf \<Rightarrow> (if buf = [] then 0 else parse_start_time (cstr buf), w3)))"

text \<open>\<^verbatim>\<open>off_t\<close> addition, taken to wrap.\<close>

definition off_add :: "int \<Rightarrow> int \<Rightarrow> int" where
  "off_add a b = signed_take_bit 63 (a + b)"

definition range_conflict :: "flock \<Rightarrow> flock \<Rightarrow> bool" where
  "range_conflict a b =
     (if l_type a = F_RDLCK \<and> l_type b = F_RDLCK then False
      else if l_len a = 0 \<or> l_len b = 0 then True
      else if l_start a \<ge> off_add (l_start b) (l_len b) then False
      else if l_start b \<ge> off_add (l_start a) (l_len a) then False
      else True)"

text \<open>The text of a slot: \<^verbatim>\<open>%d:%lu:%hd:%ld:%ld\<close>, printed and scanned.\<close>

definition print_slot :: "int \<Rightarrow> 64 word \<Rightarrow> flock \<Rightarrow> cstring" where
  "print_slot pid start fl =
     show_int pid @ '':'' @ show_nat (unat start) @ '':'' @ show_int (l_type fl) @ '':'' @ show_int (l_start fl)
     @ '':'' @ show_int (l_len fl)"

definition sc_signed :: "nat \<Rightarrow> cstring \<Rightarrow> (int \<times> cstring) option" where
  "sc_signed bits s =
     (case scan_dec s of None \<Rightarrow> None | Some _ \<Rightarrow> Some (signed_take_bit bits (fst (strtol s)), snd (strtol s)))"

definition sc_unsigned :: "cstring \<Rightarrow> (64 word \<times> cstring) option" where
  "sc_unsigned s = (case scan_dec s of None \<Rightarrow> None | Some _ \<Rightarrow> Some (strtoull s))"

definition sc_colon :: "cstring \<Rightarrow> cstring option" where
  "sc_colon s = (case s of c # r \<Rightarrow> if c = CHR '':'' then Some r else None | [] \<Rightarrow> None)"

definition scan_owner :: "cstring \<Rightarrow> (int \<times> 64 word \<times> cstring) option" where
  "scan_owner s =
     do { (owner, s) \<leftarrow> sc_signed 31 s; s \<leftarrow> sc_colon s; (start, s) \<leftarrow> sc_unsigned s; Some (owner, start, s) }"

definition scan_slot :: "cstring \<Rightarrow> (int \<times> 64 word \<times> flock) option" where
  "scan_slot s =
     do { (owner, start, s) \<leftarrow> scan_owner s; s \<leftarrow> sc_colon s; (t, s) \<leftarrow> sc_signed 15 s; s \<leftarrow> sc_colon s;
          (from, s) \<leftarrow> sc_signed 63 s; s \<leftarrow> sc_colon s; (len, s) \<leftarrow> sc_signed 63 s;
          Some (owner, start, \<lparr>l_type = t, l_whence = 0, l_start = from, l_len = len, l_pid = 0\<rparr>) }"

definition slot_attr :: "nat \<Rightarrow> cstring" where
  "slot_attr i = ''user.wslcompat.lock.'' @ show_nat i"

text \<open>
  The array after a \<^verbatim>\<open>fgetxattr\<close>: the bytes of the value, then what the array held before; nothing
  terminates the value.
\<close>

definition overlay :: "bytes \<Rightarrow> bytes \<Rightarrow> bytes" where
  "overlay b val = b @ drop (length b) val"

text \<open>The loop of \<^verbatim>\<open>scan_range_conflicts\<close> over the slots, with the array \<^verbatim>\<open>val\<close> as it is at each.\<close>

fun scan_slots ::
  "'k xlock_kernel \<Rightarrow> int \<Rightarrow> flock \<Rightarrow> 64 word \<Rightarrow> nat list \<Rightarrow> bytes \<Rightarrow> 'k world \<Rightarrow> bool \<times> 'k world" where
  "scan_slots X fd fl my_start [] val w = (False, w)"
| "scan_slots X fd fl my_start (i # is) val w =
     (case sys (x_fgetxattr X fd (slot_attr i) 128) w of
        (None, w1) \<Rightarrow> scan_slots X fd fl my_start is val w1
      | (Some [], w1) \<Rightarrow> scan_slots X fd fl my_start is val w1
      | (Some b, w1) \<Rightarrow>
          (let val1 = overlay b val;
               drop_it = (\<lambda>v. snd (sys (x_fremovexattr X fd (slot_attr i)) v))
           in case scan_slot (cstr val1) of
                None \<Rightarrow> scan_slots X fd fl my_start is val1 (drop_it w1)
              | Some (owner, start, other) \<Rightarrow>
                  (if owner = x_getpid X (kst w1) \<and> start = my_start then scan_slots X fd fl my_start is val1 w1
                   else
                     (let (alive, w2) = sys (x_kill X owner 0) w1
                      in if alive \<noteq> Some 0 \<and> errno w2 = ESRCH then scan_slots X fd fl my_start is val1 (drop_it w2)
                         else
                           (let (st, w3) = get_start_time X owner w2
                            in if st \<noteq> start then scan_slots X fd fl my_start is val1 (drop_it w3)
                               else if range_conflict fl other then (True, w3)
                               else scan_slots X fd fl my_start is val1 w3)))))"

definition scan_range_conflicts :: "'k xlock_kernel \<Rightarrow> int \<Rightarrow> flock \<Rightarrow> 'k world \<Rightarrow> bool \<times> 'k world" where
  "scan_range_conflicts X fd fl w =
     (let (my_start, w1) = get_start_time X (x_getpid X (kst w)) w
      in scan_slots X fd fl my_start [0..<MAX_SLOTS] (x_stack X (kst w)) w1)"

text \<open>Removing the caller's slots.\<close>

fun unlock_slots :: "'k xlock_kernel \<Rightarrow> int \<Rightarrow> 64 word \<Rightarrow> nat list \<Rightarrow> bytes \<Rightarrow> 'k world \<Rightarrow> 'k world" where
  "unlock_slots X fd my_start [] val w = w"
| "unlock_slots X fd my_start (i # is) val w =
     (case sys (x_fgetxattr X fd (slot_attr i) 128) w of
        (None, w1) \<Rightarrow> unlock_slots X fd my_start is val w1
      | (Some [], w1) \<Rightarrow> unlock_slots X fd my_start is val w1
      | (Some b, w1) \<Rightarrow>
          (let val1 = overlay b val
           in case scan_owner (cstr val1) of
                None \<Rightarrow> unlock_slots X fd my_start is val1 w1
              | Some (owner, start, _) \<Rightarrow>
                  unlock_slots X fd my_start is val1
                    (if owner = x_getpid X (kst w1) \<and> start = my_start
                     then snd (sys (x_fremovexattr X fd (slot_attr i)) w1) else w1)))"

text \<open>Posting in the first slot without a value; ENOLCK when there is none.\<close>

fun post_slot :: "'k xlock_kernel \<Rightarrow> int \<Rightarrow> flock \<Rightarrow> 64 word \<Rightarrow> nat list \<Rightarrow> ('k, int) call" where
  "post_slot X fd fl my_start [] w =
     (let (u, w1) = sys (x_flock X fd LOCK_UN) w in (None, w1\<lparr>errno := ENOLCK\<rparr>))"
| "post_slot X fd fl my_start (i # is) w =
     (case sys (x_fgetxattr X fd (slot_attr i) 128) w of
        (Some (c # b), w1) \<Rightarrow> post_slot X fd fl my_start is w1
      | (_, w1) \<Rightarrow>
          (let (r, w2) = sys (x_fsetxattr X fd (slot_attr i) (print_slot (x_getpid X (kst w1)) my_start fl) 0) w1;
               (u, w3) = sys (x_flock X fd LOCK_UN) w2
           in if r = None then (None, w3) else (Some 0, w3)))"

definition xattr_whole_file :: "'k xlock_kernel \<Rightarrow> int \<Rightarrow> lock_cmd \<Rightarrow> flock \<Rightarrow> ('k, int) call" where
  "xattr_whole_file X fd cmd fl w =
     (let op1 = (if l_type fl = F_RDLCK then LOCK_SH else if l_type fl = F_WRLCK then LOCK_EX else LOCK_UN);
          operation = (if cmd = SETLK \<or> cmd = OFD_SETLK then op1 OR LOCK_NB else op1);
          (r, w1) = sys (x_flock X fd operation) w
      in if r = None then (None, w1)
         else if operation = LOCK_UN then (Some 0, w1)
         else
           (let (conflict, w2) = scan_range_conflicts X fd fl w1
            in if conflict
               then (let (u, w3) = sys (x_flock X fd LOCK_UN) w2 in (None, w3\<lparr>errno := EAGAIN\<rparr>))
               else (Some 0, w2)))"

definition xattr_lock_shim :: "'k xlock_kernel \<Rightarrow> int \<Rightarrow> lock_cmd \<Rightarrow> flock \<Rightarrow> ('k, int) call" where
  "xattr_lock_shim X fd cmd fl w0 =
     (let (my_start, w) = get_start_time X (x_getpid X (kst w0)) w0
      in if l_start fl = 0 \<and> l_len fl = 0 then xattr_whole_file X fd cmd fl w
         else
           (let (r, w1) = sys (x_flock X fd LOCK_EX) w
            in if r = None then (None, w1)
               else if l_type fl = F_UNLCK
               then (let w2 = unlock_slots X fd my_start [0..<MAX_SLOTS] (x_stack X (kst w0)) w1;
                         (u, w3) = sys (x_flock X fd LOCK_UN) w2
                     in (Some 0, w3))
               else
                 (let (conflict, w2) = scan_range_conflicts X fd fl w1
                  in if conflict
                     then (let (u, w3) = sys (x_flock X fd LOCK_UN) w2 in (None, w3\<lparr>errno := EAGAIN\<rparr>))
                     else post_slot X fd fl my_start [0..<MAX_SLOTS] w2)))"

text \<open>The blocking commands poll; \<open>None\<close> is a request that never returns.\<close>

partial_function (option) setlkw_loop ::
  "'k xlock_kernel \<Rightarrow> int \<Rightarrow> lock_cmd \<Rightarrow> flock \<Rightarrow> 'k world \<Rightarrow> (int option \<times> 'k world) option" where
  "setlkw_loop X fd cmd fl w =
     (let (r, w1) = xattr_lock_shim X fd cmd fl w
      in if r = Some 0 then Some (Some 0, w1)
         else if errno w1 \<noteq> EAGAIN then Some (r, w1)
         else setlkw_loop X fd cmd fl (snd (sys (x_usleep X 10000) w1)))"

definition xattr_fcntl_common ::
  "'k xlock_kernel \<Rightarrow> int \<Rightarrow> fcntl_req \<Rightarrow> 'k world \<Rightarrow> (int option \<times> 'k world) option" where
  "xattr_fcntl_common X fd req w =
     (case req of
        Lock_req cmd fl \<Rightarrow>
          (if cmd = SETLK \<or> cmd = OFD_SETLK then Some (xattr_lock_shim X fd cmd fl w)
           else if cmd = SETLKW \<or> cmd = OFD_SETLKW then setlkw_loop X fd cmd fl w
           else Some (sys (x_fcntl X fd req) w))
      | Val_req _ _ \<Rightarrow> Some (sys (x_fcntl X fd req) w))"

section \<open>Ranges\<close>

definition range :: "flock \<Rightarrow> int set" where
  "range fl = {l_start fl ..< l_start fl + l_len fl}"

text \<open>Two locks of positive length whose ends fit \<^verbatim>\<open>off_t\<close> conflict when one of them is a write lock and they share a byte.\<close>

lemma range_conflict_spec:
  assumes "0 \<le> l_start a" "0 < l_len a" "l_start a + l_len a < 2 ^ 63"
    and "0 \<le> l_start b" "0 < l_len b" "l_start b + l_len b < 2 ^ 63"
  shows "range_conflict a b \<longleftrightarrow>
    \<not> (l_type a = F_RDLCK \<and> l_type b = F_RDLCK) \<and> range a \<inter> range b \<noteq> {}"
proof -
  have o: "off_add (l_start a) (l_len a) = l_start a + l_len a" "off_add (l_start b) (l_len b) = l_start b + l_len b"
    using assms by (simp_all add: off_add_def signed_take_bit_int_eq_self)
  have "range a \<inter> range b \<noteq> {} \<longleftrightarrow> l_start a < l_start b + l_len b \<and> l_start b < l_start a + l_len a"
  proof
    assume "range a \<inter> range b \<noteq> {}"
    then show "l_start a < l_start b + l_len b \<and> l_start b < l_start a + l_len a" by (auto simp: range_def)
  next
    assume "l_start a < l_start b + l_len b \<and> l_start b < l_start a + l_len a"
    then have "max (l_start a) (l_start b) \<in> range a \<inter> range b" using assms by (auto simp: range_def)
    then show "range a \<inter> range b \<noteq> {}" by blast
  qed
  with o assms show ?thesis by (auto simp: range_conflict_def)
qed

text \<open>
  A length of 0 means to the end of the file; the code takes it for the whole file, and refuses
  a lock from byte 100 on while another process has the first 10 bytes.
\<close>

lemma range_conflict_to_eof:
  "range_conflict \<lparr>l_type = F_WRLCK, l_whence = 0, l_start = 100, l_len = 0, l_pid = 0\<rparr>
     \<lparr>l_type = F_WRLCK, l_whence = 0, l_start = 0, l_len = 10, l_pid = 0\<rparr>"
  by (simp add: range_conflict_def)

section \<open>The text of a slot\<close>

lemma sc_colon_Cons [simp]: "sc_colon (CHR '':'' # r) = Some r"
  by (simp add: sc_colon_def)

lemma sc_signed_show:
  assumes "no_digit r" and "- (2 ^ bits) \<le> i" "i < 2 ^ bits" "bits \<le> 63"
  shows "sc_signed bits (show_int i @ r) = Some (i, r)"
proof -
  have "(2::int) ^ bits \<le> 2 ^ 63" using assms(4) by (intro power_increasing) simp_all
  with assms show ?thesis
    by (simp add: sc_signed_def scan_dec_show_int strtol_show_int LONG_MIN_def LONG_MAX_def signed_take_bit_int_eq_self)
qed

lemma sc_unsigned_show: "no_digit r \<Longrightarrow> sc_unsigned (show_nat (unat v) @ r) = Some (v, r)"
  using unsigned_less [of v, where 'a = nat]
  by (simp add: sc_unsigned_def scan_dec_show strtoull_def ULONG_MAX_def)

lemma colon_no_digit [simp]: "\<not> is_digit (CHR '':'')"
  by (simp add: is_digit_def)

text \<open>What is printed is read back, when nothing that looks like a digit follows it in the array.\<close>

lemma scan_print_slot:
  assumes "- (2 ^ 31) \<le> pid" "pid < 2 ^ 31" "- (2 ^ 15) \<le> l_type fl" "l_type fl < 2 ^ 15"
    and "- (2 ^ 63) \<le> l_start fl" "l_start fl < 2 ^ 63" "- (2 ^ 63) \<le> l_len fl" "l_len fl < 2 ^ 63" and "no_digit r"
  shows "scan_slot (print_slot pid start fl @ r)
    = Some (pid, start, \<lparr>l_type = l_type fl, l_whence = 0, l_start = l_start fl, l_len = l_len fl, l_pid = 0\<rparr>)"
proof -
  have n: "sc_signed 31 (show_int pid @ q) = Some (pid, q)" "sc_signed 15 (show_int (l_type fl) @ q) = Some (l_type fl, q)"
    "sc_signed 63 (show_int (l_start fl) @ q) = Some (l_start fl, q)" "sc_signed 63 (show_int (l_len fl) @ q) = Some (l_len fl, q)"
    if "no_digit q" for q
    using assms that by (auto intro!: sc_signed_show)
  show ?thesis using assms(9) by (simp add: scan_slot_def scan_owner_def print_slot_def n sc_unsigned_show)
qed

text \<open>
  A value shorter than the one read before it is followed by the rest of that one.  Here the
  slot of process 7 says 10 bytes from 0, and is read as 1057 bytes, after the slot of process
  123 with 57 bytes.
\<close>

definition wrlck :: "int \<Rightarrow> int \<Rightarrow> flock" where
  "wrlck from len = \<lparr>l_type = F_WRLCK, l_whence = 0, l_start = from, l_len = len, l_pid = 0\<rparr>"

lemma stale_tail:
  "scan_slot (cstr (overlay (print_slot 7 0 (wrlck 0 10)) (overlay (print_slot 123 0 (wrlck 0 57)) (replicate 128 NUL))))
     = Some (7, 0, wrlck 0 1057)"
proof -
  have p: "print_slot 7 0 (wrlck 0 10) = ''7:0:1:0:10''" "print_slot 123 0 (wrlck 0 57) = ''123:0:1:0:57''"
    "print_slot 7 0 (wrlck 0 1057) = ''7:0:1:0:1057''"
    by (simp_all add: print_slot_def wrlck_def show_int_def show_nat.simps digit_char_def)
  have "cstr (overlay ''7:0:1:0:10'' (overlay ''123:0:1:0:57'' (replicate 128 NUL))) = print_slot 7 0 (wrlck 0 1057)"
    unfolding p by (simp add: overlay_def cstr_def NUL_def)
  moreover have "scan_slot (print_slot 7 0 (wrlck 0 1057)) = Some (7, 0, wrlck 0 1057)"
    using scan_print_slot [of 7 "wrlck 0 1057" "[]" 0] by (simp add: wrlck_def)
  ultimately show ?thesis by (simp only: p(1,2))
qed

section \<open>The start time\<close>

text \<open>
  The draft looks for the 19th blank after the command name, which is before field 21 of the
  line, the interval timer that Linux prints as 0, and not before field 22, the start time.
\<close>

lemma skip_blanks_none: "CHR '' '' \<notin> set xs \<Longrightarrow> skip_blanks (Suc n) (xs @ ys) = skip_blanks (Suc n) ys"
  by (induction xs) auto

lemma blank_notin_show_int: "CHR '' '' \<notin> set (show_int i)"
  using set_show_int [of "CHR '' ''" i] by (auto simp: is_digit_def)

lemma skip_blanks_fields:
  "length fs = n \<Longrightarrow> skip_blanks (Suc n) (stat_fields (fs @ [f]) @ r) = show_int f @ r"
proof (induction fs arbitrary: n)
  case Nil
  then show ?case by (simp add: stat_fields_def)
next
  case (Cons g fs)
  then obtain m where n: "n = Suc m" "length fs = m" by (cases n) auto
  have "skip_blanks (Suc n) (stat_fields ((g # fs) @ [f]) @ r) = skip_blanks (Suc m) (show_int g @ stat_fields (fs @ [f]) @ r)"
    using n(1) by (simp add: stat_fields_def)
  also have "\<dots> = skip_blanks (Suc m) (stat_fields (fs @ [f]) @ r)"
    by (rule skip_blanks_none [OF blank_notin_show_int])
  finally show ?case using Cons.IH [OF n(2)] by simp
qed

lemma start_time_is_itrealvalue:
  assumes "length fs = 17" and "state \<noteq> CHR '' ''" "state \<noteq> CHR '')''" and "CHR '')'' \<notin> set rest"
    and "0 \<le> itrealvalue" "itrealvalue < 2 ^ 64"
  shows "parse_start_time (stat_line pid comm state (fs @ [itrealvalue]) st rest) = of_int itrealvalue"
proof -
  let ?tail = "stat_fields (fs @ [itrealvalue]) @ CHR '' '' # show_nat st @ rest"
  have "strrchr (CHR '')'') (stat_line pid comm state (fs @ [itrealvalue]) st rest) = Some (CHR '')'' # CHR '' '' # state # ?tail)"
    using assms(3,4) strrchr_Some_append [of "CHR '')''" "CHR '' '' # state # ?tail" "show_int pid @ '' ('' @ comm"]
    by (simp add: stat_line_def paren_notin_fields paren_notin_show_nat)
  moreover have "skip_blanks 19 (CHR '')'' # CHR '' '' # state # ?tail) = show_int itrealvalue @ CHR '' '' # show_nat st @ rest"
    using assms(1,2) skip_blanks_fields [of fs 17 itrealvalue "CHR '' '' # show_nat st @ rest"] by (simp add: numeral_eq_Suc)
  moreover have "no_digit (CHR '' '' # show_nat st @ rest)" by (simp add: no_digit_def is_digit_def)
  moreover have "\<not> ULONG_MAX < nat itrealvalue" using assms(6) by (simp add: ULONG_MAX_def)
  ultimately show ?thesis
    using assms(5) by (simp add: parse_start_time_def scan_dec_show_int strtoull_def)
qed

section \<open>Results of a request\<close>

text \<open>
  The test for an unlock of the whole file compares with \<^verbatim>\<open>LOCK_UN\<close> after \<^verbatim>\<open>LOCK_NB\<close> has been added, so
  a non-blocking unlock goes on to look for conflicts and can fail with EAGAIN.
\<close>

lemma unlock_can_fail:
  assumes "l_type fl = F_UNLCK" and "x_flock X fd (LOCK_UN OR LOCK_NB) (kst w) = (Inr r, k)"
    and "scan_range_conflicts X fd fl (w\<lparr>kst := k\<rparr>) = (True, w2)"
  shows "fst (xattr_whole_file X fd SETLK fl w) = None \<and> errno (snd (xattr_whole_file X fd SETLK fl w)) = EAGAIN"
  using assms by (simp add: xattr_whole_file_def sys_def case_prod_beta)

text \<open>With all slots taken a range lock is refused with ENOLCK, and the short lock is given back.\<close>

lemma post_slot_full:
  assumes "\<And>i k. i \<in> set is \<Longrightarrow> \<exists>c b. x_fgetxattr X fd (slot_attr i) 128 k = (Inr (c # b), k)"
  shows "post_slot X fd fl my_start is w = (None, (snd (sys (x_flock X fd LOCK_UN) w))\<lparr>errno := ENOLCK\<rparr>)"
  using assms
proof (induction "is" arbitrary: w)
  case (Cons i "is")
  obtain c b where "x_fgetxattr X fd (slot_attr i) 128 (kst w) = (Inr (c # b), kst w)" using Cons.prems [of i "kst w"] by auto
  then have "sys (x_fgetxattr X fd (slot_attr i) 128) w = (Some (c # b), w)" by (simp add: sys_def)
  with Cons show ?case by simp
qed (simp add: case_prod_beta Let_def)

text \<open>A blocking request returns with the first answer other than EAGAIN.\<close>

lemma setlkw_returns:
  assumes "xattr_lock_shim X fd cmd fl w = (r, w1)" and "r = Some 0 \<or> errno w1 \<noteq> EAGAIN"
  shows "setlkw_loop X fd cmd fl w = Some (r, w1)"
  using assms by (subst setlkw_loop.simps) auto

lemma setlkw_retries:
  assumes "xattr_lock_shim X fd cmd fl w = (None, w1)" and "errno w1 = EAGAIN"
  shows "setlkw_loop X fd cmd fl w = setlkw_loop X fd cmd fl (snd (sys (x_usleep X 10000) w1))"
  using assms by (subst setlkw_loop.simps) simp

end
