(* ===== verification/Spec2Isabelle.thy ===== *)
theory Spec2Isabelle
  imports System Refcount Statx Clock Copy Rename Sockopt Syscall Logging Shim Xattr_locks
begin

text \<open>
  wslcompat is a C library that is loaded before a program (\<^verbatim>\<open>LD_PRELOAD\<close>) on WSL1 and replaces the
  C library functions that the WSL1 kernel does not support well.  This development models all
  of the library and of its tool \<^verbatim>\<open>elfclamp\<close>, and proves the properties that make them correct.

  \<^bold>\<open>The program.\<close>  Its centre is the \<^emph>\<open>synthetic descriptor\<close>: an \<^verbatim>\<open>O_PATH\<close> descriptor of a temporary
  file whose device and inode identify an entry of \<^verbatim>\<open>synth_table\<close>.  The entry names a handler (a
  \<^verbatim>\<open>/proc\<close> file the kernel lacks, or a terminal whose raw reads it gets wrong).  The kernel refuses I/O
  on such a descriptor, and the shims, which always try the kernel first, look it up on that
  error and run the handler, or the call on the real descriptor behind it.  Entries are
  reference counted and shared with forked and vforked children, which see the descriptors
  inside an entry through copy-on-write views.  Around this are independent shims (clocks,
  statx, mmap, exec, locks, socket options, renames) and the common services: tunables read
  from attributes of the executable, a debug log, the registry of internal descriptors, and the
  lookup of the next definition of each function.

  \<^bold>\<open>The model.\<close>  The kernel and the C library's own functions are not part of the sources: they are
  records of functions (\<open>'k kernel\<close> and, per component, \<open>libc_io\<close>, \<open>vm_kernel\<close>, \<open>tty_kernel\<close>, \<open>libc_tc\<close>,
  \<open>lock_kernel\<close>, \<open>epoll_kernel\<close>, \<open>poll_kernel\<close>, \<open>sel_kernel\<close>, \<open>statx_kernel\<close>, \<open>clock_kernel\<close>, \<open>mmap_kernel\<close>,
  \<open>exec_kernel\<close>, \<open>rename_kernel\<close>, \<open>sock_kernel\<close>, \<open>raw_kernel\<close>, \<open>log_kernel\<close>, \<open>xlock_kernel\<close>) over an opaque state
  \<open>'k\<close>.  What a theorem needs of them is a hypothesis that states their documented behaviour.
  \<open>'k world\<close> holds the kernel state, errno and the static variables of all C files.  A call is a
  function \<open>'k world \<Rightarrow> 'a option \<times> 'k world\<close>; \<open>None\<close> is the C result -1, with errno in the world.

  \<^bold>\<open>The theories\<close>, with the files of src/ they model:
  \<^item> \<open>Prelude\<close>: lists, options, flags and words; \<open>CString\<close>: the C string functions the sources use;
    \<open>World\<close>: constants, state and kernel interface.
  \<^item> \<open>Tunables\<close>: tunables.c and tunables.h.  The options read at start are well-formed, a name is
    enabled as documented, list lookup is exact, and the cached passthrough test is transparent.
  \<^item> \<open>Override\<close>: the views of synth.c (lines 24 to 312).  A vforked child's changes are invisible to its
    parent, relocation frees the number the program wants, and start times are parsed from every
    stat line.  \<open>fd_view\<close> is the interface; the probe and the real descriptor of a terminal
    interpret it.
  \<^item> \<open>Walk\<close>: utils.c; \<open>Tmpfile\<close>: the temporary files of open.c; \<open>Internal\<close>: internal.c, with the proof that no
    internal descriptor stays on a number the program takes.
  \<^item> \<open>Synth\<close>: the table of synth.c, with the locale \<open>synth_handlers\<close>, what the table needs of every
    handler; \<open>Close\<close>: close.c; \<open>Dispatch\<close>: the macros of synth.h and the I/O shims of read.c; \<open>Proc\<close>: proc.c;
    \<open>Tty\<close>: tty.c; \<open>Handlers\<close>: the three handler tables, the interpretation of \<open>synth_handlers\<close> with them,
    and the life of an entry: registered entries are found, a close by another process is
    neutral, the last close releases, and what decides which it is.
  \<^item> \<open>Open\<close>: open.c; \<open>Fcntl\<close>: fcntl.c; \<open>Ioctl\<close>: ioctl.c; \<open>Epoll\<close>: epoll.c; \<open>Poll\<close> and \<open>Select\<close>: poll.c, with the
    proofs that the caller's sets are translated and restored.
  \<^item> \<open>Statx\<close>: statx.c; \<open>Clock\<close>: clock.c; \<open>Mmap\<close>: mmap.c and mincore.c; \<open>Copy\<close>: copy_file_range.c; \<open>Rename\<close>:
    rename.c; \<open>Sockopt\<close>: getsockopt.c and setsockopt.c.
  \<^item> \<open>Elf\<close>: the ELF test of execve.c and tools/elfclamp.c; \<open>Preexec\<close>: the end of synth.c, what is saved
    across an exec; \<open>Exec\<close>: execve.c and execveat.c, with what can be started and what is; \<open>Syscall\<close>:
    syscall.c.
  \<^item> \<open>Logging\<close>: logging.c; \<open>Shim\<close>: shim.h; \<open>Xattr_locks\<close>: the draft future/xattr_locks.c.
  \<^item> \<open>Refcount\<close>: the reference count of one slot as a step relation over interleaved threads, with
    its safety, and how the sequential model is one of its runs.
  \<^item> \<open>Balance\<close> and \<open>System\<close>: sequences of calls, and that each keeps the table well-formed.  This theory: the
    property of whole programs.

  \<^bold>\<open>Loops, fuel and bounds.\<close>  Loops over tables and buffers are recursive functions over lists.
  Registration may sweep the table and try again once: its fuel of 2 is enough
  (\<open>register_fuel\<close>).  A directory walk reads batches until one is empty; \<open>k_dir_batches\<close> bounds how
  many a directory yields.  The raw terminal read terminates by the bytes still wanted.  The
  CPU-clock sleep, the copy loops and the polling of the draft locks may run forever; they are
  partial functions whose undefined result is \<open>None\<close>, and their termination is proved where it
  holds.  Machine integers are words or are reduced to their width where the code can wrap.

  \<^bold>\<open>Simplifications.\<close>  Outside \<open>Refcount\<close> and the race in \<open>Logging\<close>, an operation runs without
  interruption and atomics are plain variables.  Log calls are left out of the other shims; \<open>Logging\<close>
  says when that is exact.  \<^verbatim>\<open>sym_next\<close> is a direct call; \<open>Shim\<close> says when that is exact.  Pointers are
  the values they point to, or \<open>None\<close> for null; aliasing of a caller's buffers is not modelled.

  \<^bold>\<open>Not modelled.\<close>  future/locks.c is a draft that does not compile.  The text of log messages, which
  is formatted by the C library, is an argument.  The 64-bit aliases of functions (\<^verbatim>\<open>open64\<close> and
  others) are the same functions on the target, and the macros of shim.h that iterate over names
  only generate declarations.  The test programs and the build rules are not part of the library.
\<close>

section \<open>The library as a whole\<close>

text \<open>
  C1: After any sequence of calls of a program, whatever the kernel answers to each, the
  synthetic descriptor table has its 64 slots; every slot is free or holds exactly the
  producer's reference, so no call leaks a pin or takes a reference it does not own; and
  \<^verbatim>\<open>synth_live_entries\<close> is the number of entries in use, so that \<^verbatim>\<open>wslcompat_synth_active\<close> answers
  whether there is one.
\<close>

theorem program_table_ok:
  assumes "app_run E cs ((static_world k)\<lparr>options := opts, env_disable := dis\<rparr>) = Some w"
  shows "length (synth_table w) = 64
    \<and> (\<forall>e\<in>set (synth_table w). refcount e = 0 \<or> refcount e = 1)
    \<and> unat (synth_live_entries w) = length (filter (\<lambda>e. refcount e = 1) (synth_table w))
    \<and> (wslcompat_synth_active w \<longleftrightarrow> (\<exists>e\<in>set (synth_table w). refcount e = 1))"
proof -
  have "table_ok ((static_world k)\<lparr>options := opts, env_disable := dis\<rparr>)"
    using static_table_ok [of k] by (simp add: table_ok_def live_inv_def)
  then have "table_ok w" using assms by (rule app_run_table_ok)
  then show ?thesis using table_ok_live [of w] by (simp add: table_ok_def rc01_def)
qed

definition example_env :: "unit env" where
  "example_env = \<lparr>en_kernel = null_kernel\<lparr>k_open := (\<lambda>_ _ k. (Inr 7, k)), k_fstat := (\<lambda>_ k. (Inr \<lparr>st_dev = 3, st_ino = 4, st_mode = 0\<rparr>, k)),
       k_openat := (\<lambda>_ _ _ _ k. (Inr 6, k)), k_getrandom := (\<lambda>k. (Inr 5, k)), k_flock := (\<lambda>_ _ k. (Inr 0, k))\<rparr>,
     en_vm = null_vm, en_io = null_io, en_tty = example_tty, en_lock = \<lparr>lk_fcntl = (\<lambda>_ _ _ k. (Inl ENOSYS, k))\<rparr>,
     en_poll = example_poll, en_sel = example_select, en_epoll = example_epoll,
     en_mmap = \<lparr>n_mmap = (\<lambda>_ k. (Inl ENOSYS, k)), s_mmap = (\<lambda>_ k. (Inl ENOSYS, k)), s_munmap = (\<lambda>_ _ k. (Inl ENOSYS, k)),
       s_mlock = (\<lambda>_ _ k. (Inl ENOSYS, k)), n_mincore = (\<lambda>_ _ k. (Inl ENOSYS, k)), n_msync = (\<lambda>_ _ _ k. (Inl ENOSYS, k))\<rparr>,
     en_exec = example_exec, en_null_open = (\<lambda>k. (EFAULT, k))\<rparr>"

theorem program_table_ok_witness:
  "\<exists>w. app_run example_env [Open (Some ''/proc/sys/vm/mmap_min_addr'') 0 0, Io 7 (Read 3), Dup2 7 8, Close 7, System (Some ''true'')]
         ((static_world ())\<lparr>options := [], env_disable := False\<rparr>) = Some w
     \<and> (\<forall>e\<in>set (synth_table w). refcount e = 0 \<or> refcount e = 1)"
proof -
  obtain w where "app_run example_env [Open (Some ''/proc/sys/vm/mmap_min_addr'') 0 0, Io 7 (Read 3), Dup2 7 8, Close 7, System (Some ''true'')]
         ((static_world ())\<lparr>options := [], env_disable := False\<rparr>) = Some w"
    by (simp add: app_step_def Let_def)
  with program_table_ok [OF this] show ?thesis by blast
qed

end
